theory Spec2Isabelle
  imports Main
begin

section \<open>Strings\<close>

text \<open>
  A JavaScript string is a sequence of UTF-16 code units. The credential directory and
  the two fields of the login form are modelled with HOL's \<open>string\<close>, whose characters
  are the 256 values \<open>0x00 .. 0xFF\<close>, a character being read as the code unit with the
  same number (U+0000 .. U+00FF, the Latin-1 range): on that range \<open>toLowerCase\<close> and
  \<open>trim\<close> are given exactly below. Every other text of the program (stored texts, JSON,
  tokens, task texts) is a list of code units, see the next section.
\<close>

definition is_upper :: "char \<Rightarrow> bool" where
  "is_upper c = (let n = (of_char c :: nat)
                 in (65 \<le> n \<and> n \<le> 90) \<or> (192 \<le> n \<and> n \<le> 222 \<and> n \<noteq> 215))"

text \<open>
  \<open>String.prototype.toLowerCase\<close> on this range: \<open>A .. Z\<close> and U+00C0 .. U+00DE
  (without the multiplication sign U+00D7) move up by 32, every other code unit of the
  range stays.
\<close>

definition lower_char :: "char \<Rightarrow> char" where
  "lower_char c = (if is_upper c then char_of ((of_char c :: nat) + 32) else c)"

definition toLowerCase :: "string \<Rightarrow> string" where
  "toLowerCase s = map lower_char s"

text \<open>
  \<open>String.prototype.trim\<close> removes white space and line terminators at both ends; in
  the range of the model these are TAB, LF, VT, FF, CR, SPACE and NBSP (U+00A0).
\<close>

definition is_ws :: "char \<Rightarrow> bool" where
  "is_ws c = ((of_char c :: nat) \<in> {9, 10, 11, 12, 13, 32, 160})"

definition trim :: "string \<Rightarrow> string" where
  "trim s = rev (dropWhile is_ws (rev (dropWhile is_ws s)))"

section \<open>Credential directory (auth.js)\<close>

record user =
  user_id :: string
  username :: string
  password :: string
  email :: string
  role :: string

definition admin_user :: user where
  "admin_user = \<lparr> user_id = ''admin123'', username = ''admin'', password = ''password123'',
                  email = ''admin@taskmanager.com'', role = ''admin'' \<rparr>"

definition plain_user :: user where
  "plain_user = \<lparr> user_id = ''user456'', username = ''user'', password = ''user123'',
                  email = ''user@taskmanager.com'', role = ''user'' \<rparr>"

definition MOCK_USERS :: "user list" where
  "MOCK_USERS = [admin_user, plain_user]"

text \<open>The predicate of \<open>MOCK_USERS.find\<close> in \<open>findUser\<close>.\<close>

definition user_matches :: "string \<Rightarrow> string \<Rightarrow> user \<Rightarrow> bool" where
  "user_matches normalizedInput pw u =
     (let matchesUsername = (toLowerCase (username u) = normalizedInput);
          matchesEmail = (toLowerCase (email u) = normalizedInput);
          matchesPassword = (password u = pw)
      in (matchesUsername \<or> matchesEmail) \<and> matchesPassword)"

definition findUser :: "string \<Rightarrow> string \<Rightarrow> user option" where
  "findUser usernameOrEmail pw =
     (let normalizedInput = trim (toLowerCase usernameOrEmail)
      in find (user_matches normalizedInput pw) MOCK_USERS)"

text \<open>
  The reading of "matches the identifier or alias case-insensitively": both sides are
  equal once lower-cased, and nothing else is done to the input.
\<close>

definition matches_ci :: "string \<Rightarrow> user \<Rightarrow> bool" where
  "matches_ci inp u =
     (toLowerCase inp = toLowerCase (username u) \<or> toLowerCase inp = toLowerCase (email u))"

section \<open>Code units\<close>

text \<open>
  A text is the list of its UTF-16 code units, the numbers below \<open>2 ^ 16\<close>; the
  functions below are defined on every list of numbers. \<open>lit\<close> reads a text of the
  Latin-1 range as code units.
\<close>

type_synonym jsstring = "nat list"

definition lit :: "string \<Rightarrow> jsstring" where
  "lit s = map of_char s"

text \<open>
  The white space and the line terminators of ECMAScript, which
  \<open>String.prototype.trim\<close> and the conversion of a string to a number strip: TAB, LF,
  VT, FF, CR, SPACE, NBSP, the other space separators of Unicode, LS, PS and the byte
  order mark.
\<close>

definition is_space :: "nat \<Rightarrow> bool" where
  "is_space c =
     (c \<in> {0x09, 0x0A, 0x0B, 0x0C, 0x0D, 0x20, 0xA0, 0x1680, 0x2028, 0x2029, 0x202F, 0x205F,
            0x3000, 0xFEFF}
      \<or> (0x2000 \<le> c \<and> c \<le> 0x200A))"

definition trim_units :: "jsstring \<Rightarrow> jsstring" where
  "trim_units s = rev (dropWhile is_space (rev (dropWhile is_space s)))"

section \<open>JavaScript values\<close>

text \<open>
  The values that the program stores, parses and compares. A number is an IEEE-754
  double: an integer (\<open>JNum\<close>), a fraction \<open>m / 2 ^ k\<close> with \<open>m\<close> odd and \<open>k > 0\<close>
  (\<open>JFrac m k\<close>), NaN, or an infinity (\<open>JInf True\<close> is the negative one). The two
  zeros of the format are one value, \<open>JNum 0\<close>: they print alike, are both falsy and
  compare equal, and the program does nothing else with them. An object is the list of
  its own properties in the order in which JavaScript enumerates them.
\<close>

datatype jsval =
    JUndefined
  | JNull
  | JBool bool
  | JNum int
  | JFrac int nat
  | JNaN
  | JInf bool
  | JStr jsstring
  | JArr "jsval list"
  | JObj "(jsstring \<times> jsval) list"

type_synonym props = "(jsstring \<times> jsval) list"

subsection \<open>Decimal numerals\<close>

definition digit_char :: "nat \<Rightarrow> nat" where
  "digit_char d = 48 + d mod 10"

definition is_digit :: "nat \<Rightarrow> bool" where
  "is_digit c = (48 \<le> c \<and> c \<le> 57)"

definition digit_val :: "nat \<Rightarrow> nat" where
  "digit_val c = c - 48"

function show_nat :: "nat \<Rightarrow> jsstring" where
  "show_nat n = (if n < 10 then [digit_char n] else show_nat (n div 10) @ [digit_char (n mod 10)])"
  by pat_completeness auto
termination
  by (relation "measure (\<lambda>n. n)") auto

declare show_nat.simps [simp del]

definition read_nat :: "jsstring \<Rightarrow> nat" where
  "read_nat ds = foldl (\<lambda>a c. 10 * a + digit_val c) 0 ds"

definition show_int :: "int \<Rightarrow> jsstring" where
  "show_int i = (if i < 0 then lit ''-'' @ show_nat (nat (- i)) else show_nat (nat i))"

subsection \<open>Rounding to a double\<close>

text \<open>
  The number of binary digits of \<open>n\<close>, and the test \<open>b ^ l \<le> num / den\<close> for an
  exponent \<open>l\<close> of either sign.
\<close>

function bitlen :: "nat \<Rightarrow> nat" where
  "bitlen n = (if n = 0 then 0 else Suc (bitlen (n div 2)))"
  by pat_completeness auto
termination
  by (relation "measure (\<lambda>n. n)") auto

declare bitlen.simps [simp del]

definition scaled_ge :: "nat \<Rightarrow> nat \<Rightarrow> nat \<Rightarrow> int \<Rightarrow> bool" where
  "scaled_ge b num den l =
     (if 0 \<le> l then den * b ^ nat l \<le> num else den \<le> num * b ^ nat (- l))"

text \<open>The exponent \<open>l\<close> with \<open>2 ^ l \<le> num / den < 2 ^ (l + 1)\<close>, for a positive fraction.\<close>

definition binary_exponent :: "nat \<Rightarrow> nat \<Rightarrow> int" where
  "binary_exponent num den =
     (let l = int (bitlen num) - int (bitlen den)
      in if scaled_ge 2 num den l then l else l - 1)"

text \<open>The integer nearest to \<open>num / den\<close>, the even one of two that are equally near.\<close>

definition round_half_even :: "nat \<Rightarrow> nat \<Rightarrow> nat" where
  "round_half_even num den =
     (let q = num div den; r = num mod den
      in if den < 2 * r \<or> (2 * r = den \<and> odd q) then q + 1 else q)"

fun strip2 :: "nat \<Rightarrow> nat \<Rightarrow> nat \<times> nat" where
  "strip2 m 0 = (m, 0)"
| "strip2 m (Suc k) = (if even m then strip2 (m div 2) k else (m, Suc k))"

text \<open>The value \<open>m * 2 ^ e\<close>.\<close>

definition dyadic :: "nat \<Rightarrow> int \<Rightarrow> jsval" where
  "dyadic m e =
     (if 0 \<le> e then JNum (int m * 2 ^ nat e)
      else (case strip2 m (nat (- e)) of
              (m', k) \<Rightarrow> if k = 0 then JNum (int m') else JFrac (int m') k))"

text \<open>
  The double nearest to the fraction \<open>num / den\<close> (\<open>den > 0\<close>), ties going to the even
  significand: 53 binary digits above the smallest exponent \<open>- 1074\<close>, fewer at it, and
  infinity from \<open>2 ^ 1024\<close> on.
\<close>

definition nearest_double :: "nat \<Rightarrow> nat \<Rightarrow> jsval" where
  "nearest_double num den =
     (if num = 0 then JNum 0
      else
        (let b = binary_exponent num den;
             e = max (b - 52) (- 1074);
             m = (if 0 \<le> e then round_half_even num (den * 2 ^ nat e)
                  else round_half_even (num * 2 ^ nat (- e)) den)
         in if 1024 \<le> b \<or> (e = 971 \<and> m = 2 ^ 53) then JInf False else dyadic m e))"

definition negate :: "jsval \<Rightarrow> jsval" where
  "negate v =
     (case v of
        JNum n \<Rightarrow> JNum (- n)
      | JFrac m k \<Rightarrow> JFrac (- m) k
      | JInf neg \<Rightarrow> JInf (\<not> neg)
      | _ \<Rightarrow> v)"

text \<open>
  The Number value of the numeral \<open>\<plusminus> m * 10 ^ e\<close>. An integer up to \<open>2 ^ 53\<close> is a
  double as it stands; a numeral above \<open>10 ^ 400\<close> is beyond every double and one below
  \<open>10 ^ - 400\<close> is nearest to zero; every other numeral is rounded.
\<close>

definition number_value :: "bool \<Rightarrow> nat \<Rightarrow> int \<Rightarrow> jsval" where
  "number_value neg m e =
     (let v = (if m = 0 then JNum 0
               else if 400 < e then JInf False
               else if int (length (show_nat m)) + e < - 400 then JNum 0
               else if 0 \<le> e \<and> m * 10 ^ nat e \<le> 2 ^ 53 then JNum (int (m * 10 ^ nat e))
               else if 0 \<le> e then nearest_double (m * 10 ^ nat e) 1
               else nearest_double m (10 ^ nat (- e)))
      in if neg then negate v else v)"

subsection \<open>Number::toString\<close>

text \<open>
  A non-zero number with the significant digits \<open>s\<close> and the decimal exponent \<open>n\<close>,
  that is \<open>0.s * 10 ^ n\<close>, is printed as ECMAScript prescribes.
\<close>

definition show_scaled :: "jsstring \<Rightarrow> int \<Rightarrow> jsstring" where
  "show_scaled s n =
     (let k = int (length s) in
      if k \<le> n \<and> n \<le> 21 then s @ replicate (nat (n - k)) 48
      else if 0 < n \<and> n \<le> 21 then take (nat n) s @ lit ''.'' @ drop (nat n) s
      else if - 6 < n \<and> n \<le> 0 then lit ''0.'' @ replicate (nat (- n)) 48 @ s
      else (let e = n - 1;
                sgn_e = (if e < 0 then lit ''-'' else lit ''+'');
                mant = (if k = 1 then s else hd s # lit ''.'' @ tl s)
            in mant @ lit ''e'' @ sgn_e @ show_nat (nat \<bar>e\<bar>)))"

text \<open>The magnitude of a finite number as a fraction.\<close>

definition fraction_of :: "jsval \<Rightarrow> nat \<times> nat" where
  "fraction_of v =
     (case v of
        JNum n \<Rightarrow> (nat \<bar>n\<bar>, 1)
      | JFrac m k \<Rightarrow> (nat \<bar>m\<bar>, 2 ^ k)
      | _ \<Rightarrow> (0, 1))"

definition magnitude :: "jsval \<Rightarrow> jsval" where
  "magnitude v =
     (case v of
        JNum n \<Rightarrow> JNum \<bar>n\<bar>
      | JFrac m k \<Rightarrow> JFrac \<bar>m\<bar> k
      | JInf neg \<Rightarrow> JInf False
      | _ \<Rightarrow> v)"

text \<open>The exponent \<open>n\<close> with \<open>10 ^ (n - 1) \<le> num / den < 10 ^ n\<close>.\<close>

definition decimal_exponent :: "nat \<Rightarrow> nat \<Rightarrow> int" where
  "decimal_exponent num den =
     (let t = int (length (show_nat num)) - int (length (show_nat den))
      in if scaled_ge 10 num den t then t + 1 else t)"

text \<open>The integer part of \<open>num / den / 10 ^ p\<close>.\<close>

definition floor_scaled :: "nat \<Rightarrow> nat \<Rightarrow> int \<Rightarrow> nat" where
  "floor_scaled num den p =
     (if 0 \<le> p then num div (den * 10 ^ nat p) else (num * 10 ^ nat (- p)) div den)"

text \<open>The distance between \<open>s * 10 ^ p\<close> and \<open>num / den\<close>, as a fraction.\<close>

definition error_of :: "nat \<Rightarrow> nat \<Rightarrow> nat \<Rightarrow> int \<Rightarrow> nat \<times> nat" where
  "error_of num den s p =
     (if 0 \<le> p then (nat \<bar>int (s * 10 ^ nat p * den) - int num\<bar>, den)
      else (nat \<bar>int (s * den) - int (num * 10 ^ nat (- p))\<bar>, den * 10 ^ nat (- p)))"

text \<open>
  The numerals \<open>s * 10 ^ (n - k)\<close> of exactly \<open>k\<close> digits whose Number value is the
  positive number \<open>v\<close>: \<open>n\<close> is the decimal exponent of \<open>v\<close> or the next one, and
  \<open>s\<close> one of the two integers around the scaled number.
\<close>

definition digit_candidates :: "jsval \<Rightarrow> nat \<Rightarrow> (nat \<times> int) list" where
  "digit_candidates v k =
     (case fraction_of v of
        (num, den) \<Rightarrow>
          concat (map (\<lambda>n. filter (\<lambda>c. 10 ^ (k - 1) \<le> fst c \<and> fst c < 10 ^ k
                                       \<and> number_value False (fst c) (n - int k) = v)
                             [(floor_scaled num den (n - int k), n),
                              (floor_scaled num den (n - int k) + 1, n)])
                      [decimal_exponent num den, decimal_exponent num den + 1]))"

text \<open>
  Of two such numerals the one nearer to the number is preferred, and the one with the
  even \<open>s\<close> when both are equally near.
\<close>

definition preferred :: "jsval \<Rightarrow> nat \<Rightarrow> nat \<times> int \<Rightarrow> nat \<times> int \<Rightarrow> bool" where
  "preferred v k c1 c2 =
     (case fraction_of v of
        (num, den) \<Rightarrow>
          (let e1 = error_of num den (fst c1) (snd c1 - int k);
               e2 = error_of num den (fst c2) (snd c2 - int k)
           in fst e1 * snd e2 < fst e2 * snd e1
              \<or> (fst e1 * snd e2 = fst e2 * snd e1 \<and> even (fst c1) \<and> odd (fst c2))))"

text \<open>
  The digits \<open>s\<close> and the exponent \<open>n\<close> that \<open>Number::toString\<close> prints for a
  positive finite number: as few digits as denote the number, and among those the
  nearest. Seventeen digits denote every double.
\<close>

definition shortest_digits :: "jsval \<Rightarrow> nat \<times> int" where
  "shortest_digits v =
     (case find (\<lambda>k. digit_candidates v k \<noteq> []) [1 ..< 18] of
        Some k \<Rightarrow>
          foldl (\<lambda>best c. if preferred v k c best then c else best)
            (hd (digit_candidates v k)) (tl (digit_candidates v k))
      | None \<Rightarrow>
          (case fraction_of v of
             (num, den) \<Rightarrow>
               (floor_scaled num den (decimal_exponent num den - 17), decimal_exponent num den)))"

text \<open>
  An integer up to \<open>2 ^ 53\<close> in magnitude is printed with all its digits: no shorter
  numeral has it as its Number value.
\<close>

definition number_to_string :: "jsval \<Rightarrow> jsstring" where
  "number_to_string v =
     (case v of
        JNum n \<Rightarrow>
          (if \<bar>n\<bar> \<le> 2 ^ 53 then show_int n
           else (if n < 0 then lit ''-'' else []) @
                (case shortest_digits (JNum \<bar>n\<bar>) of (s, e) \<Rightarrow> show_scaled (show_nat s) e))
      | JFrac m k \<Rightarrow>
          (if m < 0 then lit ''-'' else []) @
          (case shortest_digits (JFrac \<bar>m\<bar> k) of (s, e) \<Rightarrow> show_scaled (show_nat s) e)
      | JInf neg \<Rightarrow> (if neg then lit ''-Infinity'' else lit ''Infinity'')
      | _ \<Rightarrow> lit ''NaN'')"

subsection \<open>Truthiness, typeof, strict equality\<close>

definition truthy :: "jsval \<Rightarrow> bool" where
  "truthy v =
     (case v of
        JUndefined \<Rightarrow> False
      | JNull \<Rightarrow> False
      | JBool b \<Rightarrow> b
      | JNum n \<Rightarrow> n \<noteq> 0
      | JNaN \<Rightarrow> False
      | JStr s \<Rightarrow> s \<noteq> []
      | _ \<Rightarrow> True)"

definition typeof :: "jsval \<Rightarrow> jsstring" where
  "typeof v =
     (case v of
        JUndefined \<Rightarrow> lit ''undefined''
      | JBool _ \<Rightarrow> lit ''boolean''
      | JNum _ \<Rightarrow> lit ''number''
      | JFrac _ _ \<Rightarrow> lit ''number''
      | JNaN \<Rightarrow> lit ''number''
      | JInf _ \<Rightarrow> lit ''number''
      | JStr _ \<Rightarrow> lit ''string''
      | _ \<Rightarrow> lit ''object'')"

text \<open>
  \<open>a === b\<close> where \<open>a\<close> comes out of a fresh \<open>JSON.parse\<close>: primitives are compared
  by type and value; an array or an object of \<open>a\<close> is a new reference, identical to
  nothing that existed before.
\<close>

definition strict_equals :: "jsval \<Rightarrow> jsval \<Rightarrow> bool" where
  "strict_equals a b =
     (case a of
        JArr _ \<Rightarrow> False
      | JObj _ \<Rightarrow> False
      | JNaN \<Rightarrow> False
      | _ \<Rightarrow> a = b)"

text \<open>\<open>a || b\<close>.\<close>

definition js_or :: "jsval \<Rightarrow> jsval \<Rightarrow> jsval" where
  "js_or a b = (if truthy a then a else b)"

subsection \<open>Properties\<close>

text \<open>
  An array index is the canonical numeral of a number below \<open>2 ^ 32 - 1\<close>. Own
  properties are enumerated with the array indices first, in ascending order, and the
  other names after them in the order of their creation.
\<close>

definition array_index :: "jsstring \<Rightarrow> nat option" where
  "array_index k =
     (if k \<noteq> [] \<and> list_all is_digit k \<and> (k = lit ''0'' \<or> hd k \<noteq> 48) \<and> read_nat k < 4294967295
      then Some (read_nat k) else None)"

definition comes_before :: "jsstring \<Rightarrow> jsstring \<Rightarrow> bool" where
  "comes_before k k' =
     (case array_index k of
        None \<Rightarrow> False
      | Some i \<Rightarrow> (case array_index k' of None \<Rightarrow> True | Some j \<Rightarrow> i < j))"

fun obj_insert :: "jsstring \<Rightarrow> jsval \<Rightarrow> props \<Rightarrow> props" where
  "obj_insert k v [] = [(k, v)]"
| "obj_insert k v (p # ps) =
     (if comes_before k (fst p) then (k, v) # p # ps else p # obj_insert k v ps)"

text \<open>Defining the own property \<open>k\<close>: an existing one keeps its place.\<close>

definition obj_set :: "jsstring \<Rightarrow> jsval \<Rightarrow> props \<Rightarrow> props" where
  "obj_set k v ps =
     (if k \<in> fst ` set ps then map (\<lambda>p. if fst p = k then (k, v) else p) ps
      else obj_insert k v ps)"

text \<open>
  Reading the property \<open>k\<close> of an object that \<open>Object.prototype\<close> does not define:
  the own property, or \<open>undefined\<close>.
\<close>

definition obj_get :: "props \<Rightarrow> jsstring \<Rightarrow> jsval" where
  "obj_get ps k = (case map_of ps k of None \<Rightarrow> JUndefined | Some v \<Rightarrow> v)"

text \<open>
  \<open>v.k\<close> for a name \<open>k\<close> that no built-in prototype defines (the program reads
  \<open>userId\<close>, \<open>completed\<close>, \<open>id\<close>, \<open>value\<close>, \<open>exp\<close> and \<open>isAuthenticated\<close>). On
  \<open>null\<close> and \<open>undefined\<close> the read throws a TypeError: \<open>None\<close>.
\<close>

definition get_prop :: "jsval \<Rightarrow> jsstring \<Rightarrow> jsval option" where
  "get_prop v k =
     (case v of
        JUndefined \<Rightarrow> None
      | JNull \<Rightarrow> None
      | JObj ps \<Rightarrow> Some (obj_get ps k)
      | JArr xs \<Rightarrow>
          (case array_index k of
             Some i \<Rightarrow> Some (if i < length xs then xs ! i else JUndefined)
           | None \<Rightarrow> Some JUndefined)
      | JStr s \<Rightarrow>
          (case array_index k of
             Some i \<Rightarrow> Some (if i < length s then JStr [s ! i] else JUndefined)
           | None \<Rightarrow> Some JUndefined)
      | _ \<Rightarrow> Some JUndefined)"

text \<open>
  The own enumerable properties that the spread \<open>{...v}\<close> copies: those of an object,
  the elements of an array and the code units of a string under their indices, and
  nothing for the other values.
\<close>

definition spread_props :: "jsval \<Rightarrow> props" where
  "spread_props v =
     (case v of
        JObj ps \<Rightarrow> ps
      | JArr xs \<Rightarrow> map (\<lambda>i. (show_nat i, xs ! i)) [0 ..< length xs]
      | JStr s \<Rightarrow> map (\<lambda>i. (show_nat i, JStr [s ! i])) [0 ..< length s]
      | _ \<Rightarrow> [])"

section \<open>JSON.stringify\<close>

definition hex_char :: "nat \<Rightarrow> nat" where
  "hex_char d = (if d mod 16 < 10 then 48 + d mod 16 else 87 + d mod 16)"

text \<open>The escape \<open>\uXXXX\<close> with lower-case digits.\<close>

definition unicode_escape :: "nat \<Rightarrow> jsstring" where
  "unicode_escape n =
     [0x5C, 0x75, hex_char (n div 4096), hex_char (n div 256), hex_char (n div 16), hex_char n]"

text \<open>
  \<open>QuoteJSONString\<close>: the quotation mark, the backslash and the control characters are
  escaped; a surrogate that is not half of a pair (a leading one followed by a trailing
  one) is written as an escape; every other code unit is copied.
\<close>

definition json_escape :: "nat \<Rightarrow> jsstring" where
  "json_escape n =
     (if n = 0x22 then [0x5C, 0x22]
      else if n = 0x5C then [0x5C, 0x5C]
      else if n = 0x08 then [0x5C, 0x62]
      else if n = 0x0C then [0x5C, 0x66]
      else if n = 0x0A then [0x5C, 0x6E]
      else if n = 0x0D then [0x5C, 0x72]
      else if n = 0x09 then [0x5C, 0x74]
      else if n < 0x20 \<or> (0xD800 \<le> n \<and> n \<le> 0xDFFF) then unicode_escape n
      else [n])"

definition is_leading :: "nat \<Rightarrow> bool" where
  "is_leading n = (0xD800 \<le> n \<and> n \<le> 0xDBFF)"

definition is_trailing :: "nat \<Rightarrow> bool" where
  "is_trailing n = (0xDC00 \<le> n \<and> n \<le> 0xDFFF)"

fun json_escape_all :: "jsstring \<Rightarrow> jsstring" where
  "json_escape_all [] = []"
| "json_escape_all [c] = json_escape c"
| "json_escape_all (c # d # cs) =
     (if is_leading c \<and> is_trailing d then c # d # json_escape_all cs
      else json_escape c @ json_escape_all (d # cs))"

definition json_quote :: "jsstring \<Rightarrow> jsstring" where
  "json_quote s = 0x22 # json_escape_all s @ [0x22]"

fun join :: "'a list \<Rightarrow> 'a list list \<Rightarrow> 'a list" where
  "join sep [] = []"
| "join sep [x] = x"
| "join sep (x # y # ys) = x @ sep @ join sep (y # ys)"

text \<open>
  The serialisation of a value inside an array or an object. \<open>undefined\<close> is written
  as \<open>null\<close> when it is an array element and left out, with its name, when it is the
  value of a property.
\<close>

fun serialize :: "jsval \<Rightarrow> jsstring" where
  "serialize JUndefined = lit ''null''"
| "serialize JNull = lit ''null''"
| "serialize (JBool b) = (if b then lit ''true'' else lit ''false'')"
| "serialize (JNum n) = number_to_string (JNum n)"
| "serialize (JFrac m k) = number_to_string (JFrac m k)"
| "serialize JNaN = lit ''null''"
| "serialize (JInf neg) = lit ''null''"
| "serialize (JStr s) = json_quote s"
| "serialize (JArr xs) = lit ''['' @ join (lit '','') (map serialize xs) @ lit '']''"
| "serialize (JObj ps) =
     lit ''{'' @ join (lit '','') (map (\<lambda>p. json_quote (fst p) @ lit '':'' @ serialize (snd p))
                                    (filter (\<lambda>p. snd p \<noteq> JUndefined) ps)) @ lit ''}''"

text \<open>\<open>JSON.stringify(v)\<close>; for \<open>undefined\<close> it returns \<open>undefined\<close>, not a string.\<close>

definition JSON_stringify :: "jsval \<Rightarrow> jsstring option" where
  "JSON_stringify v = (if v = JUndefined then None else Some (serialize v))"

text \<open>
  The string that \<open>localStorage.setItem(key, JSON.stringify(v))\<close> stores: the storage
  converts its argument to a string, and \<open>undefined\<close> becomes the text \<open>undefined\<close>.
\<close>

definition stored_text :: "jsval \<Rightarrow> jsstring" where
  "stored_text v = (case JSON_stringify v of None \<Rightarrow> lit ''undefined'' | Some s \<Rightarrow> s)"

section \<open>JSON.parse\<close>

text \<open>
  The text is cut into tokens and the tokens are read by a pushdown automaton whose
  stack holds the arrays and objects that are still open. \<open>None\<close> is the SyntaxError
  that \<open>JSON.parse\<close> throws.
\<close>

datatype token = TLBrace | TRBrace | TLBrack | TRBrack | TColon | TComma | TVal jsval

definition hex_val :: "nat \<Rightarrow> nat option" where
  "hex_val n =
     (if 48 \<le> n \<and> n \<le> 57 then Some (n - 48)
      else if 65 \<le> n \<and> n \<le> 70 then Some (n - 55)
      else if 97 \<le> n \<and> n \<le> 102 then Some (n - 87)
      else None)"

definition hex4 :: "nat \<Rightarrow> nat \<Rightarrow> nat \<Rightarrow> nat \<Rightarrow> nat option" where
  "hex4 a b c d =
     (case (hex_val a, hex_val b, hex_val c, hex_val d) of
        (Some x, Some y, Some z, Some w) \<Rightarrow> Some (((x * 16 + y) * 16 + z) * 16 + w)
      | _ \<Rightarrow> None)"

definition unescape :: "nat \<Rightarrow> nat option" where
  "unescape e =
     (if e = 0x22 then Some 0x22
      else if e = 0x5C then Some 0x5C
      else if e = of_char CHR ''/'' then Some (of_char CHR ''/'')
      else if e = of_char CHR ''b'' then Some 0x08
      else if e = of_char CHR ''f'' then Some 0x0C
      else if e = of_char CHR ''n'' then Some 0x0A
      else if e = of_char CHR ''r'' then Some 0x0D
      else if e = of_char CHR ''t'' then Some 0x09
      else None)"

text \<open>
  The code units of a string literal after its opening quotation mark, up to the closing
  one, and the rest of the text. An escape \<open>\uXXXX\<close> denotes the code unit with that
  number; a control character must be escaped.
\<close>

fun lex_string :: "jsstring \<Rightarrow> (jsstring \<times> jsstring) option" where
  "lex_string [] = None"
| "lex_string (c # cs) =
     (if c = 0x22 then Some ([], cs)
      else if c = 0x5C then
        (case cs of
           [] \<Rightarrow> None
         | e # cs' \<Rightarrow>
             (if e = of_char CHR ''u'' then
                (case cs' of
                   h1 # h2 # h3 # h4 # cs'' \<Rightarrow>
                     (case hex4 h1 h2 h3 h4 of
                        None \<Rightarrow> None
                      | Some n \<Rightarrow> map_option (\<lambda>r. (n # fst r, snd r)) (lex_string cs''))
                 | _ \<Rightarrow> None)
              else
                (case unescape e of
                   None \<Rightarrow> None
                 | Some ch \<Rightarrow> map_option (\<lambda>r. (ch # fst r, snd r)) (lex_string cs'))))
      else if c < 0x20 then None
      else map_option (\<lambda>r. (c # fst r, snd r)) (lex_string cs))"

text \<open>
  A number token at the head of the text: an optional minus sign, an integer part
  without a leading zero, an optional fraction and an optional exponent. Each part
  returns what it read and the rest of the text, or \<open>None\<close> when the text is malformed.
  The token denotes the Number value of its numeral.
\<close>

definition lex_int :: "jsstring \<Rightarrow> (jsstring \<times> jsstring) option" where
  "lex_int cs =
     (let ip = takeWhile is_digit cs in
      if ip = [] \<or> (1 < length ip \<and> hd ip = 48) then None
      else Some (ip, dropWhile is_digit cs))"

definition lex_frac :: "jsstring \<Rightarrow> (jsstring \<times> jsstring) option" where
  "lex_frac cs =
     (case cs of
        [] \<Rightarrow> Some ([], cs)
      | c # r \<Rightarrow>
          (if c = of_char CHR ''.'' then
             (if takeWhile is_digit r = [] then None
              else Some (takeWhile is_digit r, dropWhile is_digit r))
           else Some ([], cs)))"

definition lex_exp_sign :: "jsstring \<Rightarrow> bool \<times> jsstring" where
  "lex_exp_sign cs =
     (case cs of
        [] \<Rightarrow> (False, cs)
      | c # r \<Rightarrow>
          (if c = of_char CHR ''+'' then (False, r) else if c = of_char CHR ''-'' then (True, r) else (False, cs)))"

definition lex_exp :: "jsstring \<Rightarrow> (int \<times> jsstring) option" where
  "lex_exp cs =
     (case cs of
        [] \<Rightarrow> Some (0, cs)
      | c # r \<Rightarrow>
          (if c = of_char CHR ''e'' \<or> c = of_char CHR ''E'' then
             (case lex_exp_sign r of
                (eneg, r') \<Rightarrow>
                  (if takeWhile is_digit r' = [] then None
                   else Some ((if eneg then - 1 else 1) * int (read_nat (takeWhile is_digit r')),
                              dropWhile is_digit r')))
           else Some (0, cs)))"

definition lex_number :: "jsstring \<Rightarrow> (jsval \<times> jsstring) option" where
  "lex_number cs =
     (let neg = (cs \<noteq> [] \<and> hd cs = of_char CHR ''-'');
          cs1 = (if neg then tl cs else cs)
      in case lex_int cs1 of
           None \<Rightarrow> None
         | Some (ip, cs2) \<Rightarrow>
             (case lex_frac cs2 of
                None \<Rightarrow> None
              | Some (fp, cs3) \<Rightarrow>
                  (case lex_exp cs3 of
                     None \<Rightarrow> None
                   | Some (e, cs4) \<Rightarrow>
                       Some (number_value neg (read_nat (ip @ fp)) (e - int (length fp)), cs4))))"

definition json_ws :: "nat \<Rightarrow> bool" where
  "json_ws c = (c \<in> {0x20, 0x09, 0x0A, 0x0D})"

lemma lex_string_shorter: "lex_string cs = Some (s, rest) \<Longrightarrow> length rest < Suc (length cs)"
proof (induction cs arbitrary: s rest rule: lex_string.induct)
  case 1
  then show ?case by simp
next
  case (2 c cs)
  consider (quote) "c = 0x22"
    | (plain) "c \<noteq> 0x22" "c \<noteq> 0x5C"
    | (esc) "c \<noteq> 0x22" "c = 0x5C"
    by blast
  then show ?case
  proof cases
    case quote
    with "2.prems" show ?thesis by simp
  next
    case plain
    with "2.prems" obtain s' where
      p: "\<not> c < 0x20" "lex_string cs = Some (s', rest)"
      by (auto split: if_splits)
    from "2.IH"(3) [OF plain p(1) p(2)] show ?thesis by simp
  next
    case esc
    show ?thesis
    proof (cases cs)
      case Nil
      with esc "2.prems" show ?thesis by simp
    next
      case (Cons e cs')
      show ?thesis
      proof (cases "e = of_char CHR ''u''")
        case False
        with esc Cons "2.prems" obtain ch s' where
          "unescape e = Some ch" "lex_string cs' = Some (s', rest)"
          by (auto split: option.splits)
        with esc Cons False "2.IH"(2) have "length rest < Suc (length cs')"
          by auto
        with Cons show ?thesis by simp
      next
        case True
        with esc Cons "2.prems" obtain h1 h2 h3 h4 cs'' n s' where
          c: "cs' = h1 # h2 # h3 # h4 # cs''" "hex4 h1 h2 h3 h4 = Some n"
             "lex_string cs'' = Some (s', rest)"
          by (auto split: option.splits list.splits if_splits)
        with esc Cons True "2.IH"(1) have "length rest < Suc (length cs'')"
          by auto
        with Cons c show ?thesis by simp
      qed
    qed
  qed
qed

lemma lex_int_shorter: "lex_int cs = Some (ip, rest) \<Longrightarrow> length rest < length cs"
proof -
  assume a: "lex_int cs = Some (ip, rest)"
  then have "takeWhile is_digit cs \<noteq> []" and r: "rest = dropWhile is_digit cs"
    by (auto simp: lex_int_def Let_def split: if_splits)
  then obtain c cs' where c: "cs = c # cs'" "is_digit c"
    by (cases cs) (auto split: if_splits)
  have "length (dropWhile is_digit cs') \<le> length cs'"
    by (rule length_dropWhile_le)
  with c r show ?thesis by simp
qed

lemma lex_frac_shorter: "lex_frac cs = Some (fp, rest) \<Longrightarrow> length rest \<le> length cs"
proof (cases cs)
  case Nil
  assume "lex_frac cs = Some (fp, rest)"
  with Nil show ?thesis by (simp add: lex_frac_def)
next
  case (Cons c r)
  assume a: "lex_frac cs = Some (fp, rest)"
  have "length (dropWhile is_digit r) \<le> length r"
    by (rule length_dropWhile_le)
  with a Cons show ?thesis
    by (auto simp: lex_frac_def split: if_splits)
qed

lemma lex_exp_sign_shorter: "lex_exp_sign cs = (b, rest) \<Longrightarrow> length rest \<le> length cs"
  by (cases cs) (auto simp: lex_exp_sign_def split: if_splits)

lemma lex_exp_shorter: "lex_exp cs = Some (e, rest) \<Longrightarrow> length rest \<le> length cs"
proof (cases cs)
  case Nil
  assume "lex_exp cs = Some (e, rest)"
  with Nil show ?thesis by (simp add: lex_exp_def)
next
  case (Cons c r)
  assume a: "lex_exp cs = Some (e, rest)"
  obtain b r' where s: "lex_exp_sign r = (b, r')"
    by (cases "lex_exp_sign r") auto
  then have l1: "length r' \<le> length r" by (rule lex_exp_sign_shorter)
  have l2: "length (dropWhile is_digit r') \<le> length r'"
    by (rule length_dropWhile_le)
  from a Cons s l1 l2 show ?thesis
    by (auto simp: lex_exp_def split: if_splits)
qed

lemma lex_number_shorter: "lex_number cs = Some (v, rest) \<Longrightarrow> length rest < length cs"
proof -
  assume a: "lex_number cs = Some (v, rest)"
  let ?cs1 = "if cs \<noteq> [] \<and> hd cs = of_char CHR ''-'' then tl cs else cs"
  from a obtain ip cs2 fp cs3 e where
    p: "lex_int ?cs1 = Some (ip, cs2)" "lex_frac cs2 = Some (fp, cs3)"
       "lex_exp cs3 = Some (e, rest)"
    by (auto simp: lex_number_def Let_def split: option.splits)
  have "length ?cs1 \<le> length cs" by simp
  moreover have "length cs2 < length ?cs1" using p(1) by (rule lex_int_shorter)
  moreover have "length cs3 \<le> length cs2" using p(2) by (rule lex_frac_shorter)
  moreover have "length rest \<le> length cs3" using p(3) by (rule lex_exp_shorter)
  ultimately show ?thesis by linarith
qed

text \<open>
  The token at the head of the text \<open>c # cs\<close> and the text after it; white space
  gives no token. \<open>None\<close> is a character that starts no token, or a malformed token.
\<close>

definition next_token :: "nat \<Rightarrow> jsstring \<Rightarrow> (token option \<times> jsstring) option" where
  "next_token c cs =
     (if json_ws c then Some (None, cs)
      else if c = of_char CHR ''{'' then Some (Some TLBrace, cs)
      else if c = of_char CHR ''}'' then Some (Some TRBrace, cs)
      else if c = of_char CHR ''['' then Some (Some TLBrack, cs)
      else if c = of_char CHR '']'' then Some (Some TRBrack, cs)
      else if c = of_char CHR '':'' then Some (Some TColon, cs)
      else if c = of_char CHR '','' then Some (Some TComma, cs)
      else if c = 0x22 then
        map_option (\<lambda>r. (Some (TVal (JStr (fst r))), snd r)) (lex_string cs)
      else if c = of_char CHR ''-'' \<or> is_digit c then
        map_option (\<lambda>r. (Some (TVal (fst r)), snd r)) (lex_number (c # cs))
      else if take 4 (c # cs) = lit ''true'' then Some (Some (TVal (JBool True)), drop 3 cs)
      else if take 5 (c # cs) = lit ''false'' then Some (Some (TVal (JBool False)), drop 4 cs)
      else if take 4 (c # cs) = lit ''null'' then Some (Some (TVal JNull), drop 3 cs)
      else None)"

lemma next_token_shorter: "next_token c cs = Some (t, rest) \<Longrightarrow> length rest < Suc (length cs)"
proof -
  assume a: "next_token c cs = Some (t, rest)"
  consider (str) "\<exists>x. lex_string cs = Some (x, rest)"
    | (num) "\<exists>v. lex_number (c # cs) = Some (v, rest)"
    | (rest) "rest = cs \<or> rest = drop 3 cs \<or> rest = drop 4 cs"
    using a unfolding next_token_def
    by (simp split: if_splits) blast+
  then show ?thesis
  proof cases
    case str
    then obtain x where "lex_string cs = Some (x, rest)" by blast
    then show ?thesis by (rule lex_string_shorter)
  next
    case num
    then obtain v where "lex_number (c # cs) = Some (v, rest)" by blast
    then have "length rest < length (c # cs)" by (rule lex_number_shorter)
    then show ?thesis by simp
  next
    case rest
    then show ?thesis by auto
  qed
qed

function tokenize :: "jsstring \<Rightarrow> token list option" where
  "tokenize [] = Some []"
| "tokenize (c # cs) =
     (case next_token c cs of
        None \<Rightarrow> None
      | Some (None, rest) \<Rightarrow> tokenize rest
      | Some (Some t, rest) \<Rightarrow> map_option (Cons t) (tokenize rest))"
  by pat_completeness auto
termination
proof (relation "measure length", goal_cases)
  case 1
  show ?case by simp
next
  case (2 c cs x2 x1 rest)
  then show ?case using next_token_shorter [of c cs x1 rest] by simp
next
  case (3 c cs x2 x1 rest t)
  then show ?case using next_token_shorter [of c cs x1 rest] by simp
qed

declare tokenize.simps [simp del]

datatype frame = InArr "jsval list" | InObj props | InObjKey props jsstring

datatype mode = MValue | MValueOrEnd | MKeyOrEnd | MKey | MColon | MNext | MDone jsval

type_synonym pstate = "mode \<times> frame list"

text \<open>A complete value goes into the innermost open container, or is the result.\<close>

definition push_value :: "jsval \<Rightarrow> frame list \<Rightarrow> pstate option" where
  "push_value v stack =
     (case stack of
        [] \<Rightarrow> Some (MDone v, [])
      | InArr xs # st \<Rightarrow> Some (MNext, InArr (v # xs) # st)
      | InObjKey ps k # st \<Rightarrow> Some (MNext, InObj (obj_set k v ps) # st)
      | InObj ps # st \<Rightarrow> None)"

definition start_value :: "token \<Rightarrow> frame list \<Rightarrow> pstate option" where
  "start_value t stack =
     (case t of
        TVal v \<Rightarrow> push_value v stack
      | TLBrack \<Rightarrow> Some (MValueOrEnd, InArr [] # stack)
      | TLBrace \<Rightarrow> Some (MKeyOrEnd, InObj [] # stack)
      | _ \<Rightarrow> None)"

definition start_key :: "token \<Rightarrow> frame list \<Rightarrow> pstate option" where
  "start_key t stack =
     (case (t, stack) of
        (TVal (JStr k), InObj ps # st) \<Rightarrow> Some (MColon, InObjKey ps k # st)
      | _ \<Rightarrow> None)"

definition close_array :: "frame list \<Rightarrow> pstate option" where
  "close_array stack =
     (case stack of InArr xs # st \<Rightarrow> push_value (JArr (rev xs)) st | _ \<Rightarrow> None)"

definition close_object :: "frame list \<Rightarrow> pstate option" where
  "close_object stack =
     (case stack of InObj ps # st \<Rightarrow> push_value (JObj ps) st | _ \<Rightarrow> None)"

definition parse_step :: "pstate \<Rightarrow> token \<Rightarrow> pstate option" where
  "parse_step st t =
     (case st of (m, stack) \<Rightarrow>
       (case m of
          MValue \<Rightarrow> start_value t stack
        | MValueOrEnd \<Rightarrow> (if t = TRBrack then close_array stack else start_value t stack)
        | MKeyOrEnd \<Rightarrow> (if t = TRBrace then close_object stack else start_key t stack)
        | MKey \<Rightarrow> start_key t stack
        | MColon \<Rightarrow> (if t = TColon then Some (MValue, stack) else None)
        | MNext \<Rightarrow>
            (if t = TComma then
               (case stack of
                  InArr xs # st' \<Rightarrow> Some (MValue, stack)
                | InObj ps # st' \<Rightarrow> Some (MKey, stack)
                | _ \<Rightarrow> None)
             else if t = TRBrack then close_array stack
             else if t = TRBrace then close_object stack
             else None)
        | MDone v \<Rightarrow> None))"

fun parse_run :: "pstate \<Rightarrow> token list \<Rightarrow> pstate option" where
  "parse_run st [] = Some st"
| "parse_run st (t # ts) =
     (case parse_step st t of None \<Rightarrow> None | Some st' \<Rightarrow> parse_run st' ts)"

definition JSON_parse :: "jsstring \<Rightarrow> jsval option" where
  "JSON_parse text =
     (case tokenize text of
        None \<Rightarrow> None
      | Some ts \<Rightarrow>
          (case parse_run (MValue, []) ts of
             Some (MDone v, []) \<Rightarrow> Some v
           | _ \<Rightarrow> None))"

section \<open>Conversions\<close>

text \<open>
  \<open>ToString\<close>. An array is joined with commas, \<open>null\<close> and \<open>undefined\<close> elements
  giving the empty string. A parsed object inherits \<open>Object.prototype.toString\<close>
  unless it has an own property of that name, which is no function: then the
  conversion throws a TypeError (\<open>None\<close>).
\<close>

fun to_string :: "jsval \<Rightarrow> jsstring option" where
  "to_string JUndefined = Some (lit ''undefined'')"
| "to_string JNull = Some (lit ''null'')"
| "to_string (JBool b) = Some (if b then lit ''true'' else lit ''false'')"
| "to_string (JNum n) = Some (number_to_string (JNum n))"
| "to_string (JFrac m k) = Some (number_to_string (JFrac m k))"
| "to_string JNaN = Some (lit ''NaN'')"
| "to_string (JInf neg) = Some (number_to_string (JInf neg))"
| "to_string (JStr s) = Some s"
| "to_string (JArr xs) =
     map_option (join (lit '',''))
       (those (map (\<lambda>x. if x = JUndefined \<or> x = JNull then Some [] else to_string x) xs))"
| "to_string (JObj ps) =
     (if lit ''toString'' \<in> fst ` set ps then None else Some (lit ''[object Object]''))"

text \<open>An integer literal of the radix \<open>b\<close>; its value is rounded like every number.\<close>

definition read_radix :: "nat \<Rightarrow> jsstring \<Rightarrow> jsval" where
  "read_radix b ds =
     (if ds \<noteq> [] \<and> list_all (\<lambda>c. case hex_val c of None \<Rightarrow> False | Some d \<Rightarrow> d < b) ds
      then number_value False (foldl (\<lambda>a c. b * a + the (hex_val c)) 0 ds) 0
      else JNaN)"

text \<open>
  \<open>StringToNumber\<close>: the trimmed text is empty (zero), a hexadecimal, octal or binary
  integer literal, or a signed decimal literal or \<open>Infinity\<close>; anything else is NaN.
\<close>

definition string_to_number :: "jsstring \<Rightarrow> jsval" where
  "string_to_number s =
     (let t = trim_units s in
      if t = [] then JNum 0
      else if take 2 t = lit ''0x'' \<or> take 2 t = lit ''0X'' then read_radix 16 (drop 2 t)
      else if take 2 t = lit ''0o'' \<or> take 2 t = lit ''0O'' then read_radix 8 (drop 2 t)
      else if take 2 t = lit ''0b'' \<or> take 2 t = lit ''0B'' then read_radix 2 (drop 2 t)
      else
        (let neg = (hd t = of_char CHR ''-'');
             u = (if hd t = of_char CHR ''-'' \<or> hd t = of_char CHR ''+'' then tl t else t);
             ip = takeWhile is_digit u;
             r1 = dropWhile is_digit u;
             has_dot = (r1 \<noteq> [] \<and> hd r1 = of_char CHR ''.'');
             fp = (if has_dot then takeWhile is_digit (tl r1) else []);
             r2 = (if has_dot then dropWhile is_digit (tl r1) else r1)
         in if u = lit ''Infinity'' then JInf neg
            else if ip = [] \<and> fp = [] then JNaN
            else (case lex_exp r2 of
                    Some (e, []) \<Rightarrow> number_value neg (read_nat (ip @ fp)) (e - int (length fp))
                  | _ \<Rightarrow> JNaN)))"

text \<open>\<open>ToNumber\<close>, with \<open>None\<close> for the TypeError of an object that has no primitive value.\<close>

definition to_number :: "jsval \<Rightarrow> jsval option" where
  "to_number v =
     (case v of
        JUndefined \<Rightarrow> Some JNaN
      | JNull \<Rightarrow> Some (JNum 0)
      | JBool b \<Rightarrow> Some (JNum (if b then 1 else 0))
      | JStr s \<Rightarrow> Some (string_to_number s)
      | JArr xs \<Rightarrow> map_option string_to_number (to_string v)
      | JObj ps \<Rightarrow> map_option string_to_number (to_string v)
      | _ \<Rightarrow> Some v)"

text \<open>\<open>a > b\<close> on two number values.\<close>

definition num_gt :: "jsval \<Rightarrow> jsval \<Rightarrow> bool" where
  "num_gt a b =
     (case (a, b) of
        (JNum x, JNum y) \<Rightarrow> x > y
      | (JNum x, JFrac m k) \<Rightarrow> x * 2 ^ k > m
      | (JFrac m k, JNum y) \<Rightarrow> m > y * 2 ^ k
      | (JFrac m k, JFrac m' k') \<Rightarrow> m * 2 ^ k' > m' * 2 ^ k
      | (JInf neg, JInf neg') \<Rightarrow> \<not> neg \<and> neg'
      | (JInf neg, JNum _) \<Rightarrow> \<not> neg
      | (JInf neg, JFrac _ _) \<Rightarrow> \<not> neg
      | (JNum _, JInf neg) \<Rightarrow> neg
      | (JFrac _ _, JInf neg) \<Rightarrow> neg
      | _ \<Rightarrow> False)"

text \<open>\<open>a > b\<close> where \<open>a\<close> is a number: \<open>b\<close> is converted to a number first.\<close>

definition js_gt :: "jsval \<Rightarrow> jsval \<Rightarrow> bool option" where
  "js_gt a b = map_option (num_gt a) (to_number b)"

section \<open>Strings of the platform\<close>

text \<open>\<open>s.split(d)\<close> for a separator of one code unit.\<close>

fun split_on :: "'a \<Rightarrow> 'a list \<Rightarrow> 'a list list" where
  "split_on d [] = [[]]"
| "split_on d (c # cs) =
     (if c = d then [] # split_on d cs
      else (case split_on d cs of [] \<Rightarrow> [[c]] | p # ps \<Rightarrow> (c # p) # ps))"

text \<open>\<open>s.includes(sub)\<close>.\<close>

fun includes_str :: "'a list \<Rightarrow> 'a list \<Rightarrow> bool" where
  "includes_str [] sub = (sub = [])"
| "includes_str (c # cs) sub = (take (length sub) (c # cs) = sub \<or> includes_str cs sub)"

subsection \<open>btoa and atob\<close>

definition b64_char :: "nat \<Rightarrow> nat" where
  "b64_char n =
     (let d = n mod 64 in
      if d < 26 then 65 + d
      else if d < 52 then 71 + d
      else if d < 62 then d - 4
      else if d = 62 then 43
      else 47)"

definition b64_index :: "nat \<Rightarrow> nat option" where
  "b64_index n =
     (if 65 \<le> n \<and> n \<le> 90 then Some (n - 65)
      else if 97 \<le> n \<and> n \<le> 122 then Some (n - 71)
      else if 48 \<le> n \<and> n \<le> 57 then Some (n + 4)
      else if n = 43 then Some 62
      else if n = 47 then Some 63
      else None)"

text \<open>
  The base64 text of a list of bytes: three bytes become four digits; a last group of
  one or two is padded with \<open>=\<close>.
\<close>

fun b64_encode :: "nat list \<Rightarrow> jsstring" where
  "b64_encode [] = []"
| "b64_encode [a] = [b64_char (a div 4), b64_char ((a mod 4) * 16), 61, 61]"
| "b64_encode [a, b] =
     [b64_char (a div 4), b64_char ((a mod 4) * 16 + b div 16), b64_char ((b mod 16) * 4), 61]"
| "b64_encode (a # b # c # r) =
     [b64_char (a div 4), b64_char ((a mod 4) * 16 + b div 16),
      b64_char ((b mod 16) * 4 + c div 64), b64_char (c mod 64)] @ b64_encode r"

text \<open>
  \<open>btoa\<close>: every code unit of the argument must be a byte; \<open>None\<close> is the
  InvalidCharacterError for a code unit above U+00FF.
\<close>

definition btoa :: "jsstring \<Rightarrow> jsstring option" where
  "btoa s = (if list_all (\<lambda>c. c < 256) s then Some (b64_encode s) else None)"

fun b64_decode :: "nat list \<Rightarrow> jsstring" where
  "b64_decode (a # b # c # d # r) =
     [a * 4 + b div 16, (b mod 16) * 16 + c div 4, (c mod 4) * 64 + d] @ b64_decode r"
| "b64_decode [a, b, c] = [a * 4 + b div 16, (b mod 16) * 16 + c div 4]"
| "b64_decode [a, b] = [a * 4 + b div 16]"
| "b64_decode _ = []"

definition ascii_ws :: "nat \<Rightarrow> bool" where
  "ascii_ws c = (c \<in> {0x09, 0x0A, 0x0C, 0x0D, 0x20})"

definition strip_padding :: "jsstring \<Rightarrow> jsstring" where
  "strip_padding s =
     (if length s mod 4 = 0 \<and> s \<noteq> [] \<and> last s = 61 then
        (if butlast s \<noteq> [] \<and> last (butlast s) = 61 then butlast (butlast s)
         else butlast s)
      else s)"

text \<open>
  \<open>atob\<close>, the forgiving base64 decoding of the HTML standard: ASCII white space is
  dropped, one or two padding characters are removed from a text whose length is a
  multiple of four, and the rest must consist of base64 digits and must not have a
  length of one more than a multiple of four; \<open>None\<close> is the InvalidCharacterError.
\<close>

definition atob :: "jsstring \<Rightarrow> jsstring option" where
  "atob s =
     (let d = strip_padding (filter (\<lambda>c. \<not> ascii_ws c) s) in
      if length d mod 4 = 1 then None
      else map_option b64_decode (those (map b64_index d)))"

subsection \<open>Date.prototype.toISOString\<close>

definition pad_left :: "nat \<Rightarrow> jsstring \<Rightarrow> jsstring" where
  "pad_left w s = replicate (w - length s) 48 @ s"

text \<open>The civil date (year, month, day) of a day number counted from 1970-01-01.\<close>

definition civil_from_days :: "int \<Rightarrow> int \<times> int \<times> int" where
  "civil_from_days z =
     (let z' = z + 719468;
          era = z' div 146097;
          doe = z' mod 146097;
          yoe = (doe - doe div 1460 + doe div 36524 - doe div 146096) div 365;
          doy = doe - (365 * yoe + yoe div 4 - yoe div 100);
          mp = (5 * doy + 2) div 153;
          d = doy - (153 * mp + 2) div 5 + 1;
          m = (if mp < 10 then mp + 3 else mp - 9);
          y = yoe + era * 400 + (if m \<le> 2 then 1 else 0)
      in (y, m, d))"

text \<open>
  The ISO text of the time value \<open>ms\<close> (milliseconds since the epoch, UTC). Every time
  value of a \<open>Date\<close>, and so every reading of the clock, is an integer within
  \<open>8.64e15\<close> milliseconds of the epoch.
\<close>

definition toISOString :: "int \<Rightarrow> jsstring" where
  "toISOString ms =
     (let day = ms div 86400000;
          t = nat (ms mod 86400000);
          ymd = civil_from_days day;
          y = fst ymd;
          year = (if 0 \<le> y \<and> y \<le> 9999 then pad_left 4 (show_nat (nat y))
                  else (if y < 0 then lit ''-'' else lit ''+'') @ pad_left 6 (show_nat (nat \<bar>y\<bar>)))
      in year @ lit ''-'' @ pad_left 2 (show_nat (nat (fst (snd ymd))))
           @ lit ''-'' @ pad_left 2 (show_nat (nat (snd (snd ymd))))
           @ lit ''T'' @ pad_left 2 (show_nat (t div 3600000))
           @ lit '':'' @ pad_left 2 (show_nat (t div 60000 mod 60))
           @ lit '':'' @ pad_left 2 (show_nat (t div 1000 mod 60))
           @ lit ''.'' @ pad_left 3 (show_nat (t mod 1000)) @ lit ''Z'')"

section \<open>The browser's localStorage\<close>

text \<open>
  The stored items, and the two ways in which the storage fails: \<open>blocked\<close>, every
  access throws (storage disabled by the browser), and \<open>full\<close>, a write throws
  (quota exceeded). \<open>None\<close> is the exception.
\<close>

record storage =
  items :: "jsstring \<rightharpoonup> jsstring"
  blocked :: bool
  full :: bool

definition ls_getItem :: "storage \<Rightarrow> jsstring \<Rightarrow> jsstring option option" where
  "ls_getItem ls k = (if blocked ls then None else Some (items ls k))"

definition ls_setItem :: "storage \<Rightarrow> jsstring \<Rightarrow> jsstring \<Rightarrow> storage option" where
  "ls_setItem ls k v =
     (if blocked ls \<or> full ls then None else Some (ls\<lparr>items := (items ls)(k \<mapsto> v)\<rparr>))"

definition ls_removeItem :: "storage \<Rightarrow> jsstring \<Rightarrow> storage option" where
  "ls_removeItem ls k =
     (if blocked ls then None else Some (ls\<lparr>items := (items ls)(k := None)\<rparr>))"

section \<open>The application state\<close>

text \<open>
  The module variables of \<open>auth.js\<close> (\<open>currentUser\<close>, \<open>authToken\<close>) and of
  \<open>script.js\<close> (\<open>currentUser\<close>, \<open>tasks\<close>), the storage they share, the path of the
  page, the navigation that was requested last, and the messages that were announced to
  the screen reader, in their order. Every element of \<open>tasks\<close> is an object: the list
  is filled by \<open>handleAddTask\<close> and by the \<open>map\<close> of \<open>loadTasks\<close>, which both
  build object literals. The rendering of the page is not part of the state.
\<close>

record app =
  localStorage :: storage
  auth_currentUser :: jsval
  authToken :: "jsstring option"
  pathname :: jsstring
  navigation :: "jsstring option"
  currentUser :: jsval
  tasks :: "props list"
  announcements :: "jsstring list"

section \<open>Session manager (auth.js)\<close>

definition KEY_AUTH_TOKEN :: jsstring where
  "KEY_AUTH_TOKEN = lit ''taskManager_authToken''"

definition KEY_USER_SESSION :: jsstring where
  "KEY_USER_SESSION = lit ''taskManager_userSession''"

definition KEY_LOGIN_TIME :: jsstring where
  "KEY_LOGIN_TIME = lit ''taskManager_loginTime''"

definition session_lifetime :: int where
  "session_lifetime = 24 * 60 * 60 * 1000"

text \<open>
  \<open>generateMockToken\<close> reads the clock twice: \<open>t_iat\<close> is the reading that becomes
  \<open>iat\<close>, \<open>t_exp\<close> the one to which the lifetime is added for \<open>exp\<close>; the sum
  of a clock reading and the lifetime is exact. \<open>None\<close> is the InvalidCharacterError
  of \<open>btoa\<close>.
\<close>

definition token_header :: jsval where
  "token_header = JObj [(lit ''alg'', JStr (lit ''HS256'')), (lit ''typ'', JStr (lit ''JWT''))]"

definition token_payload :: "user \<Rightarrow> int \<Rightarrow> int \<Rightarrow> jsval" where
  "token_payload u t_iat t_exp =
     JObj [(lit ''sub'', JStr (lit (user_id u))),
           (lit ''username'', JStr (lit (username u))),
           (lit ''email'', JStr (lit (email u))),
           (lit ''role'', JStr (lit (role u))),
           (lit ''iat'', JNum t_iat),
           (lit ''exp'', JNum (t_exp + session_lifetime))]"

definition generateMockToken :: "user \<Rightarrow> int \<Rightarrow> int \<Rightarrow> jsstring option" where
  "generateMockToken u t_iat t_exp =
     (case btoa (serialize token_header) of
        None \<Rightarrow> None
      | Some header \<Rightarrow>
          (case btoa (serialize (token_payload u t_iat t_exp)) of
             None \<Rightarrow> None
           | Some payload \<Rightarrow>
               (case btoa (lit ''mock-signature-'' @ lit (user_id u)) of
                  None \<Rightarrow> None
                | Some signature \<Rightarrow> Some (header @ lit ''.'' @ payload @ lit ''.'' @ signature))))"

text \<open>
  The decoding inside \<open>validateSession\<close>: the token is split at the dots, must have
  three parts, and the second part is decoded and parsed. The first and the third part
  are not looked at. \<open>None\<close> stands for the three exceptions of this code (wrong
  number of parts, \<open>atob\<close>, \<open>JSON.parse\<close>).
\<close>

definition decodeToken :: "jsstring \<Rightarrow> jsval option" where
  "decodeToken tok =
     (let tokenParts = split_on (of_char CHR ''.'') tok in
      if length tokenParts \<noteq> 3 then None
      else (case atob (tokenParts ! 1) of
              None \<Rightarrow> None
            | Some text \<Rightarrow> JSON_parse text))"

text \<open>
  \<open>Date.now() > payload.exp\<close>; \<open>None\<close> is the TypeError of reading \<open>exp\<close> from
  \<open>null\<close> or of comparing with an object that has no primitive value.
\<close>

definition isExpired :: "int \<Rightarrow> jsval \<Rightarrow> bool option" where
  "isExpired now payload =
     (case get_prop payload (lit ''exp'') of
        None \<Rightarrow> None
      | Some e \<Rightarrow> js_gt (JNum now) e)"

text \<open>The body of the \<open>try\<close> of \<open>validateSession\<close> runs to \<open>return true\<close>.\<close>

definition token_accepted :: "jsstring \<Rightarrow> int \<Rightarrow> bool" where
  "token_accepted tok now =
     (case decodeToken tok of
        None \<Rightarrow> False
      | Some payload \<Rightarrow> (case isExpired now payload of None \<Rightarrow> False | Some e \<Rightarrow> \<not> e))"

text \<open>
  \<open>currentUser !== null && currentUser.isAuthenticated === true\<close>; \<open>None\<close> is the
  TypeError of reading the property from \<open>undefined\<close>.
\<close>

definition isAuthenticated :: "app \<Rightarrow> bool option" where
  "isAuthenticated st =
     (if auth_currentUser st = JNull then Some False
      else map_option (\<lambda>v. v = JBool True)
             (get_prop (auth_currentUser st) (lit ''isAuthenticated'')))"

definition getCurrentUser :: "app \<Rightarrow> jsval" where
  "getCurrentUser st = auth_currentUser st"

definition redirectToLogin :: "app \<Rightarrow> app" where
  "redirectToLogin st =
     (if \<not> includes_str (pathname st) (lit ''login.html'')
      then st\<lparr>navigation := Some (lit ''login.html'')\<rparr> else st)"

definition redirectToApp :: "app \<Rightarrow> app" where
  "redirectToApp st =
     (if includes_str (pathname st) (lit ''login.html'')
      then st\<lparr>navigation := Some (lit ''index.html'')\<rparr> else st)"

text \<open>
  The three writes of \<open>saveUserSession\<close> stand in one \<open>try\<close>: the first one that
  throws ends the function, and what was written before stays. \<open>t_saved\<close> is the clock
  reading of \<open>new Date()\<close>.
\<close>

definition token_text :: "jsstring option \<Rightarrow> jsstring" where
  "token_text t = (case t of None \<Rightarrow> lit ''null'' | Some s \<Rightarrow> s)"

definition saveUserSession :: "app \<Rightarrow> int \<Rightarrow> app" where
  "saveUserSession st t_saved =
     (case ls_setItem (localStorage st) KEY_AUTH_TOKEN (token_text (authToken st)) of
        None \<Rightarrow> st
      | Some ls1 \<Rightarrow>
          (case ls_setItem ls1 KEY_USER_SESSION (stored_text (auth_currentUser st)) of
             None \<Rightarrow> st\<lparr>localStorage := ls1\<rparr>
           | Some ls2 \<Rightarrow>
               (case ls_setItem ls2 KEY_LOGIN_TIME (toISOString t_saved) of
                  None \<Rightarrow> st\<lparr>localStorage := ls2\<rparr>
                | Some ls3 \<Rightarrow> st\<lparr>localStorage := ls3\<rparr>)))"

definition clearUserSession :: "app \<Rightarrow> app" where
  "clearUserSession st =
     (case ls_removeItem (localStorage st) KEY_AUTH_TOKEN of
        None \<Rightarrow> st
      | Some ls1 \<Rightarrow>
          (case ls_removeItem ls1 KEY_USER_SESSION of
             None \<Rightarrow> st\<lparr>localStorage := ls1\<rparr>
           | Some ls2 \<Rightarrow>
               (case ls_removeItem ls2 KEY_LOGIN_TIME of
                  None \<Rightarrow> st\<lparr>localStorage := ls2\<rparr>
                | Some ls3 \<Rightarrow> st\<lparr>localStorage := ls3\<rparr>)))"

text \<open>\<open>announceToScreenReader\<close>, of \<open>auth.js\<close> and of \<open>script.js\<close> alike.\<close>

definition announceToScreenReader :: "app \<Rightarrow> jsstring \<Rightarrow> app" where
  "announceToScreenReader st message = st\<lparr>announcements := announcements st @ [message]\<rparr>"

definition logout :: "app \<Rightarrow> app" where
  "logout st =
     (let st1 = clearUserSession (st\<lparr>auth_currentUser := JNull, authToken := None\<rparr>);
          st2 = announceToScreenReader st1 (lit ''Successfully logged out'')
      in if \<not> includes_str (pathname st2) (lit ''login.html'') then redirectToLogin st2 else st2)"

definition token_truthy :: "jsstring option \<Rightarrow> bool" where
  "token_truthy t = (case t of None \<Rightarrow> False | Some s \<Rightarrow> s \<noteq> [])"

text \<open>\<open>validateSession\<close> at the clock reading \<open>now\<close>: the returned flag and the new state.\<close>

definition validateSession :: "app \<Rightarrow> int \<Rightarrow> bool \<times> app" where
  "validateSession st now =
     (if truthy (auth_currentUser st) \<and> token_truthy (authToken st) then
        (if token_accepted (the (authToken st)) now then (True, st) else (False, logout st))
      else (False, st))"

text \<open>
  \<open>loadUserSession\<close>: a stored token and a stored session, both non-empty, become the
  state; a session text that does not parse leaves the token assigned and clears the
  stored session.
\<close>

definition loadUserSession :: "app \<Rightarrow> app" where
  "loadUserSession st =
     (case ls_getItem (localStorage st) KEY_AUTH_TOKEN of
        None \<Rightarrow> clearUserSession st
      | Some storedToken \<Rightarrow>
          (case ls_getItem (localStorage st) KEY_USER_SESSION of
             None \<Rightarrow> clearUserSession st
           | Some storedUser \<Rightarrow>
               (if token_truthy storedToken \<and> token_truthy storedUser then
                  (case JSON_parse (the storedUser) of
                     None \<Rightarrow> clearUserSession (st\<lparr>authToken := storedToken\<rparr>)
                   | Some u \<Rightarrow> st\<lparr>authToken := storedToken, auth_currentUser := u\<rparr>)
                else st)))"

definition initializeAuth :: "app \<Rightarrow> int \<Rightarrow> app" where
  "initializeAuth st now = snd (validateSession (loadUserSession st) now)"

datatype login_result = LoginSuccess jsval jsstring | LoginFailure string

definition session_of :: "user \<Rightarrow> int \<Rightarrow> jsval" where
  "session_of u t_login =
     JObj [(lit ''id'', JStr (lit (user_id u))),
           (lit ''username'', JStr (lit (username u))),
           (lit ''email'', JStr (lit (email u))),
           (lit ''role'', JStr (lit (role u))),
           (lit ''isAuthenticated'', JBool True),
           (lit ''loginTime'', JStr (toISOString t_login))]"

text \<open>
  The message of the exception that \<open>btoa\<close> throws is worded by the browser; the
  name of the error stands for it. \<open>login\<close> does not get there: the fields of a
  directory entry are in the range that \<open>btoa\<close> accepts.
\<close>

definition btoa_error_message :: string where
  "btoa_error_message = ''InvalidCharacterError''"

text \<open>
  \<open>login\<close> with the four clock readings it takes after the simulated delay: for
  \<open>iat\<close>, for \<open>exp\<close>, for \<open>loginTime\<close> and for the stored login time. The result
  is the object that the promise resolves to. The delay itself, during which other
  handlers could run, is not modelled.
\<close>

definition login :: "app \<Rightarrow> string \<Rightarrow> string \<Rightarrow> int \<Rightarrow> int \<Rightarrow> int \<Rightarrow> int \<Rightarrow> login_result \<times> app" where
  "login st usernameOrEmail pw t_iat t_exp t_login t_saved =
     (if usernameOrEmail = [] \<or> pw = [] then
        (LoginFailure ''Username and password are required'', st)
      else
        (case findUser usernameOrEmail pw of
           None \<Rightarrow> (LoginFailure ''Invalid username or password'', st)
         | Some u \<Rightarrow>
             (case generateMockToken u t_iat t_exp of
                None \<Rightarrow> (LoginFailure btoa_error_message, st)
              | Some token \<Rightarrow>
                  (let st1 = st\<lparr>auth_currentUser := session_of u t_login, authToken := Some token\<rparr>;
                       st2 = saveUserSession st1 t_saved
                   in (LoginSuccess (auth_currentUser st2) token, st2)))))"

section \<open>Key-value store adapter (storage.js)\<close>

text \<open>
  A \<open>StorageManager\<close>: the availability flag set by its constructor and the in-memory
  fallback. The fallback is a JavaScript object used as a dictionary: \<open>inMemoryStorage\<close>
  holds its own properties, for every key the value and the time of the write. An
  assignment to the key \<open>__proto__\<close> creates no own property; it makes the assigned
  record the prototype of the dictionary, which \<open>inMemoryProto\<close> holds.
\<close>

record storage_manager =
  isAvailable :: bool
  inMemoryStorage :: "jsstring \<rightharpoonup> jsval \<times> int"
  inMemoryProto :: "(jsval \<times> int) option"

definition STORAGE_TEST :: jsstring where
  "STORAGE_TEST = lit ''__storage_test__''"

definition checkStorageAvailability :: "storage \<Rightarrow> bool \<times> storage" where
  "checkStorageAvailability ls =
     (case ls_setItem ls STORAGE_TEST STORAGE_TEST of
        None \<Rightarrow> (False, ls)
      | Some ls1 \<Rightarrow>
          (case ls_removeItem ls1 STORAGE_TEST of
             None \<Rightarrow> (False, ls1)
           | Some ls2 \<Rightarrow> (True, ls2)))"

definition new_StorageManager :: "storage \<Rightarrow> storage_manager \<times> storage" where
  "new_StorageManager ls =
     (case checkStorageAvailability ls of
        (ok, ls') \<Rightarrow>
          (\<lparr>isAvailable = ok, inMemoryStorage = Map.empty, inMemoryProto = None\<rparr>, ls'))"

definition setInMemory :: "storage_manager \<Rightarrow> jsstring \<Rightarrow> jsval \<Rightarrow> int \<Rightarrow> storage_manager" where
  "setInMemory sm key v now =
     (if key = lit ''__proto__'' then sm\<lparr>inMemoryProto := Some (v, now)\<rparr>
      else sm\<lparr>inMemoryStorage := (inMemoryStorage sm)(key \<mapsto> (v, now))\<rparr>)"

text \<open>The names that every object inherits from \<open>Object.prototype\<close>, as functions.\<close>

definition object_prototype_names :: "jsstring list" where
  "object_prototype_names =
     [lit ''constructor'', lit ''hasOwnProperty'', lit ''isPrototypeOf'',
      lit ''propertyIsEnumerable'', lit ''toLocaleString'', lit ''toString'', lit ''valueOf'',
      lit ''__defineGetter__'', lit ''__defineSetter__'', lit ''__lookupGetter__'',
      lit ''__lookupSetter__'']"

text \<open>
  \<open>stored.value\<close> for a value \<open>stored\<close> that is truthy: the own property of an
  object, \<open>undefined\<close> for anything else.
\<close>

definition value_of :: "jsval \<Rightarrow> jsval" where
  "value_of stored = (case get_prop stored (lit ''value'') of None \<Rightarrow> JUndefined | Some v \<Rightarrow> v)"

text \<open>
  \<open>getInMemory\<close>, whose parameter \<open>defaultValue\<close> becomes \<open>null\<close> when the
  argument is \<open>undefined\<close>. \<open>this.inMemoryStorage[key]\<close> is the own property of
  that name when there is one. Otherwise the key \<open>__proto__\<close> reads the prototype of
  the dictionary (the record assigned last, or \<open>Object.prototype\<close>, which has no
  \<open>value\<close>); the keys \<open>value\<close> and \<open>timestamp\<close> read the members of an assigned
  prototype; a name of \<open>Object.prototype\<close> reads a function, which is truthy and has
  no \<open>value\<close>; and every other key reads \<open>undefined\<close>, for which the default is
  returned.
\<close>

definition getInMemory :: "storage_manager \<Rightarrow> jsstring \<Rightarrow> jsval \<Rightarrow> jsval" where
  "getInMemory sm key defaultValue0 =
     (let defaultValue = (if defaultValue0 = JUndefined then JNull else defaultValue0) in
      case inMemoryStorage sm key of
        Some stored \<Rightarrow> fst stored
      | None \<Rightarrow>
          (if key = lit ''__proto__'' then
             (case inMemoryProto sm of None \<Rightarrow> JUndefined | Some stored \<Rightarrow> fst stored)
           else if inMemoryProto sm \<noteq> None \<and> key = lit ''value'' then
             (if truthy (fst (the (inMemoryProto sm))) then value_of (fst (the (inMemoryProto sm)))
              else defaultValue)
           else if inMemoryProto sm \<noteq> None \<and> key = lit ''timestamp'' then
             (if snd (the (inMemoryProto sm)) \<noteq> 0 then JUndefined else defaultValue)
           else if key \<in> set object_prototype_names then JUndefined
           else defaultValue))"

text \<open>The object that \<open>setItem\<close> serialises: the value, the clock reading and the type tag.\<close>

definition envelope :: "jsval \<Rightarrow> int \<Rightarrow> jsval" where
  "envelope v now =
     JObj [(lit ''value'', v), (lit ''timestamp'', JNum now), (lit ''type'', JStr (typeof v))]"

text \<open>\<open>setItem\<close> returns its success flag, the manager and the storage.\<close>

definition setItem :: "storage_manager \<Rightarrow> storage \<Rightarrow> jsstring \<Rightarrow> jsval \<Rightarrow> int \<Rightarrow> bool \<times> storage_manager \<times> storage" where
  "setItem sm ls key v now =
     (if \<not> isAvailable sm then (True, setInMemory sm key v now, ls)
      else (case ls_setItem ls key (serialize (envelope v now)) of
              None \<Rightarrow> (False, sm, ls)
            | Some ls' \<Rightarrow> (True, sm, ls')))"

text \<open>
  \<open>parsed.hasOwnProperty(k)\<close>. On \<open>null\<close> the call throws; on an object that has an
  own property named \<open>hasOwnProperty\<close> the call throws as well, because that property
  came out of \<open>JSON.parse\<close> and is no function. \<open>None\<close> is the TypeError.
\<close>

definition call_hasOwnProperty :: "jsval \<Rightarrow> jsstring \<Rightarrow> bool option" where
  "call_hasOwnProperty v k =
     (case v of
        JUndefined \<Rightarrow> None
      | JNull \<Rightarrow> None
      | JObj ps \<Rightarrow>
          (if lit ''hasOwnProperty'' \<in> fst ` set ps then None else Some (k \<in> fst ` set ps))
      | JArr xs \<Rightarrow>
          Some (k = lit ''length''
                \<or> (case array_index k of None \<Rightarrow> False | Some i \<Rightarrow> i < length xs))
      | JStr s \<Rightarrow>
          Some (k = lit ''length''
                \<or> (case array_index k of None \<Rightarrow> False | Some i \<Rightarrow> i < length s))
      | _ \<Rightarrow> Some False)"

text \<open>
  The \<open>try\<close> body of \<open>getItem\<close> on an available store; \<open>None\<close> is an exception, which
  the \<open>catch\<close> turns into the default value.
\<close>

definition getItem_try :: "storage \<Rightarrow> jsstring \<Rightarrow> jsval \<Rightarrow> jsval option" where
  "getItem_try ls key defaultValue =
     (case ls_getItem ls key of
        None \<Rightarrow> None
      | Some None \<Rightarrow> Some defaultValue
      | Some (Some storedItem) \<Rightarrow>
          (case JSON_parse storedItem of
             None \<Rightarrow> None
           | Some parsed \<Rightarrow>
               (case call_hasOwnProperty parsed (lit ''value'') of
                  None \<Rightarrow> None
                | Some False \<Rightarrow>
                    (if storedItem = lit ''undefined'' then Some defaultValue
                     else JSON_parse storedItem)
                | Some True \<Rightarrow> get_prop parsed (lit ''value''))))"

text \<open>
  \<open>getItem(key, defaultValue = null)\<close>: an argument \<open>undefined\<close>, like a missing one,
  makes the default \<open>null\<close>.
\<close>

definition getItem :: "storage_manager \<Rightarrow> storage \<Rightarrow> jsstring \<Rightarrow> jsval \<Rightarrow> jsval" where
  "getItem sm ls key defaultValue0 =
     (let defaultValue = (if defaultValue0 = JUndefined then JNull else defaultValue0) in
      if \<not> isAvailable sm then getInMemory sm key defaultValue
      else (case getItem_try ls key defaultValue of
              None \<Rightarrow> defaultValue
            | Some v \<Rightarrow> v))"

section \<open>Task collection store (script.js)\<close>

text \<open>
  The key \<open>`tasks_${currentUser.id}`\<close>; \<open>None\<close> is the TypeError of an identifier that
  has no string conversion.
\<close>

definition userTaskKey :: "jsval \<Rightarrow> jsstring option" where
  "userTaskKey cu =
     (case get_prop cu (lit ''id'') of
        None \<Rightarrow> None
      | Some i \<Rightarrow> map_option (\<lambda>s. lit ''tasks_'' @ s) (to_string i))"

definition saveTasks :: "app \<Rightarrow> app" where
  "saveTasks st =
     (if \<not> truthy (currentUser st) then st
      else (case userTaskKey (currentUser st) of
              None \<Rightarrow> st
            | Some key \<Rightarrow>
                (case ls_setItem (localStorage st) key (serialize (JArr (map JObj (tasks st)))) of
                   None \<Rightarrow> st
                 | Some ls' \<Rightarrow> st\<lparr>localStorage := ls'\<rparr>)))"

text \<open>
  The predicate of the \<open>filter\<close> in \<open>loadTasks\<close>,
  \<open>!task.userId || task.userId === currentUser.id\<close>; reading \<open>userId\<close> from a
  \<open>null\<close> element throws.
\<close>

definition keeps_task :: "jsval \<Rightarrow> jsval \<Rightarrow> bool option" where
  "keeps_task cu task =
     (case get_prop task (lit ''userId'') of
        None \<Rightarrow> None
      | Some uid \<Rightarrow>
          (if \<not> truthy uid then Some True
           else map_option (strict_equals uid) (get_prop cu (lit ''id''))))"

text \<open>\<open>xs.filter(p)\<close> for a predicate that may throw.\<close>

fun filter_throwing :: "('a \<Rightarrow> bool option) \<Rightarrow> 'a list \<Rightarrow> 'a list option" where
  "filter_throwing p [] = Some []"
| "filter_throwing p (x # xs) =
     (case p x of
        None \<Rightarrow> None
      | Some b \<Rightarrow>
          (case filter_throwing p xs of
             None \<Rightarrow> None
           | Some ys \<Rightarrow> Some (if b then x # ys else ys)))"

text \<open>The function of the \<open>map\<close>: \<open>{...task, userId: task.userId || currentUser.id}\<close>.\<close>

definition stamp_task :: "jsval \<Rightarrow> jsval \<Rightarrow> props option" where
  "stamp_task cu task =
     (case get_prop task (lit ''userId'') of
        None \<Rightarrow> None
      | Some uid \<Rightarrow>
          (if truthy uid then Some (obj_set (lit ''userId'') uid (spread_props task))
           else map_option (\<lambda>i. obj_set (lit ''userId'') i (spread_props task)) (get_prop cu (lit ''id''))))"

fun map_throwing :: "('a \<Rightarrow> 'b option) \<Rightarrow> 'a list \<Rightarrow> 'b list option" where
  "map_throwing f [] = Some []"
| "map_throwing f (x # xs) =
     (case f x of
        None \<Rightarrow> None
      | Some y \<Rightarrow> (case map_throwing f xs of None \<Rightarrow> None | Some ys \<Rightarrow> Some (y # ys)))"

text \<open>
  The \<open>try\<close> body of \<open>loadTasks\<close> after the check of the user; \<open>None\<close> is an exception,
  after which the \<open>catch\<close> leaves the task list empty.
\<close>

definition loadTasks_try :: "app \<Rightarrow> app option" where
  "loadTasks_try st =
     (case userTaskKey (currentUser st) of
        None \<Rightarrow> None
      | Some key \<Rightarrow>
          (case ls_getItem (localStorage st) key of
             None \<Rightarrow> None
           | Some storedTasks \<Rightarrow>
               (if token_truthy storedTasks then
                  (case JSON_parse (the storedTasks) of
                     Some (JArr recs) \<Rightarrow>
                       (case filter_throwing (keeps_task (currentUser st)) recs of
                          None \<Rightarrow> None
                        | Some kept \<Rightarrow>
                            (case map_throwing (stamp_task (currentUser st)) kept of
                               None \<Rightarrow> None
                             | Some stamped \<Rightarrow> Some (saveTasks (st\<lparr>tasks := stamped\<rparr>))))
                   | _ \<Rightarrow> None)
                else Some (st\<lparr>tasks := []\<rparr>))))"

definition loadTasks :: "app \<Rightarrow> app" where
  "loadTasks st =
     (if \<not> truthy (currentUser st) then st\<lparr>tasks := []\<rparr>
      else (case loadTasks_try st of None \<Rightarrow> st\<lparr>tasks := []\<rparr> | Some st' \<Rightarrow> st'))"

definition init :: "app \<Rightarrow> app" where
  "init st =
     (let st1 = st\<lparr>currentUser := getCurrentUser st\<rparr>
      in if \<not> truthy (currentUser st1) then st1 else loadTasks st1)"

text \<open>
  What \<open>handleAddTask\<close> does with the text of the input field: it returns early on an
  empty trimmed text, it asks for the login page when no session is authenticated, it
  stops with a TypeError when the check of the session throws or when the user of
  \<open>script.js\<close> is \<open>null\<close>, or it appends the new task, saves the list and announces
  the task. \<open>t_id\<close> and \<open>t_created\<close> are the
  clock readings for \<open>id\<close> and \<open>createdAt\<close>. The function returns nothing; the
  outcome names the path taken.
\<close>

datatype add_outcome = EmptyText | NotAuthenticated | Threw | Added props

definition new_task :: "jsstring \<Rightarrow> int \<Rightarrow> int \<Rightarrow> jsval \<Rightarrow> props" where
  "new_task taskText t_id t_created uid =
     [(lit ''id'', JNum t_id),
      (lit ''text'', JStr taskText),
      (lit ''completed'', JBool False),
      (lit ''createdAt'', JStr (toISOString t_created)),
      (lit ''userId'', uid)]"

definition handleAddTask :: "app \<Rightarrow> jsstring \<Rightarrow> int \<Rightarrow> int \<Rightarrow> add_outcome \<times> app" where
  "handleAddTask st input t_id t_created =
     (let taskText = trim_units input in
      if taskText = [] then (EmptyText, st)
      else (case isAuthenticated st of
              None \<Rightarrow> (Threw, st)
            | Some False \<Rightarrow> (NotAuthenticated, redirectToLogin st)
            | Some True \<Rightarrow>
                (case get_prop (currentUser st) (lit ''id'') of
                   None \<Rightarrow> (Threw, st)
                 | Some uid \<Rightarrow>
                     (let newTask = new_task taskText t_id t_created uid;
                          st1 = saveTasks (st\<lparr>tasks := tasks st @ [newTask]\<rparr>)
                      in (Added newTask,
                          announceToScreenReader st1
                            (lit ''Task \"'' @ taskText @ lit ''\" added successfully''))))))"

definition is_completed :: "props \<Rightarrow> bool" where
  "is_completed task = truthy (obj_get task (lit ''completed''))"

text \<open>
  \<open>handleClearCompleted\<close> returns \<open>undefined\<close> on both of its paths: at once when no
  task is completed, and otherwise after it has removed the completed tasks, saved the
  list and announced how many it cleared.
\<close>

definition cleared_message :: "nat \<Rightarrow> jsstring" where
  "cleared_message completedCount =
     show_nat completedCount @ lit '' completed task''
       @ (if completedCount \<noteq> 1 then lit ''s'' else []) @ lit '' cleared''"

definition handleClearCompleted :: "app \<Rightarrow> jsval \<times> app" where
  "handleClearCompleted st =
     (let completedCount = length (filter is_completed (tasks st)) in
      if completedCount = 0 then (JUndefined, st)
      else
        (let st1 = saveTasks (st\<lparr>tasks := filter (\<lambda>task. \<not> is_completed task) (tasks st)\<rparr>)
         in (JUndefined, announceToScreenReader st1 (cleared_message completedCount))))"

section \<open>The repair pass in the words of the specification\<close>

text \<open>
  For the identifier \<open>B\<close> of the owner, a loaded record is kept unless its \<open>userId\<close>
  is truthy and differs from \<open>B\<close>; \<open>null\<close> and \<open>undefined\<close> are no records. The
  repaired list holds the kept records, each with the \<open>userId\<close> \<open>B\<close>.
\<close>

definition kept_for :: "jsval \<Rightarrow> jsval \<Rightarrow> bool" where
  "kept_for B r =
     (case get_prop r (lit ''userId'') of
        None \<Rightarrow> False
      | Some uid \<Rightarrow> \<not> truthy uid \<or> strict_equals uid B)"

definition repaired :: "jsval \<Rightarrow> jsval list \<Rightarrow> props list" where
  "repaired B recs = map (\<lambda>r. obj_set (lit ''userId'') B (spread_props r)) (filter (kept_for B) recs)"

section \<open>The state of a freshly loaded page\<close>

definition empty_storage :: storage where
  "empty_storage = \<lparr>items = Map.empty, blocked = False, full = False\<rparr>"

text \<open>
  The module variables as the scripts initialise them, on an empty storage, with the
  page at \<open>path\<close>.
\<close>

definition fresh_app :: "jsstring \<Rightarrow> app" where
  "fresh_app path =
     \<lparr>localStorage = empty_storage, auth_currentUser = JNull, authToken = None,
      pathname = path, navigation = None, currentUser = JNull, tasks = [],
      announcements = []\<rparr>"

text \<open>
  The envelope of the specification: a text is envelope-shaped when it parses to an
  object that has the members \<open>value\<close>, \<open>timestamp\<close> and \<open>type\<close>.
\<close>

definition is_envelope_text :: "jsstring \<Rightarrow> bool" where
  "is_envelope_text raw =
     (case JSON_parse raw of
        Some (JObj ps) \<Rightarrow>
          lit ''value'' \<in> fst ` set ps \<and> lit ''timestamp'' \<in> fst ` set ps
          \<and> lit ''type'' \<in> fst ` set ps
      | _ \<Rightarrow> False)"

text \<open>
  A state for examples: the owner \<open>u1\<close> is logged in on both sides, with a token of
  three parts and one task in memory.
\<close>

definition demo_owner :: app where
  "demo_owner = (fresh_app (lit ''/index.html''))
     \<lparr>auth_currentUser := JObj [(lit ''id'', JStr (lit ''u1''))], authToken := Some (lit ''a.b.c''),
      currentUser := JObj [(lit ''id'', JStr (lit ''u1''))],
      tasks := [[(lit ''text'', JStr (lit ''a''))]]\<rparr>"

text \<open>
  The same owner with a stored task list of two records: one that belongs to another
  owner and one that has no owner.
\<close>

definition demo_stored :: app where
  "demo_stored = demo_owner
     \<lparr>localStorage := empty_storage
        \<lparr>items := [lit ''tasks_u1'' \<mapsto>
           lit ''[{\"text\":\"a\",\"userId\":\"u2\"},{\"text\":\"b\"}]'']\<rparr>\<rparr>"

text \<open>The same owner with one completed task and one active task in memory.\<close>

definition demo_done :: app where
  "demo_done = demo_owner
     \<lparr>tasks := [[(lit ''completed'', JBool True)], [(lit ''completed'', JBool False)]]\<rparr>"

text \<open>
  The page of the application after the second entry of the directory has logged in (all
  clock readings being \<open>10\<close>) and \<open>init\<close> has run, and the same page after the
  session manager has logged the user out: the task store keeps its current user.
\<close>

definition logged_in :: app where
  "logged_in = init (snd (login (fresh_app (lit ''/index.html'')) ''user'' ''user123'' 10 10 10 10))"

definition logged_out :: app where
  "logged_out = logout logged_in"

text \<open>
  Three more stored lists for the owner \<open>u1\<close>: a record whose \<open>userId\<close> is the number
  zero, a list with a \<open>null\<close> element, and the list of \<open>demo_stored\<close> in a storage
  that refuses every write.
\<close>

definition demo_zero :: app where
  "demo_zero = demo_owner
     \<lparr>localStorage := empty_storage
        \<lparr>items := [lit ''tasks_u1'' \<mapsto> lit ''[{\"text\":\"a\",\"userId\":0}]'']\<rparr>\<rparr>"

definition demo_null :: app where
  "demo_null = demo_owner
     \<lparr>localStorage := empty_storage
        \<lparr>items := [lit ''tasks_u1'' \<mapsto> lit ''[null,{\"text\":\"b\"}]'']\<rparr>\<rparr>"

definition demo_full :: app where
  "demo_full = demo_stored\<lparr>localStorage := (localStorage demo_stored)\<lparr>full := True\<rparr>\<rparr>"

section \<open>Properties of the credential directory\<close>

lemmas str_defs = trim_def toLowerCase_def lower_char_def is_upper_def is_ws_def

lemmas table_defs = MOCK_USERS_def admin_user_def plain_user_def

lemma lower_char_ws: "is_ws c \<Longrightarrow> lower_char c = c"
  by (auto simp: lower_char_def is_upper_def is_ws_def Let_def)

lemma toLowerCase_ws: "list_all is_ws l \<Longrightarrow> toLowerCase l = l"
  by (induction l) (simp_all add: toLowerCase_def lower_char_ws)

lemma toLowerCase_append: "toLowerCase (a @ b) = toLowerCase a @ toLowerCase b"
  by (simp add: toLowerCase_def)

lemma dropWhile_ws_append: "list_all is_ws l \<Longrightarrow> dropWhile is_ws (l @ y) = dropWhile is_ws y"
  by (induction l) simp_all

lemma trim_padded:
  assumes "list_all is_ws l" "list_all is_ws r" "y \<noteq> []" "\<not> is_ws (hd y)" "\<not> is_ws (last y)"
  shows "trim (l @ y @ r) = y"
proof -
  have front: "dropWhile is_ws (l @ y @ r) = y @ r"
    using assms by (cases y) (simp_all add: dropWhile_ws_append)
  have tail_part: "dropWhile is_ws (rev r @ rev y) = rev y"
  proof -
    have "list_all is_ws (rev r)" using assms(2) by (simp add: list_all_iff)
    then have "dropWhile is_ws (rev r @ rev y) = dropWhile is_ws (rev y)"
      by (rule dropWhile_ws_append)
    also have "\<dots> = rev y" using assms(3,5) by (cases y rule: rev_cases) simp_all
    finally show ?thesis .
  qed
  show ?thesis by (simp add: trim_def front tail_part)
qed

lemma trim_lower_padded:
  assumes "list_all is_ws l" "list_all is_ws r" "y \<noteq> []"
    "\<not> is_ws (hd (toLowerCase y))" "\<not> is_ws (last (toLowerCase y))"
  shows "trim (toLowerCase (l @ y @ r)) = toLowerCase y"
proof -
  have "toLowerCase (l @ y @ r) = l @ toLowerCase y @ r"
    using assms(1,2) by (simp add: toLowerCase_append toLowerCase_ws)
  moreover have "toLowerCase y \<noteq> []" using assms(3) by (simp add: toLowerCase_def)
  ultimately show ?thesis using assms by (simp add: trim_padded)
qed

text \<open>The lookup over the two entries of the table, as a decision on the normalised input.\<close>

lemma findUser_cases:
  "findUser inp pw =
     (let n = trim (toLowerCase inp) in
      if (n = ''admin'' \<or> n = ''admin@taskmanager.com'') \<and> pw = ''password123''
      then Some admin_user
      else if (n = ''user'' \<or> n = ''user@taskmanager.com'') \<and> pw = ''user123''
      then Some plain_user
      else None)"
  by (auto simp: findUser_def Let_def MOCK_USERS_def user_matches_def admin_user_def
      plain_user_def toLowerCase_def lower_char_def is_upper_def)

text \<open>
  C2, as stated, fails: the input \<open>" admin"\<close> (a leading space) does not match the
  identifier \<open>admin\<close> case-insensitively, and \<open>findUser\<close> returns the admin identity for
  it all the same, because the input is trimmed before it is compared.
\<close>

theorem findUser_untrimmed_counterexample:
  "findUser '' admin'' ''password123'' = Some admin_user
   \<and> admin_user \<in> set MOCK_USERS
   \<and> \<not> (matches_ci '' admin'' admin_user \<and> ''password123'' = password admin_user)"
  by (simp add: findUser_cases Let_def matches_ci_def table_defs str_defs)

text \<open>
  C2, amended: for every identity of the directory, \<open>findUser\<close> returns that identity
  exactly when the lower-cased and then trimmed input equals the identity's lower-cased
  identifier or alias and the secret is equal to the stored one; with the identifier and
  the stored secret it returns the identity, and with the identifier and any other
  secret (a case-changed one too) it returns none.
\<close>

theorem findUser_trimmed_match:
  "\<forall>u \<in> set MOCK_USERS.
     (findUser inp pw = Some u \<longleftrightarrow>
        (trim (toLowerCase inp) = toLowerCase (username u) \<or>
         trim (toLowerCase inp) = toLowerCase (email u)) \<and> pw = password u)
     \<and> findUser (username u) (password u) = Some u
     \<and> (\<forall>wrong. wrong \<noteq> password u \<longrightarrow> findUser (username u) wrong = None)"
  apply (simp add: findUser_cases Let_def)
  apply (simp add: table_defs str_defs)
  done

theorem findUser_trimmed_match_witness:
  "findUser ''Admin@TaskManager.com '' ''password123'' = Some admin_user
   \<and> findUser ''admin'' ''password123'' = Some admin_user
   \<and> findUser ''admin'' ''Password123'' = None"
proof -
  have m: "admin_user \<in> set MOCK_USERS" by (simp add: MOCK_USERS_def)
  have n: "trim (toLowerCase ''Admin@TaskManager.com '') = toLowerCase (email admin_user)"
    by code_simp
  have p: "''password123'' = password admin_user" "''Password123'' \<noteq> password admin_user"
    "username admin_user = ''admin''"
    by (simp_all add: admin_user_def)
  from findUser_trimmed_match [of "''Admin@TaskManager.com ''" "''password123''"] m n p
  show ?thesis by auto
qed

text \<open>
  C10: the lookup trims white space around the identifier-or-alias input and not around
  the secret. For every identity of the directory and all white-space strings \<open>l\<close> and
  \<open>r\<close>, the identifier or the alias wrapped in \<open>l\<close> and \<open>r\<close> is found with the stored
  secret, and the stored secret wrapped in \<open>l\<close> and \<open>r\<close> (not both empty) is refused.
\<close>

theorem findUser_trims_identifier_only:
  assumes "u \<in> set MOCK_USERS" "list_all is_ws l" "list_all is_ws r"
  shows "findUser (l @ username u @ r) (password u) = Some u
       \<and> findUser (l @ email u @ r) (password u) = Some u
       \<and> (l @ r \<noteq> [] \<longrightarrow> findUser (username u) (l @ password u @ r) = None
                          \<and> findUser (email u) (l @ password u @ r) = None)"
proof -
  have longer: "l @ r \<noteq> [] \<Longrightarrow> l @ p @ r \<noteq> p" for p :: string
  proof
    assume "l @ r \<noteq> []" "l @ p @ r = p"
    then have "length (l @ p @ r) = length p" by simp
    with \<open>l @ r \<noteq> []\<close> show False by auto
  qed
  have un: "trim (toLowerCase (l @ username u @ r)) = toLowerCase (username u)"
    using assms by (intro trim_lower_padded) (auto simp: table_defs str_defs)
  have em: "trim (toLowerCase (l @ email u @ r)) = toLowerCase (email u)"
    using assms by (intro trim_lower_padded) (auto simp: table_defs str_defs)
  have un0: "trim (toLowerCase (username u)) = toLowerCase (username u)"
    using assms(1) by (auto simp: table_defs str_defs)
  have em0: "trim (toLowerCase (email u)) = toLowerCase (email u)"
    using assms(1) by (auto simp: table_defs str_defs)
  have lw: "toLowerCase (username u) = username u" "toLowerCase (email u) = email u"
    using assms(1) by (auto simp: table_defs toLowerCase_def lower_char_def is_upper_def)
  from assms(1) have "u = admin_user \<or> u = plain_user" by (simp add: MOCK_USERS_def)
  then show ?thesis
  proof
    assume u: "u = admin_user"
    have p: "l @ r \<noteq> [] \<Longrightarrow> l @ ''password123'' @ r \<noteq> ''password123''" by (rule longer)
    show ?thesis using un em un0 em0 lw p unfolding findUser_cases Let_def
      by (simp add: u admin_user_def plain_user_def)
  next
    assume u: "u = plain_user"
    have p: "l @ r \<noteq> [] \<Longrightarrow> l @ ''user123'' @ r \<noteq> ''user123''" by (rule longer)
    show ?thesis using un em un0 em0 lw p unfolding findUser_cases Let_def
      by (simp add: u admin_user_def plain_user_def)
  qed
qed

theorem findUser_trims_identifier_only_witness:
  "findUser ([CHR '' '', CHR 0x09] @ ''admin'' @ ''  '') ''password123'' = Some admin_user
   \<and> findUser ''admin'' ('' '' @ ''password123'' @ []) = None"
  using findUser_trims_identifier_only [of admin_user "[CHR '' '', CHR 0x09]" "''  ''"]
        findUser_trims_identifier_only [of admin_user "'' ''" "[]"]
  by (simp add: MOCK_USERS_def admin_user_def is_ws_def)

section \<open>Evaluation of the platform functions\<close>

text \<open>The definitions that unfold when a concrete text is tokenised, parsed or printed.\<close>

lemmas lex_defs = lit_def next_token_def json_ws_def is_digit_def lex_number_def lex_int_def
  lex_frac_def lex_exp_def lex_exp_sign_def number_value_def read_nat_def digit_val_def hex4_def
  hex_val_def unescape_def Let_def

lemmas parse_defs = JSON_parse_def parse_step_def start_value_def start_key_def push_value_def
  close_array_def close_object_def obj_set_def comes_before_def array_index_def

lemmas quote_defs = lit_def json_quote_def json_escape_def is_leading_def is_trailing_def

lemmas print_defs = lit_def json_quote_def json_escape_def is_leading_def is_trailing_def
  number_to_string_def show_int_def

lemma lit_eq_Nil [simp]: "lit s = [] \<longleftrightarrow> s = []"
  by (simp add: lit_def)

lemma show_nat_digit: "n < 10 \<Longrightarrow> show_nat n = [48 + n]"
  by (simp add: show_nat.simps digit_char_def)

lemmas key_defs = KEY_AUTH_TOKEN_def KEY_USER_SESSION_def KEY_LOGIN_TIME_def

lemma key_distinct:
  "KEY_AUTH_TOKEN \<noteq> KEY_USER_SESSION" "KEY_AUTH_TOKEN \<noteq> KEY_LOGIN_TIME"
  "KEY_USER_SESSION \<noteq> KEY_LOGIN_TIME" "KEY_USER_SESSION \<noteq> KEY_AUTH_TOKEN"
  "KEY_LOGIN_TIME \<noteq> KEY_AUTH_TOKEN" "KEY_LOGIN_TIME \<noteq> KEY_USER_SESSION"
  by (simp_all add: key_defs lit_def)

section \<open>Properties of the session manager\<close>

text \<open>
  C3: login fails atomically. When the identifier or the secret is empty, or no entry of
  the directory matches, \<open>login\<close> returns a failure result with one of its two
  messages and the state is the state before the call: no session is created, nothing
  is written to the storage, and \<open>isAuthenticated\<close> answers as it did before (false
  stays false).
\<close>

theorem login_failure_atomic:
  assumes "usernameOrEmail = [] \<or> pw = [] \<or> findUser usernameOrEmail pw = None"
  shows "\<exists>msg. login st usernameOrEmail pw t_iat t_exp t_login t_saved = (LoginFailure msg, st)
           \<and> (msg = ''Username and password are required'' \<or> msg = ''Invalid username or password'')
           \<and> isAuthenticated (snd (login st usernameOrEmail pw t_iat t_exp t_login t_saved))
               = isAuthenticated st"
  using assms by (auto simp: login_def)

theorem login_failure_atomic_witness:
  "login (fresh_app (lit ''/login.html'')) ''admin'' ''wrong'' 1 2 3 4
     = (LoginFailure ''Invalid username or password'', fresh_app (lit ''/login.html''))
   \<and> isAuthenticated (snd (login (fresh_app (lit ''/login.html'')) ''admin'' ''wrong'' 1 2 3 4))
       = Some False"
proof -
  have f: "findUser ''admin'' ''wrong'' = None" by code_simp
  have n: "isAuthenticated (fresh_app (lit ''/login.html'')) = Some False"
    by (simp add: isAuthenticated_def fresh_app_def)
  from login_failure_atomic [of "''admin''" "''wrong''" "fresh_app (lit ''/login.html'')" 1 2 3 4] f n
  show ?thesis by (auto simp: login_def)
qed

section \<open>Properties of the task collection store\<close>

lemma tasks_saveTasks [simp]: "tasks (saveTasks st) = tasks st"
  by (simp add: saveTasks_def split: option.splits)

lemma announcements_saveTasks [simp]: "announcements (saveTasks st) = announcements st"
  by (simp add: saveTasks_def split: option.splits)

lemma tasks_redirectToLogin [simp]: "tasks (redirectToLogin st) = tasks st"
  by (simp add: redirectToLogin_def)

lemma localStorage_redirectToLogin [simp]: "localStorage (redirectToLogin st) = localStorage st"
  by (simp add: redirectToLogin_def)

lemma announcements_redirectToLogin [simp]: "announcements (redirectToLogin st) = announcements st"
  by (simp add: redirectToLogin_def)

lemma tasks_announce [simp]: "tasks (announceToScreenReader st m) = tasks st"
  by (simp add: announceToScreenReader_def)

lemma get_prop_None: "get_prop v k = None \<longleftrightarrow> v = JNull \<or> v = JUndefined"
  by (cases v) (auto simp: get_prop_def split: option.splits)

lemma filter_not_completed_idem:
  "filter is_completed (filter (\<lambda>task. \<not> is_completed task) ts) = []"
  by (induction ts) auto

lemma demo_done_facts:
  "filter is_completed (tasks demo_done) = [[(lit ''completed'', JBool True)]]"
  "filter (\<lambda>task. \<not> is_completed task) (tasks demo_done) = [[(lit ''completed'', JBool False)]]"
  "announcements demo_done = []"
  by (simp_all add: demo_done_def demo_owner_def fresh_app_def is_completed_def obj_get_def
      truthy_def)

text \<open>
  C8, as stated, fails: \<open>handleClearCompleted\<close> returns \<open>undefined\<close>, on the first
  call, which removes one record, and on the second, which removes none. The number
  removed is not returned.
\<close>

theorem clearCompleted_returns_undefined_counterexample:
  "length (tasks demo_done) - length (tasks (snd (handleClearCompleted demo_done))) = 1
   \<and> fst (handleClearCompleted demo_done) = JUndefined
   \<and> fst (handleClearCompleted demo_done) \<noteq> JNum 1
   \<and> fst (handleClearCompleted (snd (handleClearCompleted demo_done))) = JUndefined
   \<and> fst (handleClearCompleted (snd (handleClearCompleted demo_done))) \<noteq> JNum 0"
proof -
  have f: "fst (handleClearCompleted st) = JUndefined" for st
    by (simp add: handleClearCompleted_def Let_def)
  have t: "tasks (snd (handleClearCompleted demo_done)) = [[(lit ''completed'', JBool False)]]"
    by (simp add: handleClearCompleted_def Let_def demo_done_facts)
  have l: "length (tasks demo_done) = 2"
    by (simp add: demo_done_def)
  from f t l show ?thesis by simp
qed

text \<open>
  C8, amended. \<open>handleClearCompleted\<close> returns no value. It removes exactly the
  completed records of the list and announces the number removed; when no record is
  completed it changes nothing and announces nothing. A second call right after the
  first removes nothing, announces nothing and leaves the state as the first call left
  it.
\<close>

theorem clearCompleted_announces_count:
  "fst (handleClearCompleted st) = JUndefined
   \<and> tasks (snd (handleClearCompleted st)) = filter (\<lambda>task. \<not> is_completed task) (tasks st)
   \<and> length (tasks st)
       = length (tasks (snd (handleClearCompleted st))) + length (filter is_completed (tasks st))
   \<and> announcements (snd (handleClearCompleted st))
       = (if filter is_completed (tasks st) = [] then announcements st
          else announcements st @ [cleared_message (length (filter is_completed (tasks st)))])
   \<and> (filter is_completed (tasks st) = [] \<longrightarrow> snd (handleClearCompleted st) = st)
   \<and> handleClearCompleted (snd (handleClearCompleted st))
       = (JUndefined, snd (handleClearCompleted st))"
proof -
  let ?done = "filter is_completed (tasks st)"
  let ?rest = "filter (\<lambda>task. \<not> is_completed task) (tasks st)"
  have parts: "length (tasks st) = length ?rest + length ?done"
    using sum_length_filter_compl [of is_completed "tasks st"] by simp
  have r: "fst (handleClearCompleted st) = JUndefined"
    by (simp add: handleClearCompleted_def Let_def)
  have t: "tasks (snd (handleClearCompleted st)) = ?rest"
  proof (cases "?done = []")
    case True
    then have "\<forall>task \<in> set (tasks st). \<not> is_completed task"
      by (simp add: filter_empty_conv)
    then have "?rest = tasks st" by simp
    with True show ?thesis by (simp add: handleClearCompleted_def)
  next
    case False
    then show ?thesis by (simp add: handleClearCompleted_def Let_def)
  qed
  have a: "announcements (snd (handleClearCompleted st))
       = (if ?done = [] then announcements st
          else announcements st @ [cleared_message (length ?done)])"
    by (simp add: handleClearCompleted_def Let_def announceToScreenReader_def)
  have n: "?done = [] \<longrightarrow> snd (handleClearCompleted st) = st"
    by (simp add: handleClearCompleted_def)
  have again: "filter is_completed (tasks (snd (handleClearCompleted st))) = []"
    unfolding t by (rule filter_not_completed_idem)
  have z: "handleClearCompleted (snd (handleClearCompleted st))
      = (JUndefined, snd (handleClearCompleted st))"
    using again by (simp add: handleClearCompleted_def [of "snd (handleClearCompleted st)"])
  from parts r t a n z show ?thesis by simp
qed

theorem clearCompleted_announces_count_witness:
  "tasks (snd (handleClearCompleted demo_done)) = [[(lit ''completed'', JBool False)]]
   \<and> announcements (snd (handleClearCompleted demo_done)) = [lit ''1 completed task cleared'']
   \<and> snd (handleClearCompleted demo_owner) = demo_owner
   \<and> announcements (snd (handleClearCompleted (snd (handleClearCompleted demo_done))))
       = [lit ''1 completed task cleared'']"
proof -
  have m: "cleared_message (Suc 0) = lit ''1 completed task cleared''"
    by (simp add: cleared_message_def show_nat_digit lit_def)
  have o: "filter is_completed (tasks demo_owner) = []"
    by (simp add: demo_owner_def fresh_app_def is_completed_def obj_get_def truthy_def lit_def)
  from clearCompleted_announces_count [of demo_done] clearCompleted_announces_count [of demo_owner]
  show ?thesis
    by (simp add: demo_done_facts m o)
qed

lemma token_of_plain_user: "\<exists>token. generateMockToken plain_user 10 10 = Some token"
  by (simp add: generateMockToken_def btoa_def token_header_def token_payload_def plain_user_def
      session_lifetime_def print_defs show_nat.simps digit_char_def)

lemma logged_in_facts:
  "currentUser logged_in = session_of plain_user 10"
  "auth_currentUser logged_in = session_of plain_user 10"
  "tasks logged_in = []"
  "pathname logged_in = lit ''/index.html''"
proof -
  obtain token where t: "generateMockToken plain_user 10 10 = Some token"
    using token_of_plain_user by blast
  have fu: "findUser ''user'' ''user123'' = Some plain_user" by code_simp
  have k: "userTaskKey (session_of plain_user 10) = Some (lit ''tasks_user456'')"
    by (simp add: userTaskKey_def session_of_def get_prop_def obj_get_def plain_user_def lit_def)
  have d: "lit ''tasks_user456'' \<noteq> KEY_AUTH_TOKEN" "lit ''tasks_user456'' \<noteq> KEY_USER_SESSION"
    "lit ''tasks_user456'' \<noteq> KEY_LOGIN_TIME"
    by (simp_all add: key_defs lit_def)
  have tr: "truthy (session_of plain_user 10)"
    by (simp add: session_of_def truthy_def)
  show "currentUser logged_in = session_of plain_user 10"
    "auth_currentUser logged_in = session_of plain_user 10"
    "tasks logged_in = []"
    "pathname logged_in = lit ''/index.html''"
    by (simp_all add: logged_in_def init_def login_def fu t Let_def getCurrentUser_def
        saveUserSession_def ls_setItem_def ls_getItem_def fresh_app_def empty_storage_def
        loadTasks_def loadTasks_try_def k d tr token_truthy_def)
qed

lemma logged_in_authenticated: "isAuthenticated logged_in = Some True"
  by (simp add: isAuthenticated_def logged_in_facts session_of_def get_prop_def obj_get_def lit_def)

lemma logged_in_owner: "get_prop (currentUser logged_in) (lit ''id'') = Some (JStr (lit ''user456''))"
  by (simp add: logged_in_facts session_of_def get_prop_def obj_get_def plain_user_def)

lemma logged_out_facts:
  "currentUser logged_out = session_of plain_user 10"
  "auth_currentUser logged_out = JNull"
  "tasks logged_out = []"
  by (simp_all add: logged_out_def logout_def Let_def clearUserSession_def redirectToLogin_def
      announceToScreenReader_def logged_in_facts split: option.splits)

lemma logged_out_owner:
  "get_prop (currentUser logged_out) (lit ''id'') = Some (JStr (lit ''user456''))"
  by (simp add: logged_out_facts session_of_def get_prop_def obj_get_def plain_user_def)

lemma logged_out_not_authenticated: "isAuthenticated logged_out = Some False"
  by (simp add: isAuthenticated_def logged_out_facts)

lemma trim_units_examples:
  "trim_units (lit ''Buy milk'') = lit ''Buy milk''"
  "trim_units (lit '' Buy milk '') = lit ''Buy milk''"
  "trim_units (lit ''   '') = []"
  by (simp_all add: trim_units_def is_space_def lit_def)

text \<open>
  C7, as stated, fails in its second half, in two ways. After the session manager has
  logged the user out, the task store still has its owner, and a text with a non-empty
  trim is not appended: \<open>handleAddTask\<close> asks for the login page and leaves the list
  as it was. And with a session, the record that is appended for the text
  \<open>" Buy milk "\<close> does not carry that text but the trimmed one.
\<close>

theorem handleAddTask_unauthenticated_counterexample:
  "trim_units (lit ''Buy milk'') \<noteq> []
   \<and> get_prop (currentUser logged_out) (lit ''id'') = Some (JStr (lit ''user456''))
   \<and> fst (handleAddTask logged_out (lit ''Buy milk'') 1 2) = NotAuthenticated
   \<and> tasks (snd (handleAddTask logged_out (lit ''Buy milk'') 1 2)) = tasks logged_out
   \<and> trim_units (lit '' Buy milk '') \<noteq> []
   \<and> tasks (snd (handleAddTask logged_in (lit '' Buy milk '') 1 2))
       = tasks logged_in @ [new_task (lit ''Buy milk'') 1 2 (JStr (lit ''user456''))]
   \<and> obj_get (new_task (lit ''Buy milk'') 1 2 (JStr (lit ''user456''))) (lit ''text'')
       \<noteq> JStr (lit '' Buy milk '')"
proof -
  have ne: "lit ''Buy milk'' \<noteq> []" by (simp add: lit_def)
  have a: "fst (handleAddTask logged_out (lit ''Buy milk'') 1 2) = NotAuthenticated"
    "tasks (snd (handleAddTask logged_out (lit ''Buy milk'') 1 2)) = tasks logged_out"
    using logged_out_not_authenticated ne
    by (simp_all add: handleAddTask_def Let_def trim_units_examples)
  have b: "tasks (snd (handleAddTask logged_in (lit '' Buy milk '') 1 2))
       = tasks logged_in @ [new_task (lit ''Buy milk'') 1 2 (JStr (lit ''user456''))]"
    using logged_in_authenticated logged_in_owner ne
    by (simp add: handleAddTask_def Let_def trim_units_examples)
  have c: "obj_get (new_task (lit ''Buy milk'') 1 2 (JStr (lit ''user456''))) (lit ''text'')
       \<noteq> JStr (lit '' Buy milk '')"
    by (simp add: new_task_def obj_get_def lit_def)
  from a b c ne logged_out_owner show ?thesis
    by (simp add: trim_units_examples)
qed

text \<open>
  C7, amended. For every input whose trimmed form is empty, \<open>handleAddTask\<close> returns
  early and the whole state (task list and storage) is unchanged. For every input with a
  non-empty trim: if the session manager answers that no session is authenticated,
  nothing is appended, stored or announced and the login page is requested; if a session
  is authenticated and the task store has a current user, exactly one record is
  appended, with the trimmed text, \<open>completed = false\<close> and the \<open>id\<close> of that
  user; in the remaining cases, where a session is authenticated and the current user of
  the task store is \<open>null\<close> or \<open>undefined\<close>, or where the check of the session
  itself throws, the function stops with a TypeError and the state is unchanged.
\<close>

theorem handleAddTask_outcomes:
  "(trim_units input = [] \<longrightarrow> handleAddTask st input t_id t_created = (EmptyText, st))
   \<and> (trim_units input \<noteq> [] \<and> isAuthenticated st = Some False \<longrightarrow>
        fst (handleAddTask st input t_id t_created) = NotAuthenticated
        \<and> tasks (snd (handleAddTask st input t_id t_created)) = tasks st
        \<and> localStorage (snd (handleAddTask st input t_id t_created)) = localStorage st
        \<and> announcements (snd (handleAddTask st input t_id t_created)) = announcements st
        \<and> navigation (snd (handleAddTask st input t_id t_created))
            = (if includes_str (pathname st) (lit ''login.html'') then navigation st
               else Some (lit ''login.html'')))
   \<and> (trim_units input \<noteq> []
        \<and> (isAuthenticated st = None
            \<or> isAuthenticated st = Some True
               \<and> (currentUser st = JNull \<or> currentUser st = JUndefined)) \<longrightarrow>
        handleAddTask st input t_id t_created = (Threw, st))
   \<and> (trim_units input \<noteq> [] \<and> isAuthenticated st = Some True
        \<and> currentUser st \<noteq> JNull \<and> currentUser st \<noteq> JUndefined \<longrightarrow>
        (\<exists>task owner. get_prop (currentUser st) (lit ''id'') = Some owner
           \<and> fst (handleAddTask st input t_id t_created) = Added task
           \<and> tasks (snd (handleAddTask st input t_id t_created)) = tasks st @ [task]
           \<and> obj_get task (lit ''text'') = JStr (trim_units input)
           \<and> obj_get task (lit ''completed'') = JBool False
           \<and> obj_get task (lit ''userId'') = owner))"
proof -
  have 1: "trim_units input = [] \<longrightarrow> handleAddTask st input t_id t_created = (EmptyText, st)"
    by (simp add: handleAddTask_def)
  have 2: "trim_units input \<noteq> [] \<and> isAuthenticated st = Some False \<longrightarrow>
        fst (handleAddTask st input t_id t_created) = NotAuthenticated
        \<and> tasks (snd (handleAddTask st input t_id t_created)) = tasks st
        \<and> localStorage (snd (handleAddTask st input t_id t_created)) = localStorage st
        \<and> announcements (snd (handleAddTask st input t_id t_created)) = announcements st
        \<and> navigation (snd (handleAddTask st input t_id t_created))
            = (if includes_str (pathname st) (lit ''login.html'') then navigation st
               else Some (lit ''login.html''))"
    by (simp add: handleAddTask_def Let_def redirectToLogin_def)
  have 3: "trim_units input \<noteq> []
        \<and> (isAuthenticated st = None
            \<or> isAuthenticated st = Some True
               \<and> (currentUser st = JNull \<or> currentUser st = JUndefined)) \<longrightarrow>
        handleAddTask st input t_id t_created = (Threw, st)"
    by (auto simp: handleAddTask_def Let_def get_prop_def)
  have 4: "trim_units input \<noteq> [] \<and> isAuthenticated st = Some True
        \<and> currentUser st \<noteq> JNull \<and> currentUser st \<noteq> JUndefined \<longrightarrow>
        (\<exists>task owner. get_prop (currentUser st) (lit ''id'') = Some owner
           \<and> fst (handleAddTask st input t_id t_created) = Added task
           \<and> tasks (snd (handleAddTask st input t_id t_created)) = tasks st @ [task]
           \<and> obj_get task (lit ''text'') = JStr (trim_units input)
           \<and> obj_get task (lit ''completed'') = JBool False
           \<and> obj_get task (lit ''userId'') = owner)"
  proof (intro impI, elim conjE)
    assume a: "trim_units input \<noteq> []" "isAuthenticated st = Some True" "currentUser st \<noteq> JNull"
      "currentUser st \<noteq> JUndefined"
    then obtain owner where o: "get_prop (currentUser st) (lit ''id'') = Some owner"
      using get_prop_None [of "currentUser st" "lit ''id''"] by (cases "get_prop (currentUser st) (lit ''id'')") auto
    let ?task = "new_task (trim_units input) t_id t_created owner"
    have "fst (handleAddTask st input t_id t_created) = Added ?task"
      "tasks (snd (handleAddTask st input t_id t_created)) = tasks st @ [?task]"
      using a o by (simp_all add: handleAddTask_def Let_def)
    moreover have "obj_get ?task (lit ''text'') = JStr (trim_units input)"
      "obj_get ?task (lit ''completed'') = JBool False" "obj_get ?task (lit ''userId'') = owner"
      by (simp_all add: new_task_def obj_get_def lit_def)
    ultimately show "\<exists>task owner. get_prop (currentUser st) (lit ''id'') = Some owner
           \<and> fst (handleAddTask st input t_id t_created) = Added task
           \<and> tasks (snd (handleAddTask st input t_id t_created)) = tasks st @ [task]
           \<and> obj_get task (lit ''text'') = JStr (trim_units input)
           \<and> obj_get task (lit ''completed'') = JBool False
           \<and> obj_get task (lit ''userId'') = owner"
      using o by blast
  qed
  from 1 2 3 4 show ?thesis by blast
qed

theorem handleAddTask_outcomes_witness:
  "handleAddTask logged_in (lit ''   '') 1 2 = (EmptyText, logged_in)
   \<and> fst (handleAddTask logged_out (lit ''Buy milk'') 1 2) = NotAuthenticated
   \<and> handleAddTask (logged_in\<lparr>currentUser := JNull\<rparr>) (lit ''Buy milk'') 1 2
       = (Threw, logged_in\<lparr>currentUser := JNull\<rparr>)
   \<and> tasks (snd (handleAddTask logged_in (lit '' Buy milk '') 1 2))
      = [new_task (lit ''Buy milk'') 1 2 (JStr (lit ''user456''))]"
proof -
  have ne: "lit ''Buy milk'' \<noteq> []" by (simp add: lit_def)
  have u: "currentUser logged_in \<noteq> JNull" "currentUser logged_in \<noteq> JUndefined"
    by (simp_all add: logged_in_facts session_of_def)
  have au: "isAuthenticated (logged_in\<lparr>currentUser := JNull\<rparr>) = Some True"
    using logged_in_authenticated by (simp add: isAuthenticated_def split: if_splits)
  from handleAddTask_outcomes [where input = "lit ''   ''" and st = logged_in and t_id = 1 and t_created = 2]
  have 1: "handleAddTask logged_in (lit ''   '') 1 2 = (EmptyText, logged_in)"
    by (simp add: trim_units_examples)
  from handleAddTask_outcomes [where input = "lit ''Buy milk''" and st = logged_out and t_id = 1 and t_created = 2]
    logged_out_not_authenticated ne
  have 2: "fst (handleAddTask logged_out (lit ''Buy milk'') 1 2) = NotAuthenticated"
    by (simp add: trim_units_examples)
  from handleAddTask_outcomes [where input = "lit ''Buy milk''" and st = "logged_in\<lparr>currentUser := JNull\<rparr>"
      and t_id = 1 and t_created = 2] au ne
  have 3: "handleAddTask (logged_in\<lparr>currentUser := JNull\<rparr>) (lit ''Buy milk'') 1 2
       = (Threw, logged_in\<lparr>currentUser := JNull\<rparr>)"
    by (simp add: trim_units_examples)
  from handleAddTask_outcomes [where input = "lit '' Buy milk ''" and st = logged_in and t_id = 1 and t_created = 2]
    logged_in_authenticated u ne
  obtain task owner where k: "get_prop (currentUser logged_in) (lit ''id'') = Some owner"
    "fst (handleAddTask logged_in (lit '' Buy milk '') 1 2) = Added task"
    "tasks (snd (handleAddTask logged_in (lit '' Buy milk '') 1 2)) = tasks logged_in @ [task]"
    by (auto simp: trim_units_examples)
  have "fst (handleAddTask logged_in (lit '' Buy milk '') 1 2)
      = Added (new_task (lit ''Buy milk'') 1 2 (JStr (lit ''user456'')))"
    using logged_in_authenticated logged_in_owner ne
    by (simp add: handleAddTask_def Let_def trim_units_examples)
  with k(2) have "task = new_task (lit ''Buy milk'') 1 2 (JStr (lit ''user456''))" by simp
  with k(3) have 4: "tasks (snd (handleAddTask logged_in (lit '' Buy milk '') 1 2))
      = [new_task (lit ''Buy milk'') 1 2 (JStr (lit ''user456''))]"
    by (simp add: logged_in_facts)
  from 1 2 3 4 show ?thesis by simp
qed

section \<open>Properties of the key-value store adapter\<close>

lemma shadowed_text_parse:
  "JSON_parse (lit ''{\"value\":5,\"timestamp\":1,\"type\":\"number\",\"hasOwnProperty\":1}'')
    = Some (JObj [(lit ''value'', JNum 5), (lit ''timestamp'', JNum 1),
                  (lit ''type'', JStr (lit ''number'')), (lit ''hasOwnProperty'', JNum 1)])"
  by (simp add: tokenize.simps lex_defs parse_defs show_nat_digit)

lemma envelope_text_parse:
  "JSON_parse (lit ''{\"value\":5,\"timestamp\":1,\"type\":\"number\"}'')
    = Some (JObj [(lit ''value'', JNum 5), (lit ''timestamp'', JNum 1),
                  (lit ''type'', JStr (lit ''number''))])"
  by (simp add: tokenize.simps lex_defs parse_defs show_nat_digit)

text \<open>
  C9 fails at one kind of entry, against the comment "Handle legacy items" at the call:
  an entry that is envelope-shaped and has, besides, an own member named
  \<open>hasOwnProperty\<close> makes the call \<open>parsed.hasOwnProperty('value')\<close> throw, the
  member being a number and no function, and \<open>getItem\<close> returns the default instead of
  the envelope's value \<open>5\<close>. Without that member the same envelope gives \<open>5\<close>.
\<close>

theorem getItem_shadowed_hasOwnProperty:
  "is_envelope_text (lit ''{\"value\":5,\"timestamp\":1,\"type\":\"number\",\"hasOwnProperty\":1}'')
   \<and> getItem \<lparr>isAvailable = True, inMemoryStorage = Map.empty, inMemoryProto = None\<rparr>
        (empty_storage\<lparr>items := [lit ''k'' \<mapsto>
           lit ''{\"value\":5,\"timestamp\":1,\"type\":\"number\",\"hasOwnProperty\":1}'']\<rparr>)
        (lit ''k'') (JStr (lit ''default'')) = JStr (lit ''default'')
   \<and> getItem \<lparr>isAvailable = True, inMemoryStorage = Map.empty, inMemoryProto = None\<rparr>
        (empty_storage\<lparr>items := [lit ''k'' \<mapsto>
           lit ''{\"value\":5,\"timestamp\":1,\"type\":\"number\"}'']\<rparr>)
        (lit ''k'') (JStr (lit ''default'')) = JNum 5"
proof -
  have a: "call_hasOwnProperty (JObj [(lit ''value'', JNum 5), (lit ''timestamp'', JNum 1),
             (lit ''type'', JStr (lit ''number'')), (lit ''hasOwnProperty'', JNum 1)]) (lit ''value'') = None"
    by (simp add: call_hasOwnProperty_def lit_def)
  have b: "call_hasOwnProperty (JObj [(lit ''value'', JNum 5), (lit ''timestamp'', JNum 1),
             (lit ''type'', JStr (lit ''number''))]) (lit ''value'') = Some True"
    by (simp add: call_hasOwnProperty_def lit_def)
  have c: "get_prop (JObj [(lit ''value'', JNum 5), (lit ''timestamp'', JNum 1),
             (lit ''type'', JStr (lit ''number''))]) (lit ''value'') = Some (JNum 5)"
    by (simp add: get_prop_def obj_get_def)
  have e: "is_envelope_text
      (lit ''{\"value\":5,\"timestamp\":1,\"type\":\"number\",\"hasOwnProperty\":1}'')"
    by (simp add: is_envelope_text_def shadowed_text_parse)
  show ?thesis
    using e
    by (simp add: getItem_def getItem_try_def ls_getItem_def empty_storage_def
        shadowed_text_parse envelope_text_parse a b c)
qed

lemma saveUserSession_items:
  assumes "\<not> blocked (localStorage st)" "\<not> full (localStorage st)"
  shows "items (localStorage (saveUserSession st t_saved)) =
           (items (localStorage st))
             (KEY_AUTH_TOKEN \<mapsto> token_text (authToken st),
              KEY_USER_SESSION \<mapsto> stored_text (auth_currentUser st),
              KEY_LOGIN_TIME \<mapsto> toISOString t_saved)"
  using assms by (simp add: saveUserSession_def ls_setItem_def)

lemma saveTasks_items:
  assumes "\<not> blocked (localStorage st)" "\<not> full (localStorage st)" "truthy (currentUser st)"
    "userTaskKey (currentUser st) = Some k"
  shows "items (localStorage (saveTasks st)) =
           (items (localStorage st))(k \<mapsto> serialize (JArr (map JObj (tasks st))))"
  using assms by (simp add: saveTasks_def ls_setItem_def)

text \<open>
  C6, amended. Only a value written through \<open>StorageManager.setItem\<close> is wrapped: on an
  available store that accepts the write, \<open>setItem\<close> stores the serialisation of the
  object with the members \<open>value\<close>, \<open>timestamp\<close> and \<open>type\<close>. The session manager
  and the task store do not go through the adapter: \<open>saveUserSession\<close> stores the token
  as it is and the session record as its bare JSON text, and \<open>saveTasks\<close> stores the
  bare JSON array of the task list, each directly in \<open>localStorage\<close>.
\<close>

theorem envelope_only_in_adapter:
  "(isAvailable sm \<and> \<not> blocked ls \<and> \<not> full ls \<longrightarrow>
      setItem sm ls key v now
        = (True, sm, ls\<lparr>items := (items ls)(key \<mapsto> serialize (envelope v now))\<rparr>)
      \<and> envelope v now
        = JObj [(lit ''value'', v), (lit ''timestamp'', JNum now), (lit ''type'', JStr (typeof v))])
   \<and> (\<not> blocked (localStorage st) \<and> \<not> full (localStorage st) \<longrightarrow>
      items (localStorage (saveUserSession st t_saved)) KEY_AUTH_TOKEN
        = Some (token_text (authToken st))
      \<and> items (localStorage (saveUserSession st t_saved)) KEY_USER_SESSION
        = Some (stored_text (auth_currentUser st)))
   \<and> (\<not> blocked (localStorage st) \<and> \<not> full (localStorage st) \<and> truthy (currentUser st)
       \<and> userTaskKey (currentUser st) = Some k \<longrightarrow>
      items (localStorage (saveTasks st)) k = Some (serialize (JArr (map JObj (tasks st)))))"
proof -
  have a: "isAvailable sm \<and> \<not> blocked ls \<and> \<not> full ls \<longrightarrow>
      setItem sm ls key v now
        = (True, sm, ls\<lparr>items := (items ls)(key \<mapsto> serialize (envelope v now))\<rparr>)
      \<and> envelope v now
        = JObj [(lit ''value'', v), (lit ''timestamp'', JNum now), (lit ''type'', JStr (typeof v))]"
    by (simp add: setItem_def ls_setItem_def envelope_def)
  have b: "\<not> blocked (localStorage st) \<and> \<not> full (localStorage st) \<longrightarrow>
      items (localStorage (saveUserSession st t_saved)) KEY_AUTH_TOKEN
        = Some (token_text (authToken st))
      \<and> items (localStorage (saveUserSession st t_saved)) KEY_USER_SESSION
        = Some (stored_text (auth_currentUser st))"
    by (simp add: saveUserSession_items key_distinct)
  have c: "\<not> blocked (localStorage st) \<and> \<not> full (localStorage st) \<and> truthy (currentUser st)
       \<and> userTaskKey (currentUser st) = Some k \<longrightarrow>
      items (localStorage (saveTasks st)) k = Some (serialize (JArr (map JObj (tasks st))))"
    by (simp add: saveTasks_items)
  from a b c show ?thesis by blast
qed

lemma demo_owner_facts:
  "\<not> blocked (localStorage demo_owner)" "\<not> full (localStorage demo_owner)"
  "truthy (currentUser demo_owner)" "userTaskKey (currentUser demo_owner) = Some (lit ''tasks_u1'')"
  "tasks demo_owner = [[(lit ''text'', JStr (lit ''a''))]]"
  "auth_currentUser demo_owner = JObj [(lit ''id'', JStr (lit ''u1''))]"
  "authToken demo_owner = Some (lit ''a.b.c'')"
  by (simp_all add: demo_owner_def fresh_app_def empty_storage_def truthy_def userTaskKey_def
      get_prop_def obj_get_def lit_def)

lemma demo_texts:
  "serialize (JArr [JObj [(lit ''text'', JStr (lit ''a''))]]) = lit ''[{\"text\":\"a\"}]''"
  "stored_text (JObj [(lit ''id'', JStr (lit ''u1''))]) = lit ''{\"id\":\"u1\"}''"
  "serialize (envelope (JStr (lit ''x'')) 7)
     = lit ''{\"value\":\"x\",\"timestamp\":7,\"type\":\"string\"}''"
  by (simp_all add: print_defs stored_text_def JSON_stringify_def envelope_def typeof_def
      show_nat_digit)

lemma demo_parses:
  "JSON_parse (lit ''[{\"text\":\"a\"}]'') = Some (JArr [JObj [(lit ''text'', JStr (lit ''a''))]])"
  "JSON_parse (lit ''{\"id\":\"u1\"}'') = Some (JObj [(lit ''id'', JStr (lit ''u1''))])"
  "JSON_parse (lit ''a.b.c'') = None"
  by (simp_all add: tokenize.simps lex_defs parse_defs)

text \<open>
  C6, as stated, fails: what \<open>saveTasks\<close> and \<open>saveUserSession\<close> store is no
  envelope. The task list is stored as a JSON array, the session as the JSON object of
  its own fields, and the token as a text that is no JSON at all.
\<close>

theorem bare_writes_counterexample:
  "items (localStorage (saveTasks demo_owner)) (lit ''tasks_u1'') = Some (lit ''[{\"text\":\"a\"}]'')
   \<and> \<not> is_envelope_text (lit ''[{\"text\":\"a\"}]'')
   \<and> items (localStorage (saveUserSession demo_owner 0)) KEY_USER_SESSION
       = Some (lit ''{\"id\":\"u1\"}'')
   \<and> \<not> is_envelope_text (lit ''{\"id\":\"u1\"}'')
   \<and> items (localStorage (saveUserSession demo_owner 0)) KEY_AUTH_TOKEN = Some (lit ''a.b.c'')
   \<and> \<not> is_envelope_text (lit ''a.b.c'')"
proof -
  have t: "items (localStorage (saveTasks demo_owner)) (lit ''tasks_u1'')
      = Some (lit ''[{\"text\":\"a\"}]'')"
    by (simp add: saveTasks_items [OF demo_owner_facts(1-4)] demo_owner_facts(5) demo_texts(1)
        del: serialize.simps)
  have s: "items (localStorage (saveUserSession demo_owner 0)) KEY_USER_SESSION
      = Some (lit ''{\"id\":\"u1\"}'')"
    by (simp add: saveUserSession_items [OF demo_owner_facts(1,2)] demo_owner_facts(6)
        demo_texts(2) key_distinct)
  have k: "items (localStorage (saveUserSession demo_owner 0)) KEY_AUTH_TOKEN = Some (lit ''a.b.c'')"
    by (simp add: saveUserSession_items [OF demo_owner_facts(1,2)] demo_owner_facts(7)
        key_distinct token_text_def)
  have e: "\<not> is_envelope_text (lit ''[{\"text\":\"a\"}]'')"
    "\<not> is_envelope_text (lit ''{\"id\":\"u1\"}'')" "\<not> is_envelope_text (lit ''a.b.c'')"
    by (simp_all add: is_envelope_text_def demo_parses) (simp_all add: lit_def)
  from t s k e show ?thesis by simp
qed

theorem envelope_only_in_adapter_witness:
  "setItem \<lparr>isAvailable = True, inMemoryStorage = Map.empty, inMemoryProto = None\<rparr> empty_storage
       (lit ''k'') (JStr (lit ''x'')) 7
     = (True, \<lparr>isAvailable = True, inMemoryStorage = Map.empty, inMemoryProto = None\<rparr>,
        empty_storage\<lparr>items := [lit ''k'' \<mapsto>
          lit ''{\"value\":\"x\",\"timestamp\":7,\"type\":\"string\"}'']\<rparr>)
   \<and> items (localStorage (saveUserSession demo_owner 0)) KEY_AUTH_TOKEN = Some (lit ''a.b.c'')
   \<and> items (localStorage (saveTasks demo_owner)) (lit ''tasks_u1'')
       = Some (lit ''[{\"text\":\"a\"}]'')"
proof -
  have e: "\<not> blocked empty_storage" "\<not> full empty_storage" "items empty_storage = Map.empty"
    by (simp_all add: empty_storage_def)
  from envelope_only_in_adapter
    [where sm = "\<lparr>isAvailable = True, inMemoryStorage = Map.empty, inMemoryProto = None\<rparr>"
       and ls = empty_storage and key = "lit ''k''" and v = "JStr (lit ''x'')" and now = 7
       and st = demo_owner and t_saved = 0 and k = "lit ''tasks_u1''"]
  show ?thesis
    using e demo_owner_facts demo_texts
    by (simp add: token_text_def key_distinct del: serialize.simps)
qed

section \<open>Properties of the load\<close>

lemma filter_throwing_Some:
  "filter_throwing p xs = Some ys \<Longrightarrow> ys = filter (\<lambda>x. p x = Some True) xs \<and> (\<forall>x \<in> set xs. p x \<noteq> None)"
  by (induction xs arbitrary: ys) (auto split: option.splits)

lemma filter_throwing_total:
  "\<forall>x \<in> set xs. p x \<noteq> None \<Longrightarrow> filter_throwing p xs = Some (filter (\<lambda>x. p x = Some True) xs)"
  by (induction xs) (auto split: option.splits)

lemma map_throwing_eq:
  "\<forall>x \<in> set xs. f x = Some (g x) \<Longrightarrow> map_throwing f xs = Some (map g xs)"
  by (induction xs) auto

lemma map_of_obj_insert: "k \<notin> fst ` set ps \<Longrightarrow> map_of (obj_insert k v ps) k = Some v"
  by (induction ps) auto

lemma map_of_replace:
  "k \<in> fst ` set ps \<Longrightarrow> map_of (map (\<lambda>p. if fst p = k then (k, v) else p) ps) k = Some v"
  by (induction ps) auto

lemma obj_get_obj_set: "obj_get (obj_set k v ps) k = v"
  by (simp add: obj_get_def obj_set_def map_of_obj_insert map_of_replace)

lemma strict_equals_eq: "strict_equals a b \<Longrightarrow> a = b"
  by (cases a) (auto simp: strict_equals_def)

lemma userTaskKey_name:
  "get_prop cu (lit ''id'') = Some B \<Longrightarrow> userTaskKey cu = map_option (\<lambda>s. lit ''tasks_'' @ s) (to_string B)"
  by (simp add: userTaskKey_def)

lemma keeps_task_kept:
  assumes "get_prop cu (lit ''id'') = Some B"
  shows "keeps_task cu r = (if r = JNull \<or> r = JUndefined then None else Some (kept_for B r))"
proof (cases "get_prop r (lit ''userId'')")
  case None
  then have "r = JNull \<or> r = JUndefined" by (simp add: get_prop_None)
  with None show ?thesis by (auto simp: keeps_task_def)
next
  case (Some uid)
  then have "\<not> (r = JNull \<or> r = JUndefined)"
    using get_prop_None [of r "lit ''userId''"] by auto
  with Some assms show ?thesis by (simp add: keeps_task_def kept_for_def)
qed

lemma stamp_task_kept:
  assumes "get_prop cu (lit ''id'') = Some B" "kept_for B r"
  shows "stamp_task cu r = Some (obj_set (lit ''userId'') B (spread_props r))"
proof -
  from assms(2) obtain uid where u: "get_prop r (lit ''userId'') = Some uid"
    "\<not> truthy uid \<or> strict_equals uid B"
    by (auto simp: kept_for_def split: option.splits)
  show ?thesis
  proof (cases "truthy uid")
    case True
    with u(2) have "uid = B" by (auto dest: strict_equals_eq)
    with True u(1) show ?thesis by (simp add: stamp_task_def)
  next
    case False
    with u(1) assms(1) show ?thesis by (simp add: stamp_task_def)
  qed
qed

text \<open>What the two passes of \<open>loadTasks\<close> make of a parsed array.\<close>

lemma passes_readable:
  assumes id: "get_prop cu (lit ''id'') = Some B" and ok: "JNull \<notin> set recs" "JUndefined \<notin> set recs"
  shows "filter_throwing (keeps_task cu) recs = Some (filter (kept_for B) recs)"
    and "map_throwing (stamp_task cu) (filter (kept_for B) recs) = Some (repaired B recs)"
proof -
  have "\<forall>r \<in> set recs. keeps_task cu r \<noteq> None"
    using ok by (auto simp: keeps_task_kept [OF id])
  then have "filter_throwing (keeps_task cu) recs = Some (filter (\<lambda>r. keeps_task cu r = Some True) recs)"
    by (rule filter_throwing_total)
  moreover have "filter (\<lambda>r. keeps_task cu r = Some True) recs = filter (kept_for B) recs"
    using ok by (intro filter_cong [OF refl]) (auto simp: keeps_task_kept [OF id])
  ultimately show "filter_throwing (keeps_task cu) recs = Some (filter (kept_for B) recs)"
    by simp
  have "\<forall>r \<in> set (filter (kept_for B) recs). stamp_task cu r
          = Some (obj_set (lit ''userId'') B (spread_props r))"
    using stamp_task_kept [OF id] by simp
  then show "map_throwing (stamp_task cu) (filter (kept_for B) recs) = Some (repaired B recs)"
    unfolding repaired_def by (rule map_throwing_eq)
qed

lemma passes_unreadable:
  assumes id: "get_prop cu (lit ''id'') = Some B" and bad: "JNull \<in> set recs \<or> JUndefined \<in> set recs"
  shows "filter_throwing (keeps_task cu) recs = None"
proof -
  from bad obtain r where "r \<in> set recs" "keeps_task cu r = None"
    by (auto simp: keeps_task_kept [OF id])
  then show ?thesis
    using filter_throwing_Some [of "keeps_task cu" recs]
    by (cases "filter_throwing (keeps_task cu) recs") auto
qed

text \<open>The state that \<open>loadTasks\<close> leaves, by the entry stored under the key of the owner.\<close>

lemma loadTasks_state:
  assumes tr: "truthy (currentUser st)" and id: "get_prop (currentUser st) (lit ''id'') = Some B"
    and name: "to_string B = Some name"
  shows "loadTasks st =
     (case ls_getItem (localStorage st) (lit ''tasks_'' @ name) of
        Some (Some raw) \<Rightarrow>
          (if raw = [] then st\<lparr>tasks := []\<rparr>
           else (case JSON_parse raw of
                   Some (JArr recs) \<Rightarrow>
                     (if JNull \<notin> set recs \<and> JUndefined \<notin> set recs
                      then saveTasks (st\<lparr>tasks := repaired B recs\<rparr>)
                      else st\<lparr>tasks := []\<rparr>)
                 | _ \<Rightarrow> st\<lparr>tasks := []\<rparr>))
      | _ \<Rightarrow> st\<lparr>tasks := []\<rparr>)"
proof -
  have key: "userTaskKey (currentUser st) = Some (lit ''tasks_'' @ name)"
    using id name by (simp add: userTaskKey_name)
  show ?thesis
  proof (cases "ls_getItem (localStorage st) (lit ''tasks_'' @ name)")
    case None
    with tr key show ?thesis by (simp add: loadTasks_def loadTasks_try_def)
  next
    case (Some stored)
    show ?thesis
    proof (cases stored)
      case None
      with Some tr key show ?thesis
        by (simp add: loadTasks_def loadTasks_try_def token_truthy_def)
    next
      case (Some raw)
      note st = \<open>ls_getItem (localStorage st) (lit ''tasks_'' @ name) = Some stored\<close> Some
      show ?thesis
      proof (cases "raw = []")
        case True
        with st tr key show ?thesis
          by (simp add: loadTasks_def loadTasks_try_def token_truthy_def)
      next
        case ne: False
        show ?thesis
        proof (cases "\<exists>recs. JSON_parse raw = Some (JArr recs)")
          case False
          with st tr key ne show ?thesis
            by (auto simp: loadTasks_def loadTasks_try_def token_truthy_def
                split: option.splits jsval.splits)
        next
          case True
          then obtain recs where recs: "JSON_parse raw = Some (JArr recs)" by blast
          show ?thesis
          proof (cases "JNull \<notin> set recs \<and> JUndefined \<notin> set recs")
            case True
            then have ok: "JNull \<notin> set recs" "JUndefined \<notin> set recs" by simp_all
            from st tr key ne recs True passes_readable [OF id ok] show ?thesis
              by (simp add: loadTasks_def loadTasks_try_def token_truthy_def)
          next
            case False
            then have "JNull \<in> set recs \<or> JUndefined \<in> set recs" by simp
            from st tr key ne recs False passes_unreadable [OF id this] show ?thesis
              by (auto simp: loadTasks_def loadTasks_try_def token_truthy_def)
          qed
        qed
      qed
    qed
  qed
qed

lemma loadTasks_tasks:
  assumes tr: "truthy (currentUser st)" and id: "get_prop (currentUser st) (lit ''id'') = Some B"
    and name: "to_string B = Some name"
  shows "tasks (loadTasks st) =
     (case ls_getItem (localStorage st) (lit ''tasks_'' @ name) of
        Some (Some raw) \<Rightarrow>
          (if raw = [] then []
           else (case JSON_parse raw of
                   Some (JArr recs) \<Rightarrow>
                     (if JNull \<notin> set recs \<and> JUndefined \<notin> set recs then repaired B recs else [])
                 | _ \<Rightarrow> []))
      | _ \<Rightarrow> [])"
  unfolding loadTasks_state [OF tr id name]
  by (simp split: option.splits jsval.splits)

lemma saveTasks_storage:
  assumes "truthy (currentUser st)" "userTaskKey (currentUser st) = Some key"
    "\<not> blocked (localStorage st)"
  shows "localStorage (saveTasks st) =
     (if full (localStorage st) then localStorage st
      else (localStorage st)\<lparr>items := (items (localStorage st))
              (key \<mapsto> serialize (JArr (map JObj (tasks st))))\<rparr>)"
  using assms by (simp add: saveTasks_def ls_setItem_def)

lemma loadTasks_no_owner:
  assumes "\<not> truthy (currentUser st) \<or> userTaskKey (currentUser st) = None"
  shows "loadTasks st = st\<lparr>tasks := []\<rparr>"
  using assms by (auto simp: loadTasks_def loadTasks_try_def)

lemma demo_current_user:
  "truthy (JObj [(lit ''id'', JStr (lit ''u1''))])"
  "get_prop (JObj [(lit ''id'', JStr (lit ''u1''))]) (lit ''id'') = Some (JStr (lit ''u1''))"
  "to_string (JStr (lit ''u1'')) = Some (lit ''u1'')"
  "userTaskKey (JObj [(lit ''id'', JStr (lit ''u1''))]) = Some (lit ''tasks_u1'')"
  "lit ''tasks_'' @ lit ''u1'' = lit ''tasks_u1''"
  by (simp_all add: truthy_def get_prop_def obj_get_def userTaskKey_def lit_def)

lemma demo_stored_facts:
  "currentUser demo_stored = JObj [(lit ''id'', JStr (lit ''u1''))]"
  "ls_getItem (localStorage demo_stored) (lit ''tasks_u1'')
     = Some (Some (lit ''[{\"text\":\"a\",\"userId\":\"u2\"},{\"text\":\"b\"}]''))"
  "\<not> full (localStorage demo_stored)"
  "items (localStorage demo_stored)
     = [lit ''tasks_u1'' \<mapsto> lit ''[{\"text\":\"a\",\"userId\":\"u2\"},{\"text\":\"b\"}]'']"
  by (simp_all add: demo_stored_def demo_owner_def fresh_app_def empty_storage_def ls_getItem_def)

lemma demo_zero_facts:
  "currentUser demo_zero = JObj [(lit ''id'', JStr (lit ''u1''))]"
  "ls_getItem (localStorage demo_zero) (lit ''tasks_u1'')
     = Some (Some (lit ''[{\"text\":\"a\",\"userId\":0}]''))"
  by (simp_all add: demo_zero_def demo_owner_def fresh_app_def empty_storage_def ls_getItem_def)

lemma demo_null_facts:
  "currentUser demo_null = JObj [(lit ''id'', JStr (lit ''u1''))]"
  "ls_getItem (localStorage demo_null) (lit ''tasks_u1'')
     = Some (Some (lit ''[null,{\"text\":\"b\"}]''))"
  by (simp_all add: demo_null_def demo_owner_def fresh_app_def empty_storage_def ls_getItem_def)

lemma demo_full_facts:
  "currentUser demo_full = JObj [(lit ''id'', JStr (lit ''u1''))]"
  "ls_getItem (localStorage demo_full) (lit ''tasks_u1'')
     = Some (Some (lit ''[{\"text\":\"a\",\"userId\":\"u2\"},{\"text\":\"b\"}]''))"
  "full (localStorage demo_full)" "\<not> blocked (localStorage demo_full)"
  by (simp_all add: demo_full_def demo_stored_def demo_owner_def fresh_app_def empty_storage_def
      ls_getItem_def)

lemma demo_list_parses:
  "JSON_parse (lit ''[{\"text\":\"a\",\"userId\":\"u2\"},{\"text\":\"b\"}]'')
     = Some (JArr [JObj [(lit ''text'', JStr (lit ''a'')), (lit ''userId'', JStr (lit ''u2''))],
                   JObj [(lit ''text'', JStr (lit ''b''))]])"
  "JSON_parse (lit ''[{\"text\":\"a\",\"userId\":0}]'')
     = Some (JArr [JObj [(lit ''text'', JStr (lit ''a'')), (lit ''userId'', JNum 0)]])"
  "JSON_parse (lit ''[null,{\"text\":\"b\"}]'')
     = Some (JArr [JNull, JObj [(lit ''text'', JStr (lit ''b''))]])"
  by (simp_all add: tokenize.simps lex_defs parse_defs)

lemmas repair_defs = repaired_def kept_for_def get_prop_def obj_get_def truthy_def
  strict_equals_def obj_set_def spread_props_def comes_before_def array_index_def is_digit_def
  lit_def

lemma demo_repairs:
  "repaired (JStr (lit ''u1''))
     [JObj [(lit ''text'', JStr (lit ''a'')), (lit ''userId'', JStr (lit ''u2''))],
      JObj [(lit ''text'', JStr (lit ''b''))]]
   = [[(lit ''text'', JStr (lit ''b'')), (lit ''userId'', JStr (lit ''u1''))]]"
  "repaired (JStr (lit ''u1'')) [JObj [(lit ''text'', JStr (lit ''a'')), (lit ''userId'', JNum 0)]]
   = [[(lit ''text'', JStr (lit ''a'')), (lit ''userId'', JStr (lit ''u1''))]]"
  by (simp_all add: repair_defs)

lemma demo_repaired_text:
  "serialize (JArr [JObj [(lit ''text'', JStr (lit ''b'')), (lit ''userId'', JStr (lit ''u1''))]])
     = lit ''[{\"text\":\"b\",\"userId\":\"u1\"}]''"
  by (simp add: print_defs)

text \<open>
  C1, as stated, fails in three ways. A stored record whose \<open>userId\<close> is set to the
  number zero, which differs from the owner \<open>u1\<close>, is not dropped: it is returned,
  relabelled as a record of \<open>u1\<close>. A stored list with a \<open>null\<close> element is not
  repaired at all: its record without owner is neither stamped nor persisted, the list
  is left empty and the storage as it was. And a storage that refuses the write keeps
  the unrepaired text.
\<close>

theorem loadTasks_repair_counterexample:
  "JSON_parse (lit ''[{\"text\":\"a\",\"userId\":0}]'')
     = Some (JArr [JObj [(lit ''text'', JStr (lit ''a'')), (lit ''userId'', JNum 0)]])
   \<and> tasks (loadTasks demo_zero)
       = [[(lit ''text'', JStr (lit ''a'')), (lit ''userId'', JStr (lit ''u1''))]]
   \<and> JSON_parse (lit ''[null,{\"text\":\"b\"}]'')
       = Some (JArr [JNull, JObj [(lit ''text'', JStr (lit ''b''))]])
   \<and> tasks (loadTasks demo_null) = []
   \<and> localStorage (loadTasks demo_null) = localStorage demo_null
   \<and> tasks (loadTasks demo_full)
       = [[(lit ''text'', JStr (lit ''b'')), (lit ''userId'', JStr (lit ''u1''))]]
   \<and> localStorage (loadTasks demo_full) = localStorage demo_full"
proof -
  have z: "tasks (loadTasks demo_zero)
       = [[(lit ''text'', JStr (lit ''a'')), (lit ''userId'', JStr (lit ''u1''))]]"
    using loadTasks_tasks [of demo_zero "JStr (lit ''u1'')" "lit ''u1''"]
    by (simp add: demo_zero_facts demo_current_user demo_list_parses demo_repairs)
  have n: "loadTasks demo_null = demo_null\<lparr>tasks := []\<rparr>"
    using loadTasks_state [of demo_null "JStr (lit ''u1'')" "lit ''u1''"]
    by (simp add: demo_null_facts demo_current_user demo_list_parses)
  have f: "loadTasks demo_full = saveTasks (demo_full
      \<lparr>tasks := [[(lit ''text'', JStr (lit ''b'')), (lit ''userId'', JStr (lit ''u1''))]]\<rparr>)"
    using loadTasks_state [of demo_full "JStr (lit ''u1'')" "lit ''u1''"]
    by (simp add: demo_full_facts demo_current_user demo_list_parses demo_repairs)
  have s: "localStorage (saveTasks (demo_full
      \<lparr>tasks := [[(lit ''text'', JStr (lit ''b'')), (lit ''userId'', JStr (lit ''u1''))]]\<rparr>))
      = localStorage demo_full"
    using saveTasks_storage [of "demo_full
      \<lparr>tasks := [[(lit ''text'', JStr (lit ''b'')), (lit ''userId'', JStr (lit ''u1''))]]\<rparr>"
      "lit ''tasks_u1''"]
    by (simp add: demo_full_facts demo_current_user)
  from z n f s show ?thesis
    by (simp add: demo_list_parses)
qed

text \<open>
  C1, amended. Let the task store have a current user whose \<open>id\<close> is \<open>B\<close>, with
  the text \<open>name\<close>. Every record that \<open>loadTasks\<close> leaves in the list carries the
  \<open>userId\<close> \<open>B\<close>. The list depends on the storage through the entry
  \<open>tasks_name\<close> alone, so that nothing stored under the key of another owner reaches
  it. When that entry is a non-empty text that parses to an array without \<open>null\<close>
  (or \<open>undefined\<close>) element, the list is the repaired array: the records whose
  \<open>userId\<close> is truthy and differs from \<open>B\<close> are dropped and every other record gets
  the \<open>userId\<close> \<open>B\<close>; the repaired list is stored under \<open>tasks_name\<close> at once
  unless the storage refuses the write, and then the storage stays as it was. When the
  array has such an element, and when the entry is absent, empty, unreadable or no JSON
  array, the list is left empty and the storage as it was. The same holds when there is
  no current user, or none whose \<open>id\<close> has a text.
\<close>

theorem loadTasks_repair:
  "(truthy (currentUser st) \<and> get_prop (currentUser st) (lit ''id'') = Some B
      \<and> to_string B = Some name \<longrightarrow>
      (\<forall>task \<in> set (tasks (loadTasks st)). obj_get task (lit ''userId'') = B)
    \<and> (\<forall>st2 :: app. currentUser st2 = currentUser st
            \<and> ls_getItem (localStorage st2) (lit ''tasks_'' @ name)
                = ls_getItem (localStorage st) (lit ''tasks_'' @ name)
          \<longrightarrow> tasks (loadTasks st2) = tasks (loadTasks st))
    \<and> (\<forall>raw recs.
          ls_getItem (localStorage st) (lit ''tasks_'' @ name) = Some (Some raw) \<and> raw \<noteq> []
          \<and> JSON_parse raw = Some (JArr recs) \<longrightarrow>
            (JNull \<notin> set recs \<and> JUndefined \<notin> set recs \<longrightarrow>
               tasks (loadTasks st) = repaired B recs
               \<and> localStorage (loadTasks st)
                   = (if full (localStorage st) then localStorage st
                      else (localStorage st)\<lparr>items := (items (localStorage st))
                              (lit ''tasks_'' @ name \<mapsto> serialize (JArr (map JObj (repaired B recs))))\<rparr>))
          \<and> (JNull \<in> set recs \<or> JUndefined \<in> set recs \<longrightarrow>
               tasks (loadTasks st) = [] \<and> localStorage (loadTasks st) = localStorage st))
    \<and> ((\<forall>raw recs. ls_getItem (localStorage st) (lit ''tasks_'' @ name) = Some (Some raw)
            \<and> raw \<noteq> [] \<longrightarrow> JSON_parse raw \<noteq> Some (JArr recs))
          \<longrightarrow> tasks (loadTasks st) = [] \<and> localStorage (loadTasks st) = localStorage st))
   \<and> (\<not> truthy (currentUser st) \<or> userTaskKey (currentUser st) = None \<longrightarrow>
        tasks (loadTasks st) = [] \<and> localStorage (loadTasks st) = localStorage st)"
  (is "(?H \<longrightarrow> ?P1 \<and> ?P2 \<and> ?P3 \<and> ?P4) \<and> ?N")
proof -
  have none: ?N
    by (auto simp: loadTasks_no_owner)
  have owner: "?H \<longrightarrow> ?P1 \<and> ?P2 \<and> ?P3 \<and> ?P4"
  proof
    assume a: ?H
    then have tr: "truthy (currentUser st)" and id: "get_prop (currentUser st) (lit ''id'') = Some B"
      and name: "to_string B = Some name" by simp_all
    have key: "userTaskKey (currentUser st) = Some (lit ''tasks_'' @ name)"
      using id name by (simp add: userTaskKey_name)
    have p1: ?P1
      unfolding loadTasks_tasks [OF tr id name]
      by (auto simp: repaired_def obj_get_obj_set split: option.splits if_splits jsval.splits)
    have p2: ?P2
    proof (intro allI impI)
      fix st2 :: app
      assume b: "currentUser st2 = currentUser st
         \<and> ls_getItem (localStorage st2) (lit ''tasks_'' @ name)
             = ls_getItem (localStorage st) (lit ''tasks_'' @ name)"
      then have tr2: "truthy (currentUser st2)"
        and id2: "get_prop (currentUser st2) (lit ''id'') = Some B"
        using tr id by simp_all
      show "tasks (loadTasks st2) = tasks (loadTasks st)"
        unfolding loadTasks_tasks [OF tr id name] loadTasks_tasks [OF tr2 id2 name] using b by simp
    qed
    have p3: ?P3
    proof (intro allI impI)
      fix raw recs
      assume b: "ls_getItem (localStorage st) (lit ''tasks_'' @ name) = Some (Some raw) \<and> raw \<noteq> []
            \<and> JSON_parse raw = Some (JArr recs)"
      then have nb: "\<not> blocked (localStorage st)"
        by (auto simp: ls_getItem_def split: if_splits)
      have good: "JNull \<notin> set recs \<and> JUndefined \<notin> set recs \<longrightarrow>
                 tasks (loadTasks st) = repaired B recs
                 \<and> localStorage (loadTasks st)
                     = (if full (localStorage st) then localStorage st
                        else (localStorage st)\<lparr>items := (items (localStorage st))
                                (lit ''tasks_'' @ name \<mapsto> serialize (JArr (map JObj (repaired B recs))))\<rparr>)"
      proof
        assume ok: "JNull \<notin> set recs \<and> JUndefined \<notin> set recs"
        have l: "loadTasks st = saveTasks (st\<lparr>tasks := repaired B recs\<rparr>)"
          unfolding loadTasks_state [OF tr id name] using b ok by simp
        have s: "localStorage (saveTasks (st\<lparr>tasks := repaired B recs\<rparr>))
            = (if full (localStorage st) then localStorage st
               else (localStorage st)\<lparr>items := (items (localStorage st))
                       (lit ''tasks_'' @ name \<mapsto> serialize (JArr (map JObj (repaired B recs))))\<rparr>)"
          using saveTasks_storage [of "st\<lparr>tasks := repaired B recs\<rparr>" "lit ''tasks_'' @ name"]
            tr key nb by simp
        from l s show "tasks (loadTasks st) = repaired B recs
                 \<and> localStorage (loadTasks st)
                     = (if full (localStorage st) then localStorage st
                        else (localStorage st)\<lparr>items := (items (localStorage st))
                                (lit ''tasks_'' @ name \<mapsto> serialize (JArr (map JObj (repaired B recs))))\<rparr>)"
          by simp
      qed
      have bad: "JNull \<in> set recs \<or> JUndefined \<in> set recs \<longrightarrow>
                 tasks (loadTasks st) = [] \<and> localStorage (loadTasks st) = localStorage st"
      proof
        assume "JNull \<in> set recs \<or> JUndefined \<in> set recs"
        then have "loadTasks st = st\<lparr>tasks := []\<rparr>"
          unfolding loadTasks_state [OF tr id name] using b by auto
        then show "tasks (loadTasks st) = [] \<and> localStorage (loadTasks st) = localStorage st"
          by simp
      qed
      from good bad show "(JNull \<notin> set recs \<and> JUndefined \<notin> set recs \<longrightarrow>
                 tasks (loadTasks st) = repaired B recs
                 \<and> localStorage (loadTasks st)
                     = (if full (localStorage st) then localStorage st
                        else (localStorage st)\<lparr>items := (items (localStorage st))
                                (lit ''tasks_'' @ name \<mapsto> serialize (JArr (map JObj (repaired B recs))))\<rparr>))
            \<and> (JNull \<in> set recs \<or> JUndefined \<in> set recs \<longrightarrow>
                 tasks (loadTasks st) = [] \<and> localStorage (loadTasks st) = localStorage st)"
        by (rule conjI)
    qed
    have p4: ?P4
    proof
      assume c: "\<forall>raw recs. ls_getItem (localStorage st) (lit ''tasks_'' @ name) = Some (Some raw)
              \<and> raw \<noteq> [] \<longrightarrow> JSON_parse raw \<noteq> Some (JArr recs)"
      have "loadTasks st = st\<lparr>tasks := []\<rparr>"
        unfolding loadTasks_state [OF tr id name] using c
        by (auto split: option.splits jsval.splits)
      then show "tasks (loadTasks st) = [] \<and> localStorage (loadTasks st) = localStorage st"
        by simp
    qed
    show "?P1 \<and> ?P2 \<and> ?P3 \<and> ?P4"
      by (rule conjI [OF p1 conjI [OF p2 conjI [OF p3 p4]]])
  qed
  show ?thesis
    by (rule conjI [OF owner none])
qed

theorem loadTasks_repair_witness:
  "tasks (loadTasks demo_stored)
     = [[(lit ''text'', JStr (lit ''b'')), (lit ''userId'', JStr (lit ''u1''))]]
   \<and> items (localStorage (loadTasks demo_stored)) (lit ''tasks_u1'')
       = Some (lit ''[{\"text\":\"b\",\"userId\":\"u1\"}]'')
   \<and> obj_get (hd (tasks (loadTasks demo_stored))) (lit ''userId'') = JStr (lit ''u1'')
   \<and> tasks (loadTasks (fresh_app (lit ''/index.html''))) = []"
proof -
  let ?recs = "[JObj [(lit ''text'', JStr (lit ''a'')), (lit ''userId'', JStr (lit ''u2''))],
                JObj [(lit ''text'', JStr (lit ''b''))]]"
  let ?raw = "lit ''[{\"text\":\"a\",\"userId\":\"u2\"},{\"text\":\"b\"}]''"
  note th = loadTasks_repair [of demo_stored "JStr (lit ''u1'')" "lit ''u1''"]
  have hyp: "truthy (currentUser demo_stored)
      \<and> get_prop (currentUser demo_stored) (lit ''id'') = Some (JStr (lit ''u1''))
      \<and> to_string (JStr (lit ''u1'')) = Some (lit ''u1'')"
    by (simp add: demo_stored_facts demo_current_user)
  from th hyp have iso:
    "\<forall>task \<in> set (tasks (loadTasks demo_stored)). obj_get task (lit ''userId'') = JStr (lit ''u1'')"
    by blast
  from th hyp have "ls_getItem (localStorage demo_stored) (lit ''tasks_'' @ lit ''u1'') = Some (Some ?raw)
      \<and> ?raw \<noteq> [] \<and> JSON_parse ?raw = Some (JArr ?recs) \<longrightarrow>
        (JNull \<notin> set ?recs \<and> JUndefined \<notin> set ?recs \<longrightarrow>
           tasks (loadTasks demo_stored) = repaired (JStr (lit ''u1'')) ?recs
           \<and> localStorage (loadTasks demo_stored)
               = (if full (localStorage demo_stored) then localStorage demo_stored
                  else (localStorage demo_stored)\<lparr>items := (items (localStorage demo_stored))
                     (lit ''tasks_'' @ lit ''u1''
                        \<mapsto> serialize (JArr (map JObj (repaired (JStr (lit ''u1'')) ?recs))))\<rparr>))"
    by blast
  moreover have "?raw \<noteq> []" by (simp add: lit_def)
  ultimately have t: "tasks (loadTasks demo_stored) = repaired (JStr (lit ''u1'')) ?recs"
    and l: "localStorage (loadTasks demo_stored)
        = (localStorage demo_stored)\<lparr>items := (items (localStorage demo_stored))
             (lit ''tasks_u1'' \<mapsto> serialize (JArr (map JObj (repaired (JStr (lit ''u1'')) ?recs))))\<rparr>"
    using demo_stored_facts demo_list_parses(1) demo_current_user(5) by simp_all
  have 1: "tasks (loadTasks demo_stored)
     = [[(lit ''text'', JStr (lit ''b'')), (lit ''userId'', JStr (lit ''u1''))]]"
    using t by (simp only: demo_repairs)
  have 2: "items (localStorage (loadTasks demo_stored)) (lit ''tasks_u1'')
       = Some (lit ''[{\"text\":\"b\",\"userId\":\"u1\"}]'')"
    unfolding l demo_repairs using demo_repaired_text by (simp del: serialize.simps)
  from iso 1 have 3: "obj_get (hd (tasks (loadTasks demo_stored))) (lit ''userId'') = JStr (lit ''u1'')"
    by simp
  from loadTasks_repair [of "fresh_app (lit ''/index.html'')" JNull "[]"]
  have 4: "tasks (loadTasks (fresh_app (lit ''/index.html''))) = []"
    by (simp add: fresh_app_def truthy_def)
  from 1 2 3 4 show ?thesis by blast
qed

section \<open>The token codec\<close>

subsection \<open>Base64\<close>

lemma div_group: "y < k \<Longrightarrow> (x * k + y) div k = (x::nat)"
  by simp

lemma mod_group: "y < k \<Longrightarrow> (x * k + y) mod k = (y::nat)"
  by simp

lemma group_a:
  assumes "b < 256"
  shows "(a div 4) * 4 + ((a mod 4) * 16 + b div 16) div 16 = (a::nat)"
proof -
  from assms have "b div 16 < 16" by simp
  then have "((a mod 4) * 16 + b div 16) div 16 = a mod 4" by (rule div_group)
  then show ?thesis by simp
qed

lemma group_b:
  assumes "b < 256" "c < 256"
  shows "(((a mod 4) * 16 + b div 16) mod 16) * 16 + ((b mod 16) * 4 + c div 64) div 4 = (b::nat)"
proof -
  from assms have "b div 16 < 16" "c div 64 < 4" by simp_all
  then have "((a mod 4) * 16 + b div 16) mod 16 = b div 16"
    "((b mod 16) * 4 + c div 64) div 4 = b mod 16"
    by (simp_all only: mod_group div_group)
  then show ?thesis by simp
qed

lemma group_c:
  assumes "c < 256"
  shows "(((b mod 16) * 4 + c div 64) mod 4) * 64 + c mod 64 = (c::nat)"
proof -
  from assms have "c div 64 < 4" by simp
  then have "((b mod 16) * 4 + c div 64) mod 4 = c div 64" by (rule mod_group)
  then show ?thesis by simp
qed

lemma group_ab:
  assumes "b < 256"
  shows "(((a mod 4) * 16 + b div 16) mod 16) * 16 + ((b mod 16) * 4) div 4 = (b::nat)"
proof -
  from assms have "b div 16 < 16" by simp
  then have "((a mod 4) * 16 + b div 16) mod 16 = b div 16" by (rule mod_group)
  then show ?thesis by simp
qed

lemma group_a0: "(a div 4) * 4 + ((a mod 4) * 16) div 16 = (a::nat)"
  by simp

lemma split_on_nonempty: "split_on d xs \<noteq> []"
  by (induction xs) (auto split: list.splits)

lemma sextet_bounds:
  "a < 256 \<Longrightarrow> a div 4 < (64::nat)"
  "(a mod 4) * 16 < (64::nat)"
  "b < 256 \<Longrightarrow> (a mod 4) * 16 + b div 16 < (64::nat)"
  "(b mod 16) * 4 < (64::nat)"
  "c < 256 \<Longrightarrow> (b mod 16) * 4 + c div 64 < (64::nat)"
  "c mod 64 < (64::nat)"
proof -
  have m4: "a mod 4 \<le> 3" by simp
  have m16: "b mod 16 \<le> 15" by simp
  show "a < 256 \<Longrightarrow> a div 4 < 64" by simp
  show "(a mod 4) * 16 < 64" using m4 by simp
  show "b < 256 \<Longrightarrow> (a mod 4) * 16 + b div 16 < 64"
  proof -
    assume "b < 256"
    then have "b div 16 \<le> 15" by simp
    with m4 show ?thesis by simp
  qed
  show "(b mod 16) * 4 < 64" using m16 by simp
  show "c < 256 \<Longrightarrow> (b mod 16) * 4 + c div 64 < 64"
  proof -
    assume "c < 256"
    then have "c div 64 \<le> 3" by simp
    with m16 show ?thesis by simp
  qed
  show "c mod 64 < 64" by simp
qed

lemma b64_index_char: "d < 64 \<Longrightarrow> b64_index (b64_char d) = Some d"
  unfolding b64_index_def b64_char_def Let_def
  by (simp split: if_splits) linarith

lemma b64_char_plain: "\<not> ascii_ws (b64_char d)" "b64_char d \<noteq> 61" "b64_char d \<noteq> 46"
  unfolding b64_char_def ascii_ws_def Let_def
  by (simp_all split: if_splits) linarith+

lemma those_b64_index:
  "list_all (\<lambda>d. d < 64) ds \<Longrightarrow> those (map (b64_index \<circ> b64_char) ds) = Some ds"
  by (induction ds) (simp_all add: b64_index_char)

lemma filter_b64:
  "filter (\<lambda>c. \<not> ascii_ws c) (map b64_char ds @ replicate p 61) = map b64_char ds @ replicate p 61"
  by (simp add: filter_id_conv b64_char_plain) (simp add: ascii_ws_def)

lemma strip_padding_b64:
  assumes "p \<le> 2" "(length ds + p) mod 4 = 0"
  shows "strip_padding (map b64_char ds @ replicate p 61) = map b64_char ds"
proof -
  consider (zero) "p = 0" | (one) "p = 1" | (two) "p = 2"
    using assms(1) by linarith
  then show ?thesis
  proof cases
    case zero
    show ?thesis
    proof (cases ds rule: rev_cases)
      case Nil
      with zero show ?thesis by (simp add: strip_padding_def)
    next
      case (snoc ds' d)
      with zero show ?thesis by (simp add: strip_padding_def b64_char_plain)
    qed
  next
    case one
    with assms(2) have "ds \<noteq> []" by auto
    then obtain ds' d where "ds = ds' @ [d]" by (cases ds rule: rev_cases) auto
    with one assms(2) show ?thesis
      by (simp add: strip_padding_def b64_char_plain butlast_append)
  next
    case two
    have r: "replicate 2 (61::nat) = [61, 61]" by (simp add: numeral_2_eq_2)
    from two assms(2) show ?thesis
      by (simp add: strip_padding_def r butlast_append)
  qed
qed

lemma atob_b64:
  assumes "list_all (\<lambda>d. d < 64) ds" "p \<le> 2" "(length ds + p) mod 4 = 0"
  shows "atob (map b64_char ds @ replicate p 61) = Some (b64_decode ds)"
proof -
  have n: "length ds mod 4 \<noteq> 1"
    using assms(2,3) by presburger
  have "atob (map b64_char ds @ replicate p 61)
      = (if length (map b64_char ds) mod 4 = 1 then None
         else map_option b64_decode (those (map b64_index (map b64_char ds))))"
    unfolding atob_def filter_b64 strip_padding_b64 [OF assms(2,3)] Let_def ..
  with n show ?thesis
    by (simp add: those_b64_index [OF assms(1)])
qed

lemma b64_encode_shape:
  "list_all (\<lambda>c. c < 256) s \<Longrightarrow>
     \<exists>ds p. b64_encode s = map b64_char ds @ replicate p 61 \<and> list_all (\<lambda>d. d < 64) ds
        \<and> p \<le> 2 \<and> (length ds + p) mod 4 = 0 \<and> b64_decode ds = s"
proof (induction s rule: b64_encode.induct)
  case 1
  show ?case by (rule exI [of _ "[]"], rule exI [of _ 0]) simp
next
  case (2 a)
  then have a: "a < 256" by simp
  let ?ds = "[a div 4, (a mod 4) * 16]"
  have e: "b64_encode [a] = map b64_char ?ds @ replicate 2 61"
    by (simp add: numeral_2_eq_2)
  have l: "list_all (\<lambda>d. d < 64) ?ds"
    by (simp add: sextet_bounds a)
  have d: "b64_decode ?ds = [a]"
    by (simp only: b64_decode.simps group_a0)
  from e l d show ?case
    by (intro exI [of _ ?ds] exI [of _ 2]) simp
next
  case (3 a b)
  then have a: "a < 256" "b < 256" by simp_all
  let ?ds = "[a div 4, (a mod 4) * 16 + b div 16, (b mod 16) * 4]"
  have e: "b64_encode [a, b] = map b64_char ?ds @ replicate 1 61"
    by simp
  have l: "list_all (\<lambda>d. d < 64) ?ds"
    by (simp add: sextet_bounds a)
  have d: "b64_decode ?ds = [a, b]"
    by (simp only: b64_decode.simps group_a [OF a(2)] group_ab [OF a(2)])
  from e l d show ?case
    by (intro exI [of _ ?ds] exI [of _ 1]) simp
next
  case (4 a b c r)
  then have a: "a < 256" "b < 256" "c < 256" and r: "list_all (\<lambda>c. c < 256) r" by simp_all
  from "4.IH" [OF r] obtain ds p where i: "b64_encode r = map b64_char ds @ replicate p 61"
    "list_all (\<lambda>d. d < 64) ds" "p \<le> 2" "(length ds + p) mod 4 = 0" "b64_decode ds = r"
    by auto
  let ?q = "[a div 4, (a mod 4) * 16 + b div 16, (b mod 16) * 4 + c div 64, c mod 64]"
  have e: "b64_encode (a # b # c # r) = map b64_char (?q @ ds) @ replicate p 61"
    by (simp add: i(1))
  have l: "list_all (\<lambda>d. d < 64) (?q @ ds)"
    by (simp add: sextet_bounds a i(2))
  have d: "b64_decode (?q @ ds) = a # b # c # r"
    by (simp only: append_Cons append_Nil b64_decode.simps group_a [OF a(2)]
        group_b [OF a(2,3)] group_c [OF a(3)] i(5))
  have m: "(length (?q @ ds) + p) mod 4 = 0"
    using i(4) by simp
  from e l d m i(3) show ?case
    by (intro exI [of _ "?q @ ds"] exI [of _ p]) simp
qed

lemma atob_b64_encode:
  assumes "list_all (\<lambda>c. c < 256) s"
  shows "atob (b64_encode s) = Some s"
proof -
  from b64_encode_shape [OF assms]
  obtain ds p where i: "b64_encode s = map b64_char ds @ replicate p 61"
    "list_all (\<lambda>d. d < 64) ds" "p \<le> 2" "(length ds + p) mod 4 = 0" "b64_decode ds = s"
    by auto
  then show ?thesis by (simp add: atob_b64)
qed

lemma b64_encode_no_dot: "46 \<notin> set (b64_encode s)"
  by (induction s rule: b64_encode.induct) (simp_all add: b64_char_plain)

lemma split_on_absent: "d \<notin> set xs \<Longrightarrow> split_on d xs = [xs]"
  by (induction xs) auto

lemma split_on_append: "d \<notin> set xs \<Longrightarrow> split_on d (xs @ d # ys) = xs # split_on d ys"
  by (induction xs) (auto simp: split_on_nonempty split: list.splits)

lemma split_three:
  "d \<notin> set h \<Longrightarrow> d \<notin> set p \<Longrightarrow> d \<notin> set s \<Longrightarrow> split_on d (h @ d # p @ d # s) = [h, p, s]"
  by (simp add: split_on_append split_on_absent)

subsection \<open>Integers in a JSON text\<close>

lemma show_nat_nonempty: "show_nat n \<noteq> []"
  by (subst show_nat.simps) simp

lemma show_nat_digits: "list_all is_digit (show_nat n)"
proof (induction n rule: show_nat.induct)
  case (1 n)
  show ?case
  proof (cases "n < 10")
    case True
    then show ?thesis by (subst show_nat.simps) (simp add: is_digit_def digit_char_def)
  next
    case False
    have "n mod 10 \<le> 9" by simp
    then have "is_digit (digit_char (n mod 10))"
      by (simp add: is_digit_def digit_char_def)
    with False "1.IH" show ?thesis by (subst show_nat.simps) simp
  qed
qed

lemma read_nat_snoc: "read_nat (ds @ [c]) = 10 * read_nat ds + digit_val c"
  by (simp add: read_nat_def)

lemma read_nat_show_nat: "read_nat (show_nat n) = n"
proof (induction n rule: show_nat.induct)
  case (1 n)
  show ?case
  proof (cases "n < 10")
    case True
    then show ?thesis
      by (subst show_nat.simps) (simp add: read_nat_def digit_val_def digit_char_def)
  next
    case False
    have "digit_val (digit_char (n mod 10)) = n mod 10"
      by (simp add: digit_val_def digit_char_def)
    with False "1.IH" show ?thesis
      by (subst show_nat.simps) (simp add: read_nat_snoc)
  qed
qed

lemma show_nat_zero: "show_nat 0 = [48]"
  by (simp add: show_nat.simps digit_char_def)

lemma show_nat_hd: "n \<noteq> 0 \<Longrightarrow> hd (show_nat n) \<noteq> 48"
proof (induction n rule: show_nat.induct)
  case (1 n)
  show ?case
  proof (cases "n < 10")
    case True
    with "1.prems" show ?thesis by (subst show_nat.simps) (simp add: digit_char_def)
  next
    case False
    then have "n div 10 \<noteq> 0" by simp
    with False "1.IH" have "hd (show_nat (n div 10)) \<noteq> 48" by simp
    with False show ?thesis by (subst show_nat.simps) (simp add: show_nat_nonempty)
  qed
qed

lemma digit_byte: "is_digit c \<Longrightarrow> c < 256"
  by (simp add: is_digit_def)

lemma show_nat_bytes: "list_all (\<lambda>c. c < 256) (show_nat n)"
  using show_nat_digits [of n] by (auto simp: list_all_iff dest: digit_byte)

lemma show_int_bytes: "list_all (\<lambda>c. c < 256) (show_int a)"
  by (simp add: show_int_def show_nat_bytes lit_def)

lemma takeWhile_digits: "list_all is_digit ds \<Longrightarrow> \<not> is_digit c \<Longrightarrow> takeWhile is_digit (ds @ c # r) = ds"
  by (induction ds) simp_all

lemma dropWhile_digits: "list_all is_digit ds \<Longrightarrow> \<not> is_digit c \<Longrightarrow> dropWhile is_digit (ds @ c # r) = c # r"
  by (induction ds) simp_all

lemma lex_int_show_nat:
  assumes "\<not> is_digit c"
  shows "lex_int (show_nat n @ c # r) = Some (show_nat n, c # r)"
proof -
  have l: "1 < length (show_nat n) \<Longrightarrow> hd (show_nat n) \<noteq> 48"
    by (cases "n = 0") (simp_all add: show_nat_zero show_nat_hd)
  show ?thesis
    using l by (auto simp: lex_int_def Let_def takeWhile_digits [OF show_nat_digits assms]
        dropWhile_digits [OF show_nat_digits assms] show_nat_nonempty)
qed

lemma lex_number_show_nat:
  assumes c: "\<not> is_digit c" "c \<noteq> of_char CHR ''.''" "c \<noteq> of_char CHR ''e''" "c \<noteq> of_char CHR ''E''"
    and n: "n \<le> 2 ^ 53"
  shows "lex_number (show_nat n @ c # r) = Some (JNum (int n), c # r)"
proof -
  obtain x xs where s: "show_nat n = x # xs"
    using show_nat_nonempty [of n] by (cases "show_nat n") auto
  have "is_digit x" using show_nat_digits [of n] s by simp
  then have x: "x \<noteq> of_char CHR ''-''" by (auto simp: is_digit_def)
  have i: "lex_int (x # xs @ c # r) = Some (show_nat n, c # r)"
    using lex_int_show_nat [OF c(1), of n r] s by simp
  have f: "lex_frac (c # r) = Some ([], c # r)"
    using c(2) by (simp add: lex_frac_def)
  have e: "lex_exp (c # r) = Some (0, c # r)"
    using c(3,4) by (simp add: lex_exp_def)
  have v: "number_value False n 0 = JNum (int n)"
    using n by (simp add: number_value_def)
  show ?thesis
    unfolding s using x i f e v by (simp add: lex_number_def Let_def read_nat_show_nat)
qed

lemma lex_number_negative:
  assumes c: "\<not> is_digit c" "c \<noteq> of_char CHR ''.''" "c \<noteq> of_char CHR ''e''" "c \<noteq> of_char CHR ''E''"
    and n: "n \<le> 2 ^ 53"
  shows "lex_number (of_char CHR ''-'' # show_nat n @ c # r) = Some (JNum (- int n), c # r)"
proof -
  have i: "lex_int (show_nat n @ c # r) = Some (show_nat n, c # r)"
    by (rule lex_int_show_nat [OF c(1)])
  have f: "lex_frac (c # r) = Some ([], c # r)"
    using c(2) by (simp add: lex_frac_def)
  have e: "lex_exp (c # r) = Some (0, c # r)"
    using c(3,4) by (simp add: lex_exp_def)
  have v: "number_value True n 0 = JNum (- int n)"
    using n by (simp add: number_value_def negate_def)
  show ?thesis
    using i f e v by (simp add: lex_number_def Let_def read_nat_show_nat)
qed

lemma lex_number_show_int:
  assumes c: "\<not> is_digit c" "c \<noteq> of_char CHR ''.''" "c \<noteq> of_char CHR ''e''" "c \<noteq> of_char CHR ''E''"
    and a: "\<bar>a\<bar> \<le> 2 ^ 53"
  shows "lex_number (show_int a @ c # r) = Some (JNum a, c # r)"
proof (cases "a < 0")
  case True
  with a have "nat (- a) \<le> 2 ^ 53" by simp
  from lex_number_negative [OF c this, of r] True show ?thesis
    by (simp add: show_int_def lit_def)
next
  case False
  with a have "nat a \<le> 2 ^ 53" by simp
  from lex_number_show_nat [OF c this, of r] False show ?thesis
    by (simp add: show_int_def)
qed

lemma show_int_head: "\<exists>x xs. show_int a = x # xs \<and> (x = of_char CHR ''-'' \<or> is_digit x)"
proof (cases "a < 0")
  case True
  then show ?thesis by (simp add: show_int_def lit_def)
next
  case False
  obtain x xs where s: "show_nat (nat a) = x # xs"
    using show_nat_nonempty [of "nat a"] by (cases "show_nat (nat a)") auto
  then have "is_digit x" using show_nat_digits [of "nat a"] by simp
  with s False show ?thesis by (simp add: show_int_def)
qed

lemma next_token_number:
  "x = of_char CHR ''-'' \<or> is_digit x \<Longrightarrow>
     next_token x cs = map_option (\<lambda>r. (Some (TVal (fst r)), snd r)) (lex_number (x # cs))"
  by (auto simp: next_token_def json_ws_def is_digit_def)

lemma tokenize_show_int:
  assumes c: "\<not> is_digit c" "c \<noteq> of_char CHR ''.''" "c \<noteq> of_char CHR ''e''" "c \<noteq> of_char CHR ''E''"
    and a: "\<bar>a\<bar> \<le> 2 ^ 53"
  shows "tokenize (show_int a @ c # r) = map_option (Cons (TVal (JNum a))) (tokenize (c # r))"
proof -
  obtain x xs where s: "show_int a = x # xs" "x = of_char CHR ''-'' \<or> is_digit x"
    using show_int_head by blast
  have "lex_number (x # xs @ c # r) = Some (JNum a, c # r)"
    using lex_number_show_int [OF c a, of r] s(1) by simp
  then have "next_token x (xs @ c # r) = Some (Some (TVal (JNum a)), c # r)"
    by (simp add: next_token_number [OF s(2)])
  then show ?thesis
    by (simp add: s(1) tokenize.simps(2) [of x])
qed

subsection \<open>The payload\<close>

lemma payload_text:
  assumes "\<bar>a\<bar> \<le> 2 ^ 53" "\<bar>b + session_lifetime\<bar> \<le> 2 ^ 53"
  shows "serialize (token_payload admin_user a b)
      = lit ''{\"sub\":\"admin123\",\"username\":\"admin\",\"email\":\"admin@taskmanager.com\",\"role\":\"admin\",\"iat\":''
        @ show_int a @ lit '',\"exp\":'' @ show_int (b + session_lifetime) @ lit ''}''"
    and "serialize (token_payload plain_user a b)
      = lit ''{\"sub\":\"user456\",\"username\":\"user\",\"email\":\"user@taskmanager.com\",\"role\":\"user\",\"iat\":''
        @ show_int a @ lit '',\"exp\":'' @ show_int (b + session_lifetime) @ lit ''}''"
  using assms
  by (simp_all add: token_payload_def admin_user_def plain_user_def quote_defs number_to_string_def)

lemma payload_parse:
  assumes "\<bar>a\<bar> \<le> 2 ^ 53" "\<bar>b + session_lifetime\<bar> \<le> 2 ^ 53"
  shows "JSON_parse (serialize (token_payload admin_user a b)) = Some (token_payload admin_user a b)"
    and "JSON_parse (serialize (token_payload plain_user a b)) = Some (token_payload plain_user a b)"
  unfolding payload_text [OF assms]
  using assms
  by (simp_all add: tokenize.simps lex_defs parse_defs tokenize_show_int
      token_payload_def admin_user_def plain_user_def)

lemma lit_bytes: "list_all (\<lambda>c. c < 256) (lit s)"
  by (induction s) (simp_all add: lit_def)

lemma payload_bytes:
  assumes "\<bar>a\<bar> \<le> 2 ^ 53" "\<bar>b + session_lifetime\<bar> \<le> 2 ^ 53"
  shows "list_all (\<lambda>c. c < 256) (serialize (token_payload admin_user a b))"
    and "list_all (\<lambda>c. c < 256) (serialize (token_payload plain_user a b))"
  unfolding payload_text [OF assms]
  by (simp_all only: list_all_append lit_bytes show_int_bytes simp_thms)

lemma header_bytes: "list_all (\<lambda>c. c < 256) (serialize token_header)"
  by (simp add: token_header_def quote_defs)

lemma clock_range:
  assumes "\<bar>t_iat :: int\<bar> \<le> 8640000000000000" "\<bar>t_exp\<bar> \<le> 8640000000000000"
  shows "\<bar>t_iat\<bar> \<le> 2 ^ 53" "\<bar>t_exp + session_lifetime\<bar> \<le> 2 ^ 53"
  using assms by (simp_all add: session_lifetime_def)

text \<open>The token of a directory entry, and what it decodes to.\<close>

lemma token_decodes:
  assumes u: "u \<in> set MOCK_USERS"
    and t: "\<bar>t_iat\<bar> \<le> 8640000000000000" "\<bar>t_exp\<bar> \<le> 8640000000000000"
  shows "generateMockToken u t_iat t_exp
      = Some (b64_encode (serialize token_header) @ lit ''.''
              @ b64_encode (serialize (token_payload u t_iat t_exp)) @ lit ''.''
              @ b64_encode (lit ''mock-signature-'' @ lit (user_id u)))"
    and "decodeToken (b64_encode (serialize token_header) @ lit ''.''
              @ b64_encode (serialize (token_payload u t_iat t_exp)) @ lit ''.''
              @ b64_encode (lit ''mock-signature-'' @ lit (user_id u)))
      = Some (token_payload u t_iat t_exp)"
proof -
  note r = clock_range [OF t]
  from u have pb: "list_all (\<lambda>c. c < 256) (serialize (token_payload u t_iat t_exp))"
    and pp: "JSON_parse (serialize (token_payload u t_iat t_exp)) = Some (token_payload u t_iat t_exp)"
    using payload_bytes [OF r] payload_parse [OF r] by (auto simp: MOCK_USERS_def)
  have sb: "list_all (\<lambda>c. c < 256) (lit ''mock-signature-'' @ lit (user_id u))"
    by (simp only: list_all_append lit_bytes simp_thms)
  show "generateMockToken u t_iat t_exp
      = Some (b64_encode (serialize token_header) @ lit ''.''
              @ b64_encode (serialize (token_payload u t_iat t_exp)) @ lit ''.''
              @ b64_encode (lit ''mock-signature-'' @ lit (user_id u)))"
    using header_bytes pb sb by (simp add: generateMockToken_def btoa_def)
  have d: "lit ''.'' = [of_char CHR ''.'']" "of_char CHR ''.'' = (46::nat)"
    by (simp_all add: lit_def)
  have "split_on (of_char CHR ''.'')
          (b64_encode (serialize token_header) @ lit ''.''
              @ b64_encode (serialize (token_payload u t_iat t_exp)) @ lit ''.''
              @ b64_encode (lit ''mock-signature-'' @ lit (user_id u)))
      = [b64_encode (serialize token_header), b64_encode (serialize (token_payload u t_iat t_exp)),
         b64_encode (lit ''mock-signature-'' @ lit (user_id u))]"
    unfolding d by (simp only: append_Cons append_Nil) (rule split_three; rule b64_encode_no_dot)
  then show "decodeToken (b64_encode (serialize token_header) @ lit ''.''
              @ b64_encode (serialize (token_payload u t_iat t_exp)) @ lit ''.''
              @ b64_encode (lit ''mock-signature-'' @ lit (user_id u)))
      = Some (token_payload u t_iat t_exp)"
    by (simp add: decodeToken_def Let_def atob_b64_encode [OF pb] pp del: serialize.simps)
qed

lemma payload_fields:
  "get_prop (token_payload u t_iat t_exp) (lit ''sub'') = Some (JStr (lit (user_id u)))"
  "get_prop (token_payload u t_iat t_exp) (lit ''username'') = Some (JStr (lit (username u)))"
  "get_prop (token_payload u t_iat t_exp) (lit ''role'') = Some (JStr (lit (role u)))"
  "get_prop (token_payload u t_iat t_exp) (lit ''iat'') = Some (JNum t_iat)"
  "get_prop (token_payload u t_iat t_exp) (lit ''exp'') = Some (JNum (t_exp + session_lifetime))"
  by (simp_all add: token_payload_def get_prop_def obj_get_def) (simp_all add: lit_def)

lemma payload_expired:
  "isExpired now (token_payload u t_iat t_exp) = Some (t_exp + session_lifetime < now)"
  by (simp add: isExpired_def payload_fields js_gt_def to_number_def num_gt_def)

subsection \<open>Every entry of the directory gets a token\<close>

text \<open>
  The text that \<open>generateMockToken\<close> hands to \<open>btoa\<close> consists of bytes, whatever
  the clock reads, so that \<open>login\<close> never fails with the error of \<open>btoa\<close>.
\<close>

lemma list_all_take: "list_all P xs \<Longrightarrow> list_all P (take n xs)"
  by (auto simp: list_all_iff dest: in_set_takeD)

lemma list_all_drop: "list_all P xs \<Longrightarrow> list_all P (drop n xs)"
  by (auto simp: list_all_iff dest: in_set_dropD)

lemma replicate_bytes: "list_all (\<lambda>c. c < 256) (replicate k (48::nat))"
  by (induction k) simp_all

lemma show_scaled_bytes:
  assumes "s \<noteq> []" "list_all (\<lambda>c. c < 256) s"
  shows "list_all (\<lambda>c. c < 256) (show_scaled s n)"
proof -
  from assms obtain x xs where s: "s = x # xs" "x < 256" "list_all (\<lambda>c. c < 256) xs"
    by (cases s) auto
  show ?thesis
    using assms(2) s
    by (simp add: show_scaled_def Let_def lit_bytes show_nat_bytes list_all_take list_all_drop
        replicate_bytes)
qed

lemma number_to_string_bytes: "list_all (\<lambda>c. c < 256) (number_to_string v)"
proof (cases v)
  case (JNum n)
  obtain s e where d: "shortest_digits (JNum \<bar>n\<bar>) = (s, e)" by (cases "shortest_digits (JNum \<bar>n\<bar>)")
  show ?thesis
    by (simp add: JNum number_to_string_def d show_int_bytes lit_bytes
        show_scaled_bytes [OF show_nat_nonempty show_nat_bytes])
next
  case (JFrac m k)
  obtain s e where d: "shortest_digits (JFrac \<bar>m\<bar> k) = (s, e)" by (cases "shortest_digits (JFrac \<bar>m\<bar> k)")
  show ?thesis
    by (simp add: JFrac number_to_string_def d lit_bytes
        show_scaled_bytes [OF show_nat_nonempty show_nat_bytes])
qed (simp_all add: number_to_string_def lit_bytes)

lemma generateMockToken_defined:
  assumes "u \<in> set MOCK_USERS"
  shows "generateMockToken u t_iat t_exp \<noteq> None"
proof -
  have n: "list_all (\<lambda>c. c < 256) (number_to_string (JNum x))" for x
    by (rule number_to_string_bytes)
  have "list_all (\<lambda>c. c < 256) (serialize (token_payload u t_iat t_exp))"
    using assms n [of t_iat] n [of "t_exp + session_lifetime"]
    by (auto simp: MOCK_USERS_def token_payload_def admin_user_def plain_user_def quote_defs)
  moreover have "list_all (\<lambda>c. c < 256) (lit ''mock-signature-'' @ lit (user_id u))"
    by (simp only: list_all_append lit_bytes simp_thms)
  ultimately show ?thesis
    using header_bytes by (simp add: generateMockToken_def btoa_def)
qed

lemma findUser_directory: "findUser x pw = Some u \<Longrightarrow> u \<in> set MOCK_USERS"
  by (auto simp: findUser_def Let_def find_Some_iff)

lemma login_never_fails_in_btoa:
  "fst (login st x pw t_iat t_exp t_login t_saved) \<noteq> LoginFailure btoa_error_message"
proof (cases "x = [] \<or> pw = []")
  case True
  then show ?thesis by (auto simp: login_def btoa_error_message_def)
next
  case False
  show ?thesis
  proof (cases "findUser x pw")
    case None
    with False show ?thesis by (simp add: login_def btoa_error_message_def)
  next
    case (Some u)
    then obtain tok where "generateMockToken u t_iat t_exp = Some tok"
      using generateMockToken_defined [OF findUser_directory [OF Some]] by auto
    with False Some show ?thesis by (simp add: login_def Let_def)
  qed
qed

section \<open>Properties of the token\<close>

subsection \<open>The signature\<close>

lemma token_parts_truthy: "split_on d tok = [h, p, s] \<Longrightarrow> token_truthy (Some tok)"
  by (cases tok) (auto simp: token_truthy_def)

lemma decodeToken_parts:
  "split_on (of_char CHR ''.'') tok = [h, p, s]
     \<Longrightarrow> decodeToken tok = (case atob p of None \<Rightarrow> None | Some text \<Rightarrow> JSON_parse text)"
  by (simp add: decodeToken_def Let_def)

lemma logout_token: "logout (st\<lparr>authToken := t\<rparr>) = logout st"
  by (simp add: logout_def)

text \<open>
  C4: the signature is not inspected. Let two tokens have three segments each (the
  parts between their dots) and agree on the first and the second. Then they decode to
  the same payload or fail alike, they are accepted or refused alike at every instant,
  and \<open>validateSession\<close> returns the same flag for both and leaves the same state,
  the kept token apart: both tokens are kept, or both sessions are logged out.
\<close>

theorem signature_not_inspected:
  assumes "split_on (of_char CHR ''.'') tok1 = [h, p, s1]"
    and "split_on (of_char CHR ''.'') tok2 = [h, p, s2]"
  shows "decodeToken tok1 = decodeToken tok2
    \<and> token_accepted tok1 now = token_accepted tok2 now
    \<and> fst (validateSession (st\<lparr>authToken := Some tok1\<rparr>) now)
        = fst (validateSession (st\<lparr>authToken := Some tok2\<rparr>) now)
    \<and> (snd (validateSession (st\<lparr>authToken := Some tok1\<rparr>) now))\<lparr>authToken := None\<rparr>
        = (snd (validateSession (st\<lparr>authToken := Some tok2\<rparr>) now))\<lparr>authToken := None\<rparr>
    \<and> (authToken (snd (validateSession (st\<lparr>authToken := Some tok1\<rparr>) now)) = None)
        = (authToken (snd (validateSession (st\<lparr>authToken := Some tok2\<rparr>) now)) = None)"
proof -
  have d: "decodeToken tok1 = decodeToken tok2"
    using assms by (simp add: decodeToken_parts)
  then have a: "token_accepted tok1 now = token_accepted tok2 now"
    by (simp add: token_accepted_def)
  have t: "token_truthy (Some tok1)" "token_truthy (Some tok2)"
    using assms by (auto dest: token_parts_truthy)
  have v: "validateSession (st\<lparr>authToken := Some tok\<rparr>) now
      = (if truthy (auth_currentUser st) \<and> token_truthy (Some tok)
         then (if token_accepted tok now then (True, st\<lparr>authToken := Some tok\<rparr>)
               else (False, logout st))
         else (False, st\<lparr>authToken := Some tok\<rparr>))" for tok
    by (simp add: validateSession_def logout_token)
  from d a t show ?thesis
    by (simp add: v)
qed

lemma example_payload_token:
  "split_on (of_char CHR ''.'') (lit ''h.eyJleHAiOjEwfQ==.sig'')
     = [lit ''h'', lit ''eyJleHAiOjEwfQ=='', lit ''sig'']"
  "split_on (of_char CHR ''.'') (lit ''h.eyJleHAiOjEwfQ==.forged'')
     = [lit ''h'', lit ''eyJleHAiOjEwfQ=='', lit ''forged'']"
  "atob (lit ''eyJleHAiOjEwfQ=='') = Some (lit ''{\"exp\":10}'')"
  "JSON_parse (lit ''{\"exp\":10}'') = Some (JObj [(lit ''exp'', JNum 10)])"
  by (simp_all add: atob_def strip_padding_def ascii_ws_def b64_index_def Let_def
      tokenize.simps lex_defs parse_defs)

theorem signature_not_inspected_witness:
  "decodeToken (lit ''h.eyJleHAiOjEwfQ==.forged'') = Some (JObj [(lit ''exp'', JNum 10)])
   \<and> token_accepted (lit ''h.eyJleHAiOjEwfQ==.forged'') 5
   \<and> \<not> token_accepted (lit ''h.eyJleHAiOjEwfQ==.forged'') 11"
proof -
  have d: "decodeToken (lit ''h.eyJleHAiOjEwfQ==.sig'') = Some (JObj [(lit ''exp'', JNum 10)])"
    by (simp add: decodeToken_parts [OF example_payload_token(1)] example_payload_token(3,4))
  have e: "isExpired 5 (JObj [(lit ''exp'', JNum 10)]) = Some False"
    "isExpired 11 (JObj [(lit ''exp'', JNum 10)]) = Some True"
    by (simp_all add: isExpired_def get_prop_def obj_get_def js_gt_def to_number_def num_gt_def)
  have a: "token_accepted (lit ''h.eyJleHAiOjEwfQ==.sig'') 5"
    "\<not> token_accepted (lit ''h.eyJleHAiOjEwfQ==.sig'') 11"
    by (simp_all add: token_accepted_def d e)
  from signature_not_inspected [OF example_payload_token(1,2), of 5]
    signature_not_inspected [OF example_payload_token(1,2), of 11] d a
  show ?thesis by simp
qed

subsection \<open>Round trip and expiry\<close>

text \<open>
  C5, as stated, fails: \<open>generateMockToken\<close> reads the clock once for \<open>iat\<close> and
  once more for \<open>exp\<close>. When the clock advances by a millisecond between the two
  readings, the encoded expiry is not the issue time plus 24 hours, and the token is not
  yet expired when the clock has exceeded the issue time plus 24 hours.
\<close>

theorem token_expiry_counterexample:
  "\<exists>tok. generateMockToken admin_user 0 1 = Some tok
      \<and> decodeToken tok = Some (token_payload admin_user 0 1)
      \<and> get_prop (token_payload admin_user 0 1) (lit ''iat'') = Some (JNum 0)
      \<and> get_prop (token_payload admin_user 0 1) (lit ''exp'') = Some (JNum 86400001)
      \<and> (86400001 :: int) \<noteq> 0 + session_lifetime
      \<and> 0 + session_lifetime < (86400001 :: int)
      \<and> isExpired 86400001 (token_payload admin_user 0 1) = Some False"
proof -
  have u: "admin_user \<in> set MOCK_USERS" by (simp add: MOCK_USERS_def)
  have t: "\<bar>0 :: int\<bar> \<le> 8640000000000000" "\<bar>1 :: int\<bar> \<le> 8640000000000000" by simp_all
  from token_decodes [OF u t] payload_fields(4,5) [of admin_user 0 1]
    payload_expired [of 86400001 admin_user 0 1]
  show ?thesis
    by (simp add: session_lifetime_def)
qed

text \<open>
  C5, amended. For every entry of the directory and all readings of the clock,
  \<open>t_iat\<close> for \<open>iat\<close> and \<open>t_exp\<close> for \<open>exp\<close>, \<open>generateMockToken\<close>
  returns a token, and the token decodes to the payload that was encoded: \<open>sub\<close>,
  \<open>username\<close> and \<open>role\<close> are those of the entry, \<open>iat\<close> is \<open>t_iat\<close> exactly,
  and \<open>exp\<close> is \<open>t_exp\<close> plus 24 hours, which is the issue time plus 24 hours when
  the two readings are the same. The token is expired exactly when the clock exceeds
  \<open>t_exp\<close> plus 24 hours; so it is not expired at the instant \<open>t_exp\<close> itself, and
  \<open>validateSession\<close> accepts it until then.
\<close>

theorem token_round_trip:
  assumes "u \<in> set MOCK_USERS"
    and "\<bar>t_iat\<bar> \<le> 8640000000000000" and "\<bar>t_exp\<bar> \<le> 8640000000000000"
  shows "\<exists>tok. generateMockToken u t_iat t_exp = Some tok
      \<and> decodeToken tok = Some (token_payload u t_iat t_exp)
      \<and> get_prop (token_payload u t_iat t_exp) (lit ''sub'') = Some (JStr (lit (user_id u)))
      \<and> get_prop (token_payload u t_iat t_exp) (lit ''username'') = Some (JStr (lit (username u)))
      \<and> get_prop (token_payload u t_iat t_exp) (lit ''role'') = Some (JStr (lit (role u)))
      \<and> get_prop (token_payload u t_iat t_exp) (lit ''iat'') = Some (JNum t_iat)
      \<and> get_prop (token_payload u t_iat t_exp) (lit ''exp'') = Some (JNum (t_exp + session_lifetime))
      \<and> (t_exp = t_iat \<longrightarrow>
           get_prop (token_payload u t_iat t_exp) (lit ''exp'') = Some (JNum (t_iat + session_lifetime)))
      \<and> isExpired now (token_payload u t_iat t_exp) = Some (t_exp + session_lifetime < now)
      \<and> isExpired t_exp (token_payload u t_iat t_exp) = Some False
      \<and> token_accepted tok now = (now \<le> t_exp + session_lifetime)"
proof -
  note d = token_decodes [OF assms]
  have e: "isExpired t_exp (token_payload u t_iat t_exp) = Some False"
    by (simp add: payload_expired session_lifetime_def)
  have a: "token_accepted (b64_encode (serialize token_header) @ lit ''.''
              @ b64_encode (serialize (token_payload u t_iat t_exp)) @ lit ''.''
              @ b64_encode (lit ''mock-signature-'' @ lit (user_id u))) now
      = (now \<le> t_exp + session_lifetime)"
    unfolding token_accepted_def d(2) by (auto simp: payload_expired)
  from d a e show ?thesis
    by (simp add: payload_fields payload_expired del: serialize.simps)
qed

theorem token_round_trip_witness:
  "\<exists>tok. generateMockToken admin_user 5 5 = Some tok
      \<and> decodeToken tok = Some (token_payload admin_user 5 5)
      \<and> get_prop (token_payload admin_user 5 5) (lit ''exp'') = Some (JNum 86400005)
      \<and> token_accepted tok 5
      \<and> \<not> token_accepted tok 86400006"
proof -
  have u: "admin_user \<in> set MOCK_USERS" by (simp add: MOCK_USERS_def)
  have t: "\<bar>5 :: int\<bar> \<le> 8640000000000000" by simp
  from token_round_trip [OF u t t, of 5] obtain tok where
    k: "generateMockToken admin_user 5 5 = Some tok"
      "decodeToken tok = Some (token_payload admin_user 5 5)"
      "get_prop (token_payload admin_user 5 5) (lit ''exp'') = Some (JNum (5 + session_lifetime))"
      "token_accepted tok 5 = (5 \<le> 5 + session_lifetime)"
    by blast
  from token_round_trip [OF u t t, of 86400006] k(1)
  have l: "token_accepted tok 86400006 = (86400006 \<le> 5 + session_lifetime)"
    by auto
  from k l show ?thesis
    by (simp add: session_lifetime_def)
qed

end
